(* ===== verification/Py_Prelude.thy ===== *)
theory Py_Prelude
  imports Complex_Main "HOL-Library.Word" "HOL-Library.List_Lexorder" "HOL-Library.Product_Lexorder"
begin

text \<open>
  Shared vocabulary of the development: Python strings (lists of code points), byte strings,
  exceptions as values, the result type with its sequencing operator, and insertion-ordered
  dictionaries (association lists whose keys are distinct).
\<close>

named_theorems res_simps "equations of the result type"
named_theorems dict_simps "equations of insertion-ordered dictionaries"
named_theorems py_eval "definitions unfolded when a closed term is evaluated"

section \<open>Strings and byte strings\<close>

text \<open>
  A Python \<open>str\<close> is a sequence of code points. The order on lists is the
  lexicographic one, which is Python's order on \<open>str\<close>.
\<close>

type_synonym pystr = "nat list"
type_synonym byte = "8 word"
type_synonym bytes = "byte list"

definition lit :: "string \<Rightarrow> pystr" where
  "lit s = map of_char s"

lemma lit_inject [simp]: "lit a = lit b \<longleftrightarrow> a = b"
  unfolding lit_def by (rule inj_map_eq_map) (simp add: inj_def)

lemma lit_Nil [simp]: "lit [] = []"
  by (simp add: lit_def)

lemma lit_eq_Nil [simp]: "lit s = [] \<longleftrightarrow> s = []" "[] = lit s \<longleftrightarrow> s = []"
  by (auto simp: lit_def)

lemma length_lit [simp]: "length (lit s) = length s"
  by (simp add: lit_def)

text \<open>\<open>needle in haystack\<close> for strings.\<close>

fun is_prefix :: "'a list \<Rightarrow> 'a list \<Rightarrow> bool" where
  "is_prefix [] ys = True"
| "is_prefix (x # xs) [] = False"
| "is_prefix (x # xs) (y # ys) = (x = y \<and> is_prefix xs ys)"

fun py_in :: "pystr \<Rightarrow> pystr \<Rightarrow> bool" where
  "py_in n [] = (n = [])"
| "py_in n (c # h) = (is_prefix n (c # h) \<or> py_in n h)"

lemma is_prefix_append [simp]: "is_prefix xs (xs @ ys)"
  by (induction xs) auto

lemma is_prefixE: "is_prefix xs zs \<Longrightarrow> \<exists>ys. zs = xs @ ys"
  by (induction xs zs rule: is_prefix.induct) auto

lemma is_prefix_imp_in: "is_prefix n h \<Longrightarrow> py_in n h"
  by (cases h) (cases n; auto)+

lemma py_in_iff: "py_in n h \<longleftrightarrow> (\<exists>p s. h = p @ n @ s)"
proof
  show "py_in n h \<Longrightarrow> \<exists>p s. h = p @ n @ s"
  proof (induction h)
    case Nil
    then show ?case by simp
  next
    case (Cons c h)
    show ?case
    proof (cases "is_prefix n (c # h)")
      case True
      then show ?thesis by (metis append_Nil is_prefixE)
    next
      case False
      with Cons obtain p s where "h = p @ n @ s" by auto
      then have "c # h = (c # p) @ n @ s" by simp
      then show ?thesis by blast
    qed
  qed
next
  assume "\<exists>p s. h = p @ n @ s"
  then obtain p s where "h = p @ n @ s" by blast
  moreover have "py_in n (p @ n @ s)"
    by (induction p) (auto intro: is_prefix_imp_in)
  ultimately show "py_in n h" by simp
qed

text \<open>The decimal text of an integer, as \<open>str(n)\<close> prints it.\<close>

fun dec_nat :: "int \<Rightarrow> pystr" where
  "dec_nat n = (if n < 10 then [48 + nat n] else dec_nat (n div 10) @ [48 + nat (n mod 10)])"

declare dec_nat.simps [simp del]

definition dec_int :: "int \<Rightarrow> pystr" where
  "dec_int i = (if i < 0 then 45 # dec_nat (- i) else dec_nat i)"

lemma dec_nat_nonempty [simp]: "dec_nat n \<noteq> []"
  by (subst dec_nat.simps) simp

lemma dec_nat_digits: "c \<in> set (dec_nat n) \<Longrightarrow> 48 \<le> c \<and> c \<le> 57"
proof (induction n rule: dec_nat.induct)
  case (1 n)
  show ?case
  proof (cases "n < 10")
    case True
    with "1.prems" show ?thesis by (subst (asm) dec_nat.simps) auto
  next
    case False
    with "1.prems" have "c \<in> set (dec_nat (n div 10)) \<or> c = 48 + nat (n mod 10)"
      by (subst (asm) dec_nat.simps) auto
    moreover have "nat (n mod 10) < 10" by simp
    ultimately show ?thesis using False "1.IH" by fastforce
  qed
qed

section \<open>Exceptions and results\<close>

text \<open>
  An exception is its class and its message. A message is kept as the parts of the source's
  f-string: literal text, an interpolated \<open>str\<close>, an interpolated integer, or an
  interpolated value whose rendering is left to \<open>repr\<close>/\<open>str\<close> of a container
  (\<open>Q\<close>, with the strings it shows).
\<close>

datatype exn_kind =
    ValueError | TypeError | KeyError | IndexError | AttributeError | OverflowError
  | AssertionError | RuntimeError | StructError | UnicodeEncodeError | UnicodeDecodeError
  | JSONDecodeError | ProvenanceValidationError | URLError | KeyboardInterrupt
  | OtherException pystr

datatype frag = T string | S pystr | I int | Q "pystr list"

datatype exn = Exn (ekind: exn_kind) (emsg: "frag list")

type_synonym 'a res = "exn + 'a"

abbreviation ok :: "'a \<Rightarrow> 'a res" where "ok \<equiv> Inr"

definition raise :: "exn_kind \<Rightarrow> frag list \<Rightarrow> 'a res" where
  "raise k m = Inl (Exn k m)"

text \<open>\<open>str(exc)\<close>: the parts in order; \<open>rep\<close> renders the container parts.\<close>

fun frag_str :: "(pystr list \<Rightarrow> pystr) \<Rightarrow> frag \<Rightarrow> pystr" where
  "frag_str rep (T s) = lit s"
| "frag_str rep (S s) = s"
| "frag_str rep (I i) = dec_int i"
| "frag_str rep (Q xs) = rep xs"

definition exn_str :: "(pystr list \<Rightarrow> pystr) \<Rightarrow> exn \<Rightarrow> pystr" where
  "exn_str rep e = concat (map (frag_str rep) (emsg e))"

text \<open>\<open>except Exception\<close> catches every class but those outside the hierarchy.\<close>

definition is_Exception :: "exn \<Rightarrow> bool" where
  "is_Exception e \<longleftrightarrow> ekind e \<noteq> KeyboardInterrupt"

fun bindE :: "'a res \<Rightarrow> ('a \<Rightarrow> 'b res) \<Rightarrow> 'b res" where
  "bindE (Inl e) f = Inl e"
| "bindE (Inr x) f = f x"

definition guardE :: "bool \<Rightarrow> exn_kind \<Rightarrow> frag list \<Rightarrow> unit res" where
  "guardE b k m = (if b then Inr () else raise k m)"

fun mapE :: "('a \<Rightarrow> 'b res) \<Rightarrow> 'a list \<Rightarrow> 'b list res" where
  "mapE f [] = Inr []"
| "mapE f (x # xs) = bindE (f x) (\<lambda>y. bindE (mapE f xs) (\<lambda>ys. Inr (y # ys)))"

lemma bindE_ok [res_simps]: "bindE x f = Inr b \<longleftrightarrow> (\<exists>a. x = Inr a \<and> f a = Inr b)"
  by (cases x) auto

lemma bindE_err [res_simps]:
  "bindE x f = Inl e \<longleftrightarrow> x = Inl e \<or> (\<exists>a. x = Inr a \<and> f a = Inl e)"
  by (cases x) auto

lemma bindE_assoc: "bindE (bindE x f) g = bindE x (\<lambda>a. bindE (f a) g)"
  by (cases x) auto

lemma bindE_Inr [simp]: "bindE x Inr = x"
  by (cases x) auto

lemma guardE_ok [res_simps]: "guardE b k m = Inr u \<longleftrightarrow> b"
  by (simp add: guardE_def raise_def)

lemma guardE_err [res_simps]: "guardE b k m = Inl e \<longleftrightarrow> \<not> b \<and> e = Exn k m"
  by (auto simp: guardE_def raise_def)

lemma guardE_True [simp]: "guardE True k m = Inr ()"
  by (simp add: guardE_def)

lemma guardE_False [simp]: "guardE False k m = Inl (Exn k m)"
  by (simp add: guardE_def raise_def)

lemma raise_ok [res_simps]: "raise k m = Inr x \<longleftrightarrow> False" "raise k m = Inl e \<longleftrightarrow> e = Exn k m"
  by (auto simp: raise_def)

lemma bindE_raise [simp]: "bindE (raise k m) f = raise k m"
  by (simp add: raise_def)

lemma mapE_total: "(\<And>x. x \<in> set xs \<Longrightarrow> f x = Inr (g x)) \<Longrightarrow> mapE f xs = Inr (map g xs)"
  by (induction xs) auto

lemma mapE_Inr [simp]: "mapE (\<lambda>x. Inr (g x)) xs = Inr (map g xs)"
  by (rule mapE_total) simp

lemma mapE_length: "mapE f xs = Inr ys \<Longrightarrow> length ys = length xs"
  by (induction xs arbitrary: ys) (auto simp: res_simps)

lemma mapE_Inr_iff: "mapE f xs = Inr ys \<longleftrightarrow> list_all2 (\<lambda>x y. f x = Inr y) xs ys"
  by (induction xs arbitrary: ys) (auto simp: res_simps list_all2_Cons1)

section \<open>Insertion-ordered dictionaries\<close>

type_synonym 'v dict = "(pystr \<times> 'v) list"

abbreviation dict_keys :: "('k \<times> 'v) list \<Rightarrow> 'k list" where
  "dict_keys d \<equiv> map fst d"

text \<open>\<open>d[k] = v\<close>: an existing key keeps its place, a new key goes last.\<close>

fun dict_set :: "'k \<Rightarrow> 'v \<Rightarrow> ('k \<times> 'v) list \<Rightarrow> ('k \<times> 'v) list" where
  "dict_set k v [] = [(k, v)]"
| "dict_set k v ((k', v') # d) = (if k = k' then (k, v) # d else (k', v') # dict_set k v d)"

text \<open>\<open>d[k]\<close>, with KeyError; and a comprehension, which stores its pairs in order.\<close>

definition dict_at :: "pystr \<Rightarrow> 'v dict \<Rightarrow> 'v res" where
  "dict_at k d = (case map_of d k of None \<Rightarrow> raise KeyError [Q [k]] | Some v \<Rightarrow> Inr v)"

definition dict_of :: "('k \<times> 'v) list \<Rightarrow> ('k \<times> 'v) list" where
  "dict_of kvs = fold (\<lambda>(k, v) d. dict_set k v d) kvs []"

lemma map_of_dict_set [dict_simps]: "map_of (dict_set k v d) = (map_of d)(k \<mapsto> v)"
  by (induction d) (auto simp: fun_eq_iff)

lemma keys_dict_set [simp]: "fst ` set (dict_set k v d) = insert k (fst ` set d)"
proof (induction d)
  case (Cons p d)
  then show ?case by (cases p) (auto split: if_splits)
qed simp

lemma distinct_dict_set [intro]:
  "distinct (dict_keys d) \<Longrightarrow> distinct (dict_keys (dict_set k v d))"
proof (induction d)
  case (Cons p d)
  then show ?case by (cases p) auto
qed simp

lemma dict_set_new [dict_simps]: "k \<notin> set (dict_keys d) \<Longrightarrow> dict_set k v d = d @ [(k, v)]"
  by (induction d) auto

lemma distinct_fold_dict_set:
  "distinct (dict_keys d) \<Longrightarrow> distinct (dict_keys (fold (\<lambda>(k, v) d. dict_set k v d) kvs d))"
  by (induction kvs arbitrary: d) auto

lemma distinct_dict_of [intro]: "distinct (dict_keys (dict_of kvs))"
  unfolding dict_of_def by (rule distinct_fold_dict_set) simp

lemma fold_dict_set_distinct:
  "distinct (dict_keys (d @ kvs)) \<Longrightarrow> fold (\<lambda>(k, v) d. dict_set k v d) kvs d = d @ kvs"
proof (induction kvs arbitrary: d)
  case (Cons p kvs)
  obtain k v where p: "p = (k, v)" by (cases p)
  from Cons.prems p have "k \<notin> set (dict_keys d)" by auto
  then have "dict_set k v d = d @ [(k, v)]" by (rule dict_set_new)
  with Cons p show ?case by simp
qed simp

lemma dict_of_distinct: "distinct (dict_keys kvs) \<Longrightarrow> dict_of kvs = kvs"
  unfolding dict_of_def using fold_dict_set_distinct[of "[]" kvs] by simp

lemma keys_dict_of [simp]: "fst ` set (dict_of kvs) = fst ` set kvs"
proof -
  have "fst ` set (fold (\<lambda>(k, v) d. dict_set k v d) kvs d) = fst ` set d \<union> fst ` set kvs"
    for d :: "('a \<times> 'b) list"
    by (induction kvs arbitrary: d) (simp_all add: split_beta)
  from this[of "[]"] show ?thesis by (simp add: dict_of_def)
qed

lemma dict_at_ok [res_simps]: "dict_at k d = Inr v \<longleftrightarrow> map_of d k = Some v"
  by (auto simp: dict_at_def raise_def split: option.splits)

end
