(* ===== verification/Py_Float.thy ===== *)
theory Py_Float
  imports Py_Prelude
begin

text \<open>
  Python's \<open>float\<close>: IEEE 754 binary64 with round-half-even, executable on rationals.
  A finite double is its rational value (the two zeros are one value: no operation of the
  modelled code tells them apart), the infinities and NaN are constructors of their own.
  The rounding function \<open>rnd\<close> is shown to be monotone, odd, exact on the representable
  numbers and within a factor of two of its argument; the locale \<open>rounding\<close> states this
  interface and derives what the arithmetic of the other theories uses.
\<close>

section \<open>Powers of two and the binary logarithm\<close>

definition pow2 :: "int \<Rightarrow> rat" where
  "pow2 e = (if 0 \<le> e then 2 ^ nat e else 1 / 2 ^ nat (- e))"

lemma pow2_powi: "pow2 e = 2 powi e"
  unfolding pow2_def power_int_def by (simp add: power_one_over inverse_eq_divide)

lemma pow2_pos [simp]: "0 < pow2 e"
  by (simp add: pow2_def)

lemma pow2_nonneg [simp]: "0 \<le> pow2 e" "pow2 e \<noteq> 0"
  using pow2_pos[of e] by linarith+

lemma pow2_add: "pow2 (a + b) = pow2 a * pow2 b"
  by (simp add: pow2_powi power_int_add)

lemma pow2_diff: "pow2 (a - b) = pow2 a / pow2 b"
  by (simp add: pow2_powi power_int_diff)

lemma pow2_less: "a < b \<Longrightarrow> pow2 a < pow2 b"
  unfolding pow2_powi by (rule power_int_strict_increasing) auto

lemma pow2_less_iff [simp]: "pow2 a < pow2 b \<longleftrightarrow> a < b"
  by (metis less_asym linorder_less_linear pow2_less)

lemma pow2_le_iff [simp]: "pow2 a \<le> pow2 b \<longleftrightarrow> a \<le> b"
  by (simp flip: not_less)

lemma pow2_Suc: "pow2 (e + 1) = 2 * pow2 e"
  by (simp add: pow2_add) (simp add: pow2_def)

lemma pow2_nat: "0 \<le> e \<Longrightarrow> pow2 e = of_int (2 ^ nat e)"
  by (simp add: pow2_def)

fun blen :: "int \<Rightarrow> nat" where
  "blen n = (if n \<le> 0 then 0 else Suc (blen (n div 2)))"

declare blen.simps [simp del]

lemma blen_bounds: "0 < n \<Longrightarrow> 2 ^ (blen n - 1) \<le> n \<and> n < 2 ^ blen n \<and> 0 < blen n"
proof (induction n rule: blen.induct)
  case (1 n)
  show ?case
  proof (cases "n div 2 = 0")
    case True
    with "1.prems" have "n = 1" by linarith
    then show ?thesis by (simp add: blen.simps[of 1] blen.simps[of 0])
  next
    case False
    with "1.prems" have pos: "0 < n div 2" by linarith
    with 1 have IH: "2 ^ (blen (n div 2) - 1) \<le> n div 2" "n div 2 < 2 ^ blen (n div 2)"
      "0 < blen (n div 2)" by auto
    have b: "blen n = Suc (blen (n div 2))" using "1.prems" by (subst blen.simps) simp
    have "2 * 2 ^ (blen (n div 2) - 1) = (2::int) ^ blen (n div 2)"
      using IH(3) by (metis One_nat_def Suc_pred power_Suc)
    then have "2 ^ blen (n div 2) \<le> n" "n < 2 * 2 ^ blen (n div 2)" using IH by linarith+
    then show ?thesis by (simp add: b)
  qed
qed

text \<open>The floor of the binary logarithm of a positive rational.\<close>

definition flog2 :: "rat \<Rightarrow> int" where
  "flog2 x = (case quotient_of x of (p, q) \<Rightarrow>
     let k = int (blen p) - int (blen q)
     in if pow2 k \<le> x then k else k - 1)"

lemma flog2_bounds:
  assumes "0 < x"
  shows "pow2 (flog2 x) \<le> x" and "x < pow2 (flog2 x + 1)"
proof -
  obtain p q where pq: "quotient_of x = (p, q)" by (cases "quotient_of x")
  have q: "0 < q" using pq by (rule quotient_of_denom_pos)
  have x: "x = of_int p / of_int q" using pq by (rule quotient_of_div)
  with assms q have p: "0 < p" by (simp add: zero_less_divide_iff)
  let ?a = "blen p" and ?b = "blen q"
  have a: "2 ^ (?a - 1) \<le> p" "p < 2 ^ ?a" "0 < ?a"
    using blen_bounds[of p] p by simp_all
  have b: "2 ^ (?b - 1) \<le> q" "q < 2 ^ ?b" "0 < ?b"
    using blen_bounds[of q] q by simp_all
  have pa: "pow2 (int ?a - 1) \<le> of_int p" "of_int p < pow2 (int ?a)"
  proof -
    have "rat_of_int (2 ^ (?a - 1)) \<le> of_int p" "of_int p < rat_of_int (2 ^ ?a)"
      using a by (simp_all only: of_int_le_iff of_int_less_iff)
    then show "pow2 (int ?a - 1) \<le> of_int p" "of_int p < pow2 (int ?a)"
      using a(3) by (simp_all add: pow2_def nat_diff_distrib)
  qed
  have qb: "pow2 (int ?b - 1) \<le> of_int q" "of_int q < pow2 (int ?b)"
  proof -
    have "rat_of_int (2 ^ (?b - 1)) \<le> of_int q" "of_int q < rat_of_int (2 ^ ?b)"
      using b by (simp_all only: of_int_le_iff of_int_less_iff)
    then show "pow2 (int ?b - 1) \<le> of_int q" "of_int q < pow2 (int ?b)"
      using b(3) by (simp_all add: pow2_def nat_diff_distrib)
  qed
  let ?k = "int ?a - int ?b"
  have qpos: "0 < rat_of_int q" using q by simp
  have up: "x < pow2 (?k + 1)"
  proof -
    have "of_int p < pow2 (int ?a)" by (rule pa)
    also have "pow2 (int ?a) = pow2 (?k + 1) * pow2 (int ?b - 1)"
      by (simp flip: pow2_add)
    also have "\<dots> \<le> pow2 (?k + 1) * of_int q" using qb by simp
    finally show ?thesis using qpos by (simp add: x divide_less_eq)
  qed
  have low: "pow2 (?k - 1) \<le> x"
  proof -
    have "pow2 (?k - 1) * of_int q \<le> pow2 (?k - 1) * pow2 (int ?b)" using qb by simp
    also have "\<dots> = pow2 (int ?a - 1)" by (simp flip: pow2_add)
    also have "\<dots> \<le> of_int p" by (rule pa)
    finally show ?thesis using qpos by (simp add: x le_divide_eq)
  qed
  have "pow2 (flog2 x) \<le> x \<and> x < pow2 (flog2 x + 1)"
    using low up by (auto simp: flog2_def pq Let_def)
  then show "pow2 (flog2 x) \<le> x" "x < pow2 (flog2 x + 1)" by auto
qed

lemma flog2_ge: "0 < x \<Longrightarrow> pow2 k \<le> x \<Longrightarrow> k \<le> flog2 x"
proof -
  assume "0 < x" "pow2 k \<le> x"
  then have "pow2 k < pow2 (flog2 x + 1)" using flog2_bounds(2)[of x] by linarith
  then show ?thesis by simp
qed

lemma flog2_less: "0 < x \<Longrightarrow> x < pow2 k \<Longrightarrow> flog2 x < k"
proof -
  assume "0 < x" "x < pow2 k"
  then have "pow2 (flog2 x) < pow2 k" using flog2_bounds(1)[of x] by linarith
  then show ?thesis by simp
qed

lemma flog2_mono: "0 < x \<Longrightarrow> x \<le> y \<Longrightarrow> flog2 x \<le> flog2 y"
  using flog2_bounds(1)[of x] by (intro flog2_ge) auto

section \<open>Rounding\<close>

text \<open>Round to the nearest integer, ties to the even one; also Python's \<open>round\<close>.\<close>

definition rhe :: "rat \<Rightarrow> int" where
  "rhe y = (let f = \<lfloor>y\<rfloor>; d = y - of_int f in
     if d < 1/2 then f else if 1/2 < d then f + 1 else if even f then f else f + 1)"

lemma rhe_of_int [simp]: "rhe (of_int n) = n"
  by (simp add: rhe_def Let_def)

lemma rhe_floor_or_Suc: "rhe y = \<lfloor>y\<rfloor> \<or> rhe y = \<lfloor>y\<rfloor> + 1"
  by (auto simp: rhe_def Let_def)

lemma rhe_near: "\<bar>of_int (rhe y) - y\<bar> \<le> 1/2"
  using floor_correct[of y] by (auto simp: rhe_def Let_def)

lemma rhe_mono: "x \<le> y \<Longrightarrow> rhe x \<le> rhe y"
proof -
  assume xy: "x \<le> y"
  show ?thesis
  proof (cases "\<lfloor>x\<rfloor> = \<lfloor>y\<rfloor>")
    case True
    with xy show ?thesis by (auto simp: rhe_def Let_def)
  next
    case False
    with xy have "\<lfloor>x\<rfloor> + 1 \<le> \<lfloor>y\<rfloor>" using floor_mono[OF xy] by linarith
    with rhe_floor_or_Suc[of x] rhe_floor_or_Suc[of y] show ?thesis by linarith
  qed
qed

lemma rhe_minus: "rhe (- y) = - rhe y"
proof (cases "of_int \<lfloor>y\<rfloor> = y")
  case True
  then show ?thesis by (metis of_int_minus rhe_of_int)
next
  case False
  then have "\<lfloor>- y\<rfloor> = - \<lfloor>y\<rfloor> - 1"
    using floor_correct[of y] by (intro floor_unique) (auto simp: less_le)
  then show ?thesis by (auto simp: rhe_def Let_def)
qed

text \<open>
  \<open>rnd x\<close> rounds to 53 significant bits, with the exponent bounded below by the subnormal
  range and unbounded above: the value before the overflow test.
\<close>

definition rexp :: "rat \<Rightarrow> int" where
  "rexp x = max (flog2 \<bar>x\<bar> - 52) (- 1074)"

definition rnd :: "rat \<Rightarrow> rat" where
  "rnd x = (if x = 0 then 0 else of_int (rhe (x / pow2 (rexp x))) * pow2 (rexp x))"

text \<open>The representable numbers, overflow aside.\<close>

definition representable :: "rat \<Rightarrow> bool" where
  "representable x \<longleftrightarrow> (\<exists>m k. x = of_int m * pow2 k \<and> \<bar>m\<bar> \<le> 2 ^ 53 \<and> - 1074 \<le> k)"

lemma rnd_0 [simp]: "rnd 0 = 0"
  by (simp add: rnd_def)

lemma rnd_minus: "rnd (- x) = - rnd x"
  by (simp add: rnd_def rexp_def rhe_minus)

lemma rexp_mono: "0 < x \<Longrightarrow> x \<le> y \<Longrightarrow> rexp x \<le> rexp y"
  using flog2_mono[of x y] by (auto simp: rexp_def)

lemma rnd_mono_pos:
  assumes x: "0 < x" and xy: "x \<le> y"
  shows "rnd x \<le> rnd y"
proof (cases "rexp x = rexp y")
  case True
  have "rhe (x / pow2 (rexp x)) \<le> rhe (y / pow2 (rexp x))"
    by (rule rhe_mono) (simp add: divide_right_mono xy)
  with x xy show ?thesis by (simp add: rnd_def True[symmetric])
next
  case False
  with x xy rexp_mono[of x y] have lt: "rexp x < rexp y" by simp
  then have ey: "rexp y = flog2 y - 52" using x xy by (auto simp: rexp_def)
  have lxy: "flog2 x < flog2 y" using lt x xy by (auto simp: rexp_def split: if_splits)
  let ?B = "pow2 (flog2 y)"
  have yB: "?B \<le> y" using flog2_bounds(1)[of y] x xy by simp
  have xB: "x \<le> ?B"
  proof -
    have "pow2 (flog2 x + 1) \<le> ?B" using lxy by simp
    then show ?thesis using flog2_bounds(2)[OF x] by linarith
  qed
  have "?B / pow2 (rexp y) = of_int (2 ^ 52)"
    by (simp add: ey flip: pow2_diff) (simp add: pow2_def)
  then have "rhe (of_int (2 ^ 52)) \<le> rhe (y / pow2 (rexp y))"
    using yB by (intro rhe_mono) (metis divide_right_mono pow2_nonneg(1))
  then have "(2 ^ 52 :: int) \<le> rhe (y / pow2 (rexp y))" by (simp only: rhe_of_int)
  then have "rat_of_int (2 ^ 52) \<le> of_int (rhe (y / pow2 (rexp y)))"
    by (simp only: of_int_le_iff)
  then have "rat_of_int (2 ^ 52) * pow2 (rexp y) \<le> rnd y"
    using x xy by (auto simp: rnd_def intro: mult_right_mono)
  moreover have "rat_of_int (2 ^ 52) * pow2 (rexp y) = ?B"
    using \<open>?B / pow2 (rexp y) = of_int (2 ^ 52)\<close> by (simp add: field_simps)
  ultimately have "?B \<le> rnd y" by simp
  moreover have "rnd x \<le> ?B"
  proof -
    have n: "?B / pow2 (rexp x) = of_int (2 ^ nat (flog2 y - rexp x))"
      using lt ey by (simp flip: pow2_diff) (simp add: pow2_def)
    have "rhe (x / pow2 (rexp x)) \<le> rhe (?B / pow2 (rexp x))"
      using xB by (intro rhe_mono) (simp add: divide_right_mono)
    then have "rat_of_int (rhe (x / pow2 (rexp x))) \<le> ?B / pow2 (rexp x)"
      by (simp only: n rhe_of_int of_int_le_iff)
    then show ?thesis using x by (simp add: rnd_def le_divide_eq)
  qed
  ultimately show ?thesis by simp
qed

lemma rnd_nonneg: "0 \<le> x \<Longrightarrow> 0 \<le> rnd x"
proof -
  assume "0 \<le> x"
  then have "rhe (of_int 0) \<le> rhe (x / pow2 (rexp x))" by (intro rhe_mono) simp
  then have "0 \<le> rhe (x / pow2 (rexp x))" by (simp only: rhe_of_int)
  then show ?thesis by (simp add: rnd_def)
qed

lemma rnd_mono: "x \<le> y \<Longrightarrow> rnd x \<le> rnd y"
proof -
  assume xy: "x \<le> y"
  consider "0 < x" | "x \<le> 0" "0 \<le> y" | "y < 0" using xy by linarith
  then show ?thesis
  proof cases
    case 1
    with xy show ?thesis by (simp add: rnd_mono_pos)
  next
    case 2
    then have "0 \<le> rnd (- x)" "0 \<le> rnd y" by (auto intro: rnd_nonneg)
    then show ?thesis by (simp add: rnd_minus)
  next
    case 3
    with xy have "rnd (- y) \<le> rnd (- x)" by (intro rnd_mono_pos) auto
    then show ?thesis by (simp add: rnd_minus)
  qed
qed

lemma rnd_exact_pos:
  assumes x: "x = of_int m * pow2 k" and m: "0 < m" "m \<le> 2 ^ 53" and k: "- 1074 \<le> k"
  shows "rnd x = x"
proof -
  have pos: "0 < x" using m by (simp add: x)
  have "rat_of_int m \<le> of_int (2 ^ 53)" using m by (simp only: of_int_le_iff)
  then have "x \<le> pow2 53 * pow2 k"
    unfolding x by (intro mult_right_mono) (simp_all add: pow2_def)
  then have le: "x \<le> pow2 (k + 53)" by (simp add: pow2_add mult.commute)
  have "\<exists>n. x / pow2 (rexp x) = of_int n"
  proof (cases "x = pow2 (k + 53)")
    case True
    then have "flog2 x = k + 53"
      using flog2_ge[OF pos, of "k + 53"] flog2_less[OF pos, of "k + 54"] by simp
    then have "rexp x \<le> k + 53" using pos k by (simp add: rexp_def)
    then have "x / pow2 (rexp x) = of_int (2 ^ nat (k + 53 - rexp x))"
      by (simp add: True flip: pow2_diff) (simp add: pow2_def)
    then show ?thesis by blast
  next
    case False
    with le have "flog2 x < k + 53" by (intro flog2_less[OF pos]) simp
    then have e: "rexp x \<le> k" using pos k by (simp add: rexp_def)
    have "x / pow2 (rexp x) = of_int m * pow2 (k - rexp x)" by (simp add: x pow2_diff)
    also have "\<dots> = of_int (m * 2 ^ nat (k - rexp x))" using e by (simp add: pow2_def)
    finally show ?thesis by blast
  qed
  then obtain n where n: "x / pow2 (rexp x) = of_int n" by blast
  then have "rnd x = of_int n * pow2 (rexp x)" using pos by (simp add: rnd_def)
  also have "\<dots> = x" using n by (simp add: field_simps)
  finally show ?thesis .
qed

lemma rnd_exact: "representable x \<Longrightarrow> rnd x = x"
proof -
  assume "representable x"
  then obtain m k where x: "x = of_int m * pow2 k" and m: "\<bar>m\<bar> \<le> 2 ^ 53" and k: "- 1074 \<le> k"
    by (auto simp: representable_def)
  consider "m = 0" | "0 < m" | "m < 0" by linarith
  then show ?thesis
  proof cases
    case 1
    then show ?thesis by (simp add: x)
  next
    case 2
    with x m k show ?thesis by (intro rnd_exact_pos) auto
  next
    case 3
    with x m k have "rnd (- x) = - x" by (intro rnd_exact_pos[of _ "- m" k]) auto
    then show ?thesis by (simp add: rnd_minus)
  qed
qed


lemma representableI: "x = of_int m * pow2 k \<Longrightarrow> \<bar>m\<bar> \<le> 2 ^ 53 \<Longrightarrow> - 1074 \<le> k \<Longrightarrow> representable x"
  unfolding representable_def by blast

lemma representable_0 [simp]: "representable 0"
  by (rule representableI[of 0 0 0]) auto

lemma representable_minus [simp]: "representable (- x) \<longleftrightarrow> representable x"
proof -
  have "representable y \<Longrightarrow> representable (- y)" for y
    unfolding representable_def by (metis abs_minus mult_minus_left of_int_minus)
  from this[of x] this[of "- x"] show ?thesis by auto
qed

lemma representable_int: "\<bar>m\<bar> \<le> 2 ^ 53 \<Longrightarrow> representable (of_int m)"
  by (rule representableI[of _ m 0]) (simp_all add: pow2_def)

lemma representable_scale: "\<bar>m\<bar> \<le> 2 ^ 53 \<Longrightarrow> j \<le> 1074 \<Longrightarrow> representable (of_int m / 2 ^ j)"
  by (rule representableI[of _ m "- int j"]) (auto simp: pow2_def)

lemma representable_pow2: "- 1074 \<le> k \<Longrightarrow> representable (pow2 k)"
  by (rule representableI[of _ 1 k]) auto

lemma representable_double: "representable x \<Longrightarrow> representable (2 * x)"
proof -
  assume "representable x"
  then obtain m k where "x = of_int m * pow2 k" "\<bar>m\<bar> \<le> 2 ^ 53" "- 1074 \<le> k"
    by (auto simp: representable_def)
  then show ?thesis by (intro representableI[of _ m "k + 1"]) (auto simp: pow2_Suc)
qed

lemma representable_rnd [simp]: "representable (rnd x)"
proof -
  have pos: "representable (rnd x)" if x: "0 < x" for x
  proof -
    let ?z = "x / pow2 (rexp x)"
    have e: "flog2 x + 1 \<le> rexp x + 53" "- 1074 \<le> rexp x" using x by (auto simp: rexp_def)
    have "x < pow2 (flog2 x + 1)" by (rule flog2_bounds(2)[OF x])
    also have "\<dots> \<le> pow2 (rexp x + 53)" using e by simp
    also have "\<dots> = of_int (2 ^ 53) * pow2 (rexp x)" by (simp add: pow2_add) (simp add: pow2_def)
    finally have "?z \<le> of_int (2 ^ 53)" by (simp add: divide_le_eq)
    then have "rhe ?z \<le> rhe (of_int (2 ^ 53))" by (rule rhe_mono)
    then have up: "rhe ?z \<le> 2 ^ 53" by (simp only: rhe_of_int)
    have "rhe (of_int 0) \<le> rhe ?z" using x by (intro rhe_mono) simp
    then have "0 \<le> rhe ?z" by (simp only: rhe_of_int)
    with up e x show ?thesis
      by (intro representableI[of _ "rhe ?z" "rexp x"]) (auto simp: rnd_def)
  qed
  consider "0 < x" | "x = 0" | "x < 0" by linarith
  then show ?thesis
  proof cases
    case 3
    then have "representable (rnd (- x))" by (intro pos) simp
    then show ?thesis by (simp add: rnd_minus)
  qed (auto intro: pos)
qed

section \<open>The rounding interface\<close>

text \<open>
  What arithmetic needs of a rounding function: it is monotone and odd, its results are
  representable and representable numbers are its fixed points.
\<close>

locale rounding =
  fixes rd :: "rat \<Rightarrow> rat" and rep :: "rat \<Rightarrow> bool"
  assumes mono: "x \<le> y \<Longrightarrow> rd x \<le> rd y"
    and odd: "rd (- x) = - rd x"
    and range: "rep (rd x)"
    and exact: "rep x \<Longrightarrow> rd x = x"
begin

lemma idem: "rd (rd x) = rd x"
  by (rule exact) (rule range)

lemma zero: "rd 0 = 0"
  using odd[of 0] by simp

lemma nonneg: "0 \<le> x \<Longrightarrow> 0 \<le> rd x"
  using mono[of 0 x] by (simp add: zero)

lemma le_rep: "x \<le> y \<Longrightarrow> rep y \<Longrightarrow> rd x \<le> y"
  using mono[of x y] exact[of y] by simp

lemma ge_rep: "y \<le> x \<Longrightarrow> rep y \<Longrightarrow> y \<le> rd x"
  using mono[of y x] exact[of y] by simp

lemma abs_rd: "\<bar>rd x\<bar> = rd \<bar>x\<bar>"
  using nonneg[of x] nonneg[of "- x"] by (auto simp: abs_if odd)

lemma between: "rep a \<Longrightarrow> rep b \<Longrightarrow> a \<le> x \<Longrightarrow> x \<le> b \<Longrightarrow> a \<le> rd x \<and> rd x \<le> b"
  by (simp add: le_rep ge_rep)

end

interpretation dbl: rounding rnd representable
  by unfold_locales (auto simp: rnd_mono rnd_minus rnd_exact)

lemma rhe_le_double: "0 \<le> z \<Longrightarrow> of_int (rhe z) \<le> 2 * z"
proof (cases "z < 1")
  case True
  moreover assume "0 \<le> z"
  ultimately have "\<lfloor>z\<rfloor> = 0" by (simp add: floor_eq_iff)
  with \<open>0 \<le> z\<close> show ?thesis by (auto simp: rhe_def Let_def)
next
  case False
  then show ?thesis using rhe_near[of z] by linarith
qed

lemma rnd_le_double: "0 \<le> x \<Longrightarrow> rnd x \<le> 2 * x"
proof -
  assume x: "0 \<le> x"
  then have "of_int (rhe (x / pow2 (rexp x))) \<le> 2 * (x / pow2 (rexp x))"
    by (intro rhe_le_double) simp
  then show ?thesis using x by (simp add: rnd_def field_simps)
qed

lemma rnd_ge_half: "1 \<le> x \<Longrightarrow> x \<le> 2 * rnd x"
proof -
  assume x: "1 \<le> x"
  then have "0 \<le> flog2 x" by (intro flog2_ge) (auto simp: pow2_def)
  then have "pow2 (flog2 x) \<le> rnd x"
    using x flog2_bounds(1)[of x] by (intro dbl.ge_rep representable_pow2) auto
  moreover have "x < 2 * pow2 (flog2 x)" using x flog2_bounds(2)[of x] by (simp add: pow2_Suc)
  ultimately show ?thesis by linarith
qed

section \<open>Doubles\<close>

datatype pyfloat = Fin rat | PInf | NInf | NaN

definition f_max_bound :: rat where
  "f_max_bound = 2 ^ 1024"

text \<open>A real result becomes a double: rounded, then infinite from \<open>2 ^ 1024\<close> on.\<close>

definition fl :: "rat \<Rightarrow> pyfloat" where
  "fl x = (let r = rnd x in
     if f_max_bound \<le> r then PInf else if r \<le> - f_max_bound then NInf else Fin r)"

definition is_double :: "pyfloat \<Rightarrow> bool" where
  "is_double f = (case f of Fin q \<Rightarrow> fl q = Fin q | _ \<Rightarrow> True)"

fun f_neg :: "pyfloat \<Rightarrow> pyfloat" where
  "f_neg (Fin a) = Fin (- a)"
| "f_neg PInf = NInf"
| "f_neg NInf = PInf"
| "f_neg NaN = NaN"

fun f_abs :: "pyfloat \<Rightarrow> pyfloat" where
  "f_abs (Fin a) = Fin \<bar>a\<bar>"
| "f_abs NaN = NaN"
| "f_abs _ = PInf"

fun f_add :: "pyfloat \<Rightarrow> pyfloat \<Rightarrow> pyfloat" where
  "f_add (Fin a) (Fin b) = fl (a + b)"
| "f_add NaN _ = NaN"
| "f_add _ NaN = NaN"
| "f_add PInf NInf = NaN"
| "f_add NInf PInf = NaN"
| "f_add PInf _ = PInf"
| "f_add _ PInf = PInf"
| "f_add NInf _ = NInf"
| "f_add _ NInf = NInf"

definition f_sub :: "pyfloat \<Rightarrow> pyfloat \<Rightarrow> pyfloat" where
  "f_sub a b = f_add a (f_neg b)"

fun f_sgn :: "pyfloat \<Rightarrow> int" where
  "f_sgn (Fin a) = (if a < 0 then - 1 else if a = 0 then 0 else 1)"
| "f_sgn PInf = 1"
| "f_sgn NInf = - 1"
| "f_sgn NaN = 0"

definition f_inf :: "int \<Rightarrow> pyfloat" where
  "f_inf s = (if s = 0 then NaN else if 0 < s then PInf else NInf)"

fun f_mul :: "pyfloat \<Rightarrow> pyfloat \<Rightarrow> pyfloat" where
  "f_mul (Fin a) (Fin b) = fl (a * b)"
| "f_mul NaN _ = NaN"
| "f_mul _ NaN = NaN"
| "f_mul a b = f_inf (f_sgn a * f_sgn b)"

text \<open>Division by a nonzero finite double, the only one the code performs.\<close>

fun f_div_fin :: "pyfloat \<Rightarrow> rat \<Rightarrow> pyfloat" where
  "f_div_fin (Fin a) b = fl (a / b)"
| "f_div_fin NaN b = NaN"
| "f_div_fin a b = f_inf (f_sgn a * f_sgn (Fin b))"

text \<open>IEEE comparison: every comparison with NaN is false.\<close>

instantiation pyfloat :: ord
begin

fun less_eq_pyfloat :: "pyfloat \<Rightarrow> pyfloat \<Rightarrow> bool" where
  "less_eq_pyfloat NaN b = False"
| "less_eq_pyfloat a NaN = False"
| "less_eq_pyfloat NInf b = True"
| "less_eq_pyfloat a PInf = True"
| "less_eq_pyfloat (Fin a) (Fin b) = (a \<le> b)"
| "less_eq_pyfloat a b = False"

definition less_pyfloat :: "pyfloat \<Rightarrow> pyfloat \<Rightarrow> bool" where
  "less_pyfloat a b \<longleftrightarrow> a \<le> b \<and> \<not> b \<le> (a :: pyfloat)"

instance ..

end

lemma f_less_simps [simp]:
  "(Fin a < Fin b) = (a < b)" "NInf < PInf" "NInf < Fin b" "Fin a < PInf"
  "\<not> (NaN < x)" "\<not> (x < NaN)" "\<not> (PInf < x)" "\<not> (x < NInf)"
  by (auto simp: less_pyfloat_def) (cases x; simp)+

text \<open>\<open>a == b\<close> on floats.\<close>

definition f_eq :: "pyfloat \<Rightarrow> pyfloat \<Rightarrow> bool" where
  "f_eq a b \<longleftrightarrow> a \<le> b \<and> b \<le> a"

text \<open>Python's two-argument \<open>min\<close> and \<open>max\<close>: the first unless the second is beyond it.\<close>

definition f_min :: "pyfloat \<Rightarrow> pyfloat \<Rightarrow> pyfloat" where
  "f_min a b = (if b < a then b else a)"

definition f_max :: "pyfloat \<Rightarrow> pyfloat \<Rightarrow> pyfloat" where
  "f_max a b = (if a < b then b else a)"

text \<open>A sort key that orders floats as \<open><\<close> does where no NaN occurs.\<close>

fun f_key :: "pyfloat \<Rightarrow> int \<times> rat" where
  "f_key NInf = (- 1, 0)"
| "f_key (Fin q) = (0, q)"
| "f_key PInf = (1, 0)"
| "f_key NaN = (2, 0)"


subsection \<open>Facts about conversion to a double\<close>

lemma fl_exact: "representable x \<Longrightarrow> \<bar>x\<bar> < f_max_bound \<Longrightarrow> fl x = Fin x"
  by (auto simp: fl_def Let_def dbl.exact abs_less_iff)

lemma f_max_bound_pos [simp]: "0 < f_max_bound"
  by (simp add: f_max_bound_def)

lemma f_max_bound_ge: "2 ^ 64 \<le> f_max_bound"
  unfolding f_max_bound_def by (rule power_increasing) auto

lemma fl_0 [simp]: "fl 0 = Fin 0"
  by (rule fl_exact) auto

lemma fl_cases: "fl x = Fin (rnd x) \<or> fl x = PInf \<or> fl x = NInf"
  by (auto simp: fl_def Let_def)

lemma fl_not_NaN [simp]: "fl x \<noteq> NaN" "NaN \<noteq> fl x"
  using fl_cases[of x] by auto

lemma fl_Fin: "fl x = Fin y \<longleftrightarrow> y = rnd x \<and> \<bar>rnd x\<bar> < f_max_bound"
  by (auto simp: fl_def Let_def abs_less_iff split: if_splits)

lemma is_double_fl [simp]: "is_double (fl x)"
proof (cases "fl x")
  case (Fin q)
  then have "fl q = Fin q" by (auto simp: fl_Fin dbl.idem)
  with Fin show ?thesis by (simp add: is_double_def)
qed (auto simp: is_double_def)

lemma is_double_Fin: "is_double (Fin q) \<longleftrightarrow> representable q \<and> \<bar>q\<bar> < f_max_bound"
proof
  assume "is_double (Fin q)"
  then have "q = rnd q" "\<bar>q\<bar> < f_max_bound" by (auto simp: is_double_def fl_Fin)
  then show "representable q \<and> \<bar>q\<bar> < f_max_bound" using representable_rnd[of q] by simp
next
  assume "representable q \<and> \<bar>q\<bar> < f_max_bound"
  then show "is_double (Fin q)" by (simp add: is_double_def fl_exact)
qed

lemma fl_minus: "fl (- x) = f_neg (fl x)"
  by (auto simp: fl_def Let_def rnd_minus) (metis f_max_bound_pos add.inverse_inverse le_minus_iff
      linorder_not_le neg_le_0_iff_le order_less_le_trans not_less_iff_gr_or_eq)+

lemma fl_mono: "x \<le> y \<Longrightarrow> fl x \<le> fl y"
  using rnd_mono[of x y] f_max_bound_pos
  by (auto simp: fl_def Let_def)

lemma is_double_ops [simp]:
  "is_double a \<Longrightarrow> is_double (f_neg a)"
  "is_double (f_add (Fin p) (Fin q))" "is_double (f_mul (Fin p) (Fin q))"
proof -
  show "is_double a \<Longrightarrow> is_double (f_neg a)" by (cases a) (simp_all add: is_double_def fl_minus)
qed simp_all

lemma fl_exact_int: "\<bar>m\<bar> \<le> 2 ^ 53 \<Longrightarrow> fl (of_int m) = Fin (of_int m)"
proof (rule fl_exact)
  assume "\<bar>m\<bar> \<le> 2 ^ 53"
  then show "representable (of_int m)" by (rule representable_int)
  have "rat_of_int \<bar>m\<bar> \<le> of_int (2 ^ 53)" using \<open>\<bar>m\<bar> \<le> 2 ^ 53\<close> by (simp only: of_int_le_iff)
  then show "\<bar>rat_of_int m\<bar> < f_max_bound" using f_max_bound_ge by simp
qed

text \<open>Numbers with few fractional bits are exact: what makes quartiles of moderate values exact.\<close>

lemma fl_exact_scaled:
  assumes "x = of_int m / 2 ^ j" "\<bar>m\<bar> \<le> 2 ^ 53" "j \<le> 1074"
  shows "fl x = Fin x"
proof (rule fl_exact)
  show "representable x" unfolding assms(1) using assms(2,3) by (rule representable_scale)
  have "rat_of_int \<bar>m\<bar> \<le> of_int (2 ^ 53)" using assms by (simp only: of_int_le_iff)
  then have m: "\<bar>rat_of_int m\<bar> \<le> 2 ^ 53" by simp
  have "\<bar>x\<bar> \<le> \<bar>rat_of_int m\<bar>" using mult_left_mono[of 1 "2 ^ j :: rat" "\<bar>rat_of_int m\<bar>"]
    by (simp add: assms(1) divide_le_eq)
  then show "\<bar>x\<bar> < f_max_bound" using m f_max_bound_ge by simp
qed

text \<open>The first integer that is not a double, a tie.\<close>

lemma fl_2p53_1: "fl 9007199254740993 = Fin 9007199254740992"
proof -
  have l: "flog2 9007199254740993 = 53"
  proof (rule antisym)
    show "flog2 9007199254740993 \<le> 53" using flog2_less[of 9007199254740993 54] by (simp add: pow2_def)
    show "53 \<le> flog2 9007199254740993" by (rule flog2_ge) (simp_all add: pow2_def)
  qed
  have f: "\<lfloor>9007199254740993 / 2 :: rat\<rfloor> = 4503599627370496" by (simp add: floor_eq_iff)
  have r: "rhe (9007199254740993 / 2) = 4503599627370496"
    by (simp add: rhe_def f Let_def)
  have e: "rexp 9007199254740993 = 1" by (simp add: rexp_def l)
  have p: "pow2 1 = 2" by (simp add: pow2_def)
  have "rnd 9007199254740993 = 9007199254740992"
    by (simp add: rnd_def e p r)
  moreover have "9007199254740992 < f_max_bound" using f_max_bound_ge by simp
  ultimately show ?thesis by (simp add: fl_Fin)
qed

end
