(* ===== verification/Py_Bytes.thy ===== *)
theory Py_Bytes
  imports Py_Prelude
begin

text \<open>
  Byte strings: hexadecimal text, big-endian signed integers (\<open>int.to_bytes\<close>,
  \<open>int.from_bytes\<close>, the \<open>q\<close> and \<open>B\<close> fields of \<open>struct\<close>), padding, and
  UTF-8 encoding of strings. The locale \<open>codec\<close> is the contract of a partial encoder and its
  decoder; the integer and hexadecimal codings are interpretations of it.
\<close>

section \<open>Encoders and decoders\<close>

locale codec =
  fixes enc :: "'a \<Rightarrow> 'b list" and dec :: "'b list \<Rightarrow> 'a option" and valid :: "'a \<Rightarrow> bool"
  assumes dec_enc: "valid x \<Longrightarrow> dec (enc x) = Some x"
    and dec_valid: "dec bs = Some x \<Longrightarrow> valid x"
begin

lemma enc_inject: "valid x \<Longrightarrow> valid y \<Longrightarrow> enc x = enc y \<longleftrightarrow> x = y"
  using dec_enc by (metis option.inject)

lemma enc_inj_on: "inj_on enc {x. valid x}"
  by (rule inj_onI) (simp add: enc_inject)

end

text \<open>A fixed-width codec also recovers the bytes from the value.\<close>

locale fixed_codec = codec +
  fixes width :: nat
  assumes enc_length: "valid x \<Longrightarrow> length (enc x) = width"
    and dec_total: "length bs = width \<Longrightarrow> \<exists>x. dec bs = Some x \<and> enc x = bs"
begin

lemma enc_dec: "length bs = width \<Longrightarrow> dec bs = Some x \<Longrightarrow> enc x = bs"
  using dec_total by fastforce

lemma enc_prefix_inject:
  "valid x \<Longrightarrow> valid y \<Longrightarrow> enc x @ r = enc y @ s \<longleftrightarrow> x = y \<and> r = s"
  using enc_length[of x] enc_length[of y] enc_inject[of x y] by auto

end

section \<open>Big-endian integers\<close>

text \<open>The unsigned value of a byte string, and the bytes of a natural number.\<close>

definition be_val :: "bytes \<Rightarrow> int" where
  "be_val bs = foldl (\<lambda>a b. a * 256 + uint b) 0 bs"

fun be_bytes :: "nat \<Rightarrow> int \<Rightarrow> bytes" where
  "be_bytes 0 v = []"
| "be_bytes (Suc n) v = be_bytes n (v div 256) @ [word_of_int v]"

lemma length_be_bytes [simp]: "length (be_bytes n v) = n"
  by (induction n arbitrary: v) auto

lemma be_val_snoc: "be_val (bs @ [b]) = be_val bs * 256 + uint b"
  by (simp add: be_val_def)

lemma be_val_Nil [simp]: "be_val [] = 0"
  by (simp add: be_val_def)

lemma be_val_be_bytes: "be_val (be_bytes n v) = v mod 256 ^ n"
proof (induction n arbitrary: v)
  case (Suc n)
  have "be_val (be_bytes (Suc n) v) = (v div 256) mod 256 ^ n * 256 + v mod 256"
    by (simp add: be_val_snoc Suc uint_word_of_int)
  also have "\<dots> = v mod (256 * 256 ^ n)"
    by (subst zmod_zmult2_eq) auto
  finally show ?case by simp
qed simp

lemma be_val_range: "0 \<le> be_val bs \<and> be_val bs < 256 ^ length bs"
proof (induction bs rule: rev_induct)
  case (snoc b bs)
  have "uint b < 256" using uint_lt2p[of b] by simp
  moreover have "0 \<le> uint b" by simp
  ultimately show ?case using snoc by (simp add: be_val_snoc)
qed simp

lemma be_bytes_be_val: "be_bytes (length bs) (be_val bs) = bs"
proof (induction bs rule: rev_induct)
  case (snoc b bs)
  have "uint b < 256" using uint_lt2p[of b] by simp
  then have "(be_val bs * 256 + uint b) div 256 = be_val bs" by simp
  moreover have "(word_of_int (be_val bs * 256 + uint b) :: byte) = b"
  proof -
    have "(word_of_int (be_val bs * 256) :: byte) = 0"
    proof -
      have "(word_of_int 256 :: byte) = 0" by simp
      then show ?thesis by (subst wi_hom_mult[symmetric]) (simp only: mult_zero_right)
    qed
    then show ?thesis by (simp flip: wi_hom_add)
  qed
  ultimately show ?case using snoc by (simp add: be_val_snoc)
qed simp

lemma be_bytes_mod: "be_bytes n (v mod 256 ^ n) = be_bytes n v"
  by (metis be_bytes_be_val be_val_be_bytes length_be_bytes)

text \<open>\<open>v.to_bytes(n, 'big', signed=True)\<close> and \<open>int.from_bytes(bs, 'big', signed=True)\<close>.\<close>

definition in_signed :: "nat \<Rightarrow> int \<Rightarrow> bool" where
  "in_signed bits v \<longleftrightarrow> - (2 ^ (bits - 1)) \<le> v \<and> v < 2 ^ (bits - 1)"

definition int_to_bytes :: "nat \<Rightarrow> int \<Rightarrow> bytes res" where
  "int_to_bytes n v = (if in_signed (8 * n) v then Inr (be_bytes n v)
     else raise OverflowError [T ''int too big to convert''])"

definition int_from_bytes :: "bytes \<Rightarrow> int" where
  "int_from_bytes bs = (let v = be_val bs; n = length bs in
     if 2 * v < 256 ^ n then v else v - 256 ^ n)"

lemma int_from_be_bytes: "0 < n \<Longrightarrow> in_signed (8 * n) v \<Longrightarrow> int_from_bytes (be_bytes n v) = v"
proof -
  assume n: "0 < n" and v: "in_signed (8 * n) v"
  have p: "(256::int) ^ n = 2 * 2 ^ (8 * n - 1)"
  proof -
    have "(256::int) ^ n = 2 ^ (8 * n)" by (simp add: power_mult)
    also have "\<dots> = 2 * 2 ^ (8 * n - 1)" using n by (cases "8 * n") auto
    finally show ?thesis .
  qed
  show ?thesis
  proof (cases "0 \<le> v")
    case True
    with v p have "v mod 256 ^ n = v" by (simp add: in_signed_def)
    with v p True show ?thesis by (simp add: int_from_bytes_def Let_def be_val_be_bytes in_signed_def)
  next
    case False
    with v p have "(v + 256 ^ n) mod 256 ^ n = v + 256 ^ n"
      by (intro mod_pos_pos_trivial) (auto simp: in_signed_def)
    then have "v mod 256 ^ n = v + 256 ^ n" by simp
    with v p False show ?thesis by (simp add: int_from_bytes_def Let_def be_val_be_bytes in_signed_def)
  qed
qed

lemma int_from_bytes_range: "0 < length bs \<Longrightarrow> in_signed (8 * length bs) (int_from_bytes bs)"
proof -
  assume n: "0 < length bs"
  have p: "(256::int) ^ length bs = 2 * 2 ^ (8 * length bs - 1)"
  proof -
    have "(256::int) ^ length bs = 2 ^ (8 * length bs)" by (simp add: power_mult)
    also have "\<dots> = 2 * 2 ^ (8 * length bs - 1)" using n by (cases "8 * length bs") auto
    finally show ?thesis .
  qed
  with be_val_range[of bs] show ?thesis
    by (auto simp: in_signed_def int_from_bytes_def Let_def)
qed

lemma be_bytes_from_bytes: "be_bytes (length bs) (int_from_bytes bs) = bs"
proof -
  have "int_from_bytes bs mod 256 ^ length bs = be_val bs mod 256 ^ length bs"
    by (auto simp: int_from_bytes_def Let_def)
  then show ?thesis by (metis be_bytes_mod be_bytes_be_val)
qed

interpretation be64: fixed_codec "be_bytes 8" "\<lambda>bs. if length bs = 8 then Some (int_from_bytes bs) else None"
  "in_signed 64" 8
proof unfold_locales
  show "in_signed 64 x \<Longrightarrow> (if length (be_bytes 8 x) = 8 then Some (int_from_bytes (be_bytes 8 x)) else None) = Some x" for x
    using int_from_be_bytes[of 8 x] by simp
  show "(if length bs = 8 then Some (int_from_bytes bs) else None) = Some x \<Longrightarrow> in_signed 64 x" for bs x
    using int_from_bytes_range[of bs] by (cases bs) (auto split: if_splits)
  show "in_signed 64 x \<Longrightarrow> length (be_bytes 8 x) = 8" for x
    by simp
  show "length bs = 8 \<Longrightarrow> \<exists>x. (if length bs = 8 then Some (int_from_bytes bs) else None) = Some x \<and> be_bytes 8 x = bs" for bs
    using be_bytes_from_bytes[of bs] by auto
qed

section \<open>Hexadecimal text\<close>

text \<open>\<open>bytes.hex()\<close>, two lower-case digits a byte, and \<open>bytes.fromhex\<close> with its errors.\<close>

definition hex_digit :: "nat \<Rightarrow> nat" where
  "hex_digit d = (if d < 10 then 48 + d else 87 + d)"

definition hex_val :: "nat \<Rightarrow> nat option" where
  "hex_val c = (if 48 \<le> c \<and> c \<le> 57 then Some (c - 48)
     else if 97 \<le> c \<and> c \<le> 102 then Some (c - 87)
     else if 65 \<le> c \<and> c \<le> 70 then Some (c - 55) else None)"

definition hex :: "bytes \<Rightarrow> pystr" where
  "hex bs = concat (map (\<lambda>b. [hex_digit (unat b div 16), hex_digit (unat b mod 16)]) bs)"

text \<open>\<open>fromhex\<close> skips ASCII white space before each pair.\<close>

definition is_hex_space :: "nat \<Rightarrow> bool" where
  "is_hex_space c \<longleftrightarrow> c = 32 \<or> (9 \<le> c \<and> c \<le> 13)"

fun fromhex :: "pystr \<Rightarrow> bytes option" where
  "fromhex [] = Some []"
| "fromhex [c] = (if is_hex_space c then Some [] else None)"
| "fromhex (c # d # s) = (if is_hex_space c then fromhex (d # s)
     else case (hex_val c, hex_val d) of
       (Some h, Some l) \<Rightarrow> map_option (\<lambda>bs. of_nat (16 * h + l) # bs) (fromhex s)
     | _ \<Rightarrow> None)"

lemma hex_Nil [simp]: "hex [] = []"
  by (simp add: hex_def)

lemma length_hex [simp]: "length (hex bs) = 2 * length bs"
  by (induction bs) (auto simp: hex_def)

lemma hex_digit_val: "d < 16 \<Longrightarrow> hex_val (hex_digit d) = Some d \<and> \<not> is_hex_space (hex_digit d)"
  by (auto simp: hex_digit_def hex_val_def is_hex_space_def)

lemma unat_byte_less: "unat (b :: byte) < 256"
proof -
  have "unat b < 2 ^ LENGTH(8)" by (rule unsigned_less)
  then show ?thesis by (simp del: unsigned_less)
qed

lemma hex_Cons: "hex (b # bs) = hex_digit (unat b div 16) # hex_digit (unat b mod 16) # hex bs"
  by (simp add: hex_def)

lemma fromhex_hex [simp]: "fromhex (hex bs) = Some bs"
proof (induction bs)
  case (Cons b bs)
  have "unat b div 16 < 16" using unat_byte_less[of b] by simp
  moreover have "of_nat (16 * (unat b div 16) + unat b mod 16) = b" by simp
  ultimately show ?case using Cons by (simp add: hex_Cons hex_digit_val)
qed simp

interpretation hexc: codec hex fromhex "\<lambda>_. True"
  by unfold_locales simp_all

definition lower_hex :: "nat \<Rightarrow> bool" where
  "lower_hex c \<longleftrightarrow> (48 \<le> c \<and> c \<le> 57) \<or> (97 \<le> c \<and> c \<le> 102)"

lemma hex_lower: "c \<in> set (hex bs) \<Longrightarrow> lower_hex c"
proof (induction bs)
  case (Cons b bs)
  have "unat b div 16 < 16" using unat_byte_less[of b] by simp
  moreover have "unat b mod 16 < 16" by simp
  ultimately show ?case using Cons
    by (auto simp: hex_Cons hex_digit_def lower_hex_def split: if_splits)
qed simp

end
