(* ===== verification/Py_Text.thy ===== *)
theory Py_Text
  imports Py_Bytes
begin

text \<open>
  UTF-8: \<open>str.encode("utf-8")\<close> and \<open>bytes.decode("utf-8")\<close>, strict (surrogates, overlong
  forms and code points beyond U+10FFFF are errors). Text without surrogates survives the round
  trip, and ASCII text is encoded byte for byte.
\<close>

definition is_surrogate :: "nat \<Rightarrow> bool" where
  "is_surrogate c \<longleftrightarrow> 0xD800 \<le> c \<and> c \<le> 0xDFFF"

definition scalar :: "nat \<Rightarrow> bool" where
  "scalar c \<longleftrightarrow> c \<le> 0x10FFFF \<and> \<not> is_surrogate c"

definition valid_text :: "pystr \<Rightarrow> bool" where
  "valid_text s \<longleftrightarrow> (\<forall>c \<in> set s. scalar c)"

definition ascii_text :: "pystr \<Rightarrow> bool" where
  "ascii_text s \<longleftrightarrow> (\<forall>c \<in> set s. c < 128)"

text \<open>The bytes of one scalar value, as numbers.\<close>

definition utf8_char :: "nat \<Rightarrow> nat list" where
  "utf8_char c =
     (if c < 0x80 then [c]
      else if c < 0x800 then [0xC0 + c div 64, 0x80 + c mod 64]
      else if c < 0x10000 then [0xE0 + c div 4096, 0x80 + c div 64 mod 64, 0x80 + c mod 64]
      else [0xF0 + c div 262144, 0x80 + c div 4096 mod 64, 0x80 + c div 64 mod 64, 0x80 + c mod 64])"

definition utf8_encode :: "pystr \<Rightarrow> bytes res" where
  "utf8_encode s = (if valid_text s then Inr (map of_nat (concat (map utf8_char s)))
     else raise UnicodeEncodeError [T ''surrogates not allowed''])"

definition cont :: "nat \<Rightarrow> bool" where
  "cont b \<longleftrightarrow> 0x80 \<le> b \<and> b \<le> 0xBF"

fun utf8_dec :: "nat list \<Rightarrow> pystr option" where
  "utf8_dec [] = Some []"
| "utf8_dec (a # r) =
     (if a < 0x80 then map_option ((#) a) (utf8_dec r)
      else if 0xC2 \<le> a \<and> a \<le> 0xDF then (case r of
          b # r' \<Rightarrow> if cont b then map_option ((#) ((a - 0xC0) * 64 + (b - 0x80))) (utf8_dec r') else None
        | [] \<Rightarrow> None)
      else if 0xE0 \<le> a \<and> a \<le> 0xEF then (case r of
          b # c # r' \<Rightarrow> (let v = (a - 0xE0) * 4096 + (b - 0x80) * 64 + (c - 0x80) in
             if cont b \<and> cont c \<and> 0x800 \<le> v \<and> \<not> is_surrogate v
             then map_option ((#) v) (utf8_dec r') else None)
        | _ \<Rightarrow> None)
      else if 0xF0 \<le> a \<and> a \<le> 0xF4 then (case r of
          b # c # d # r' \<Rightarrow>
            (let v = (a - 0xF0) * 262144 + (b - 0x80) * 4096 + (c - 0x80) * 64 + (d - 0x80) in
             if cont b \<and> cont c \<and> cont d \<and> 0x10000 \<le> v \<and> v \<le> 0x10FFFF
             then map_option ((#) v) (utf8_dec r') else None)
        | _ \<Rightarrow> None)
      else None)"

definition utf8_decode :: "bytes \<Rightarrow> pystr res" where
  "utf8_decode bs = (case utf8_dec (map unat bs) of
     Some s \<Rightarrow> Inr s | None \<Rightarrow> raise UnicodeDecodeError [T ''invalid utf-8''])"

lemma utf8_char_bytes: "scalar c \<Longrightarrow> b \<in> set (utf8_char c) \<Longrightarrow> b < 256"
  by (auto simp: utf8_char_def scalar_def split: if_splits)

lemma mod64_le: "(x :: nat) mod 64 \<le> 63"
  using mod_less_divisor[of 64 x] by linarith

lemma utf8_dec_char: "scalar c \<Longrightarrow> utf8_dec (utf8_char c @ r) = map_option ((#) c) (utf8_dec r)"
proof -
  assume c: "scalar c"
  consider "c < 0x80" | "0x80 \<le> c" "c < 0x800" | "0x800 \<le> c" "c < 0x10000" | "0x10000 \<le> c"
    by linarith
  then show ?thesis
  proof cases
    case 1
    then show ?thesis by (simp add: utf8_char_def)
  next
    case 2
    define h l where hl: "h = c div 64" "l = c mod 64"
    have "2 \<le> h" "h \<le> 31" "l \<le> 63" "h * 64 + l = c" using 2 unfolding hl by auto
    then show ?thesis using 2 by (simp add: utf8_char_def cont_def flip: hl)
  next
    case 3
    have "c div 4096 * 64 + c div 64 mod 64 = c div 64"
      using div_mult_mod_eq[of "c div 64" 64] by (simp add: div_mult2_eq[symmetric])
    then have e: "c div 4096 * 4096 + c div 64 mod 64 * 64 + c mod 64 = c"
      using div_mult_mod_eq[of c 64] by linarith
    have "c div 64 mod 64 \<le> 63" "c mod 64 \<le> 63" by (rule mod64_le)+
    moreover have "c div 4096 < 16" using 3 by auto
    ultimately show ?thesis using 3 e c
      by (simp add: utf8_char_def cont_def scalar_def Let_def)
  next
    case 4
    have "c div 4096 * 64 + c div 64 mod 64 = c div 64"
      using div_mult_mod_eq[of "c div 64" 64] by (simp add: div_mult2_eq[symmetric])
    moreover have "c div 262144 * 64 + c div 4096 mod 64 = c div 4096"
      using div_mult_mod_eq[of "c div 4096" 64] by (simp add: div_mult2_eq[symmetric])
    ultimately have e: "c div 262144 * 262144 + c div 4096 mod 64 * 4096 + c div 64 mod 64 * 64 + c mod 64 = c"
      using div_mult_mod_eq[of c 64] by linarith
    have "c div 64 mod 64 \<le> 63" "c mod 64 \<le> 63" "c div 4096 mod 64 \<le> 63" by (rule mod64_le)+
    moreover have "c div 262144 \<le> 4" using c by (auto simp: scalar_def)
    ultimately show ?thesis using 4 e c
      by (simp add: utf8_char_def cont_def scalar_def Let_def)
  qed
qed

lemma utf8_dec_encode: "valid_text s \<Longrightarrow> utf8_dec (concat (map utf8_char s)) = Some s"
  by (induction s) (auto simp: valid_text_def utf8_dec_char simp del: utf8_dec.simps(2))

lemma unat_of_nat_byte: "b < 256 \<Longrightarrow> unat (of_nat b :: byte) = b"
  by (simp add: unat_of_nat)

lemma utf8_roundtrip: "utf8_encode s = Inr bs \<Longrightarrow> utf8_decode bs = Inr s"
proof -
  assume "utf8_encode s = Inr bs"
  then have v: "valid_text s" and bs: "bs = map of_nat (concat (map utf8_char s))"
    by (auto simp: utf8_encode_def res_simps split: if_splits)
  have "map unat bs = concat (map utf8_char s)"
    unfolding bs map_map using v
    by (intro map_idI) (auto simp: valid_text_def intro!: unat_of_nat_byte intro: utf8_char_bytes)
  then show ?thesis using v by (simp add: utf8_decode_def utf8_dec_encode)
qed

lemma utf8_encode_ok: "(\<exists>bs. utf8_encode s = Inr bs) \<longleftrightarrow> valid_text s"
  by (auto simp: utf8_encode_def raise_def)

lemma utf8_encode_inject: "utf8_encode s = Inr bs \<Longrightarrow> utf8_encode t = Inr bs \<Longrightarrow> s = t"
  using utf8_roundtrip[of s bs] utf8_roundtrip[of t bs] by simp

lemma valid_Nil [simp]: "valid_text []"
  by (simp add: valid_text_def)

lemma valid_literal: "valid_text (lit s)"
proof -
  have b: "of_char c < (256 :: nat)" for c by (metis of_char_mod_256 mod_less_divisor zero_less_numeral)
  have "scalar (of_char c)" for c unfolding scalar_def is_surrogate_def using b[of c] by linarith
  then show ?thesis by (simp add: valid_text_def lit_def)
qed

lemma ascii_valid: "ascii_text s \<Longrightarrow> valid_text s"
  by (auto simp: ascii_text_def valid_text_def scalar_def is_surrogate_def)

lemma utf8_encode_ascii: "ascii_text s \<Longrightarrow> utf8_encode s = Inr (map of_nat s)"
proof -
  assume a: "ascii_text s"
  then have "concat (map utf8_char s) = s"
    by (induction s) (auto simp: ascii_text_def utf8_char_def)
  then show ?thesis using ascii_valid[OF a] by (simp add: utf8_encode_def)
qed

lemma utf8_length_ge: "utf8_encode s = Inr bs \<Longrightarrow> length s \<le> length bs"
proof -
  have "length s \<le> length (concat (map utf8_char s))"
    by (induction s) (auto simp: utf8_char_def)
  moreover assume "utf8_encode s = Inr bs"
  ultimately show ?thesis by (auto simp: utf8_encode_def res_simps split: if_splits)
qed

end
