(* ===== verification/Json.thy ===== *)
theory Json
  imports Py_Float Py_Text "HOL-Library.Multiset"
begin

text \<open>
  JSON values and \<open>json.dumps(v, sort_keys=True, separators=(",", ":"))\<close> with its defaults
  (\<open>ensure_ascii\<close>, \<open>allow_nan\<close>): the canonical text that is hashed into attestations and
  pinned to IPFS. Dictionary keys are strings. The text is ASCII, and does not depend on the
  insertion order of any dictionary.
\<close>

datatype json = JNull | JBool bool | JInt int | JFloat pyfloat | JStr pystr
  | JList "json list" | JDict "(pystr \<times> json) list"

section \<open>\<open>float.__repr__\<close>\<close>

text \<open>The decimal exponent of a positive rational: \<open>10 ^ e \<le> x < 10 ^ (e + 1)\<close>.\<close>

definition flog10 :: "rat \<Rightarrow> int" where
  "flog10 x = (if 1 \<le> x then int (length (dec_nat \<lfloor>x\<rfloor>)) - 1
     else - int (length (dec_nat (\<lceil>1 / x\<rceil> - 1))))"

definition pow10 :: "int \<Rightarrow> rat" where
  "pow10 e = (if 0 \<le> e then 10 ^ nat e else 1 / 10 ^ nat (- e))"

text \<open>The significand and exponent of \<open>x\<close> rounded to \<open>n\<close> significant decimal digits.\<close>

definition round_digits :: "nat \<Rightarrow> rat \<Rightarrow> int \<times> int" where
  "round_digits n x = (let s = int n - 1 - flog10 x in (rhe (x * pow10 s), - s))"

text \<open>The shortest rounding that reads back as \<open>x\<close>; seventeen digits always do.\<close>

fun shortest_from :: "nat \<Rightarrow> nat \<Rightarrow> rat \<Rightarrow> int \<times> int" where
  "shortest_from 0 n x = round_digits n x"
| "shortest_from (Suc k) n x = (case round_digits n x of (m, e) \<Rightarrow>
     if fl (of_int m * pow10 e) = Fin x then (m, e) else shortest_from k (Suc n) x)"

definition strip_zeros :: "pystr \<Rightarrow> pystr" where
  "strip_zeros d = rev (dropWhile (\<lambda>c. c = 48) (rev d))"

definition pos_repr :: "rat \<Rightarrow> pystr" where
  "pos_repr x = (case shortest_from 16 1 x of (m, e) \<Rightarrow>
     let ds = dec_nat m; d = strip_zeros ds; decpt = int (length ds) + e in
     if - 4 < decpt \<and> decpt \<le> 16 then
       (if decpt \<le> 0 then lit ''0.'' @ replicate (nat (- decpt)) 48 @ d
        else if int (length d) \<le> decpt then d @ replicate (nat decpt - length d) 48 @ lit ''.0''
        else take (nat decpt) d @ 46 # drop (nat decpt) d)
     else take 1 d @ (if 1 < length d then 46 # drop 1 d else []) @ 101 #
       (if decpt - 1 < 0 then 45 else 43) #
       (let a = dec_nat \<bar>decpt - 1\<bar> in if length a < 2 then 48 # a else a))"

fun float_repr :: "pyfloat \<Rightarrow> pystr" where
  "float_repr (Fin x) = (if x = 0 then lit ''0.0'' else if x < 0 then 45 # pos_repr (- x) else pos_repr x)"
| "float_repr PInf = lit ''Infinity''"
| "float_repr NInf = lit ''-Infinity''"
| "float_repr NaN = lit ''NaN''"

text \<open>\<open>str(f)\<close>, which names the values that are not finite otherwise than JSON does.\<close>

definition float_str :: "pyfloat \<Rightarrow> pystr" where
  "float_str f = (case f of PInf \<Rightarrow> lit ''inf'' | NInf \<Rightarrow> lit ''-inf'' | NaN \<Rightarrow> lit ''nan'' | Fin x \<Rightarrow> float_repr f)"

section \<open>Printing\<close>

definition hex4 :: "nat \<Rightarrow> pystr" where
  "hex4 v = [hex_digit (v div 4096 mod 16), hex_digit (v div 256 mod 16),
     hex_digit (v div 16 mod 16), hex_digit (v mod 16)]"

definition u_escape :: "nat \<Rightarrow> pystr" where
  "u_escape v = [92, 117] @ hex4 v"

definition esc_char :: "nat \<Rightarrow> pystr" where
  "esc_char c =
     (if c = 34 then [92, 34] else if c = 92 then [92, 92]
      else if c = 10 then [92, 110] else if c = 13 then [92, 114] else if c = 9 then [92, 116]
      else if c = 8 then [92, 98] else if c = 12 then [92, 102]
      else if 32 \<le> c \<and> c \<le> 126 then [c]
      else if c < 0x10000 then u_escape c
      else u_escape (0xD800 + (c - 0x10000) div 1024 mod 1024) @ u_escape (0xDC00 + (c - 0x10000) mod 1024))"

definition json_string :: "pystr \<Rightarrow> pystr" where
  "json_string s = 34 # concat (map esc_char s) @ [34]"

fun join :: "pystr \<Rightarrow> pystr list \<Rightarrow> pystr" where
  "join sep [] = []"
| "join sep [x] = x"
| "join sep (x # y # xs) = x @ sep @ join sep (y # xs)"

definition member_text :: "pystr \<times> pystr \<Rightarrow> pystr" where
  "member_text kv = json_string (fst kv) @ 58 # snd kv"

fun dumps :: "json \<Rightarrow> pystr" where
  "dumps JNull = lit ''null''"
| "dumps (JBool b) = (if b then lit ''true'' else lit ''false'')"
| "dumps (JInt i) = dec_int i"
| "dumps (JFloat f) = float_repr f"
| "dumps (JStr s) = json_string s"
| "dumps (JList xs) = 91 # join [44] (map dumps xs) @ [93]"
| "dumps (JDict kvs) = 123 # join [44] (map member_text
     (sort_key fst (map (\<lambda>(k, v). (k, dumps v)) kvs))) @ [125]"

text \<open>\<open>json.dumps(...).encode("utf-8")\<close>.\<close>

definition dumps_bytes :: "json \<Rightarrow> bytes" where
  "dumps_bytes v = map of_nat (dumps v)"

section \<open>Canonical form\<close>

text \<open>Every dictionary in key order: what the text determines.\<close>

fun canon :: "json \<Rightarrow> json" where
  "canon (JList xs) = JList (map canon xs)"
| "canon (JDict kvs) = JDict (sort_key fst (map (\<lambda>(k, v). (k, canon v)) kvs))"
| "canon v = v"

text \<open>Keys are distinct in every dictionary, as they are in Python.\<close>

fun keys_distinct :: "json \<Rightarrow> bool" where
  "keys_distinct (JList xs) = list_all keys_distinct xs"
| "keys_distinct (JDict kvs) = (distinct (dict_keys kvs) \<and> list_all (\<lambda>(k, v). keys_distinct v) kvs)"
| "keys_distinct v = True"


section \<open>Lemmas\<close>

text \<open>Printing without sorting; the printed text is that of the canonical form.\<close>

fun raw :: "json \<Rightarrow> pystr" where
  "raw (JList xs) = 91 # join [44] (map raw xs) @ [93]"
| "raw (JDict kvs) = 123 # join [44] (map member_text (map (\<lambda>(k, v). (k, raw v)) kvs)) @ [125]"
| "raw v = dumps v"

lemma sort_key_map_snd:
  "sort_key fst (map (\<lambda>(k, v). (k, f v)) kvs) = map (\<lambda>(k, v). (k, f v)) (sort_key fst kvs)"
proof (induction kvs)
  case (Cons p kvs)
  have "insort_key fst (k, f v) (map (\<lambda>(k, v). (k, f v)) l) = map (\<lambda>(k, v). (k, f v)) (insort_key fst (k, v) l)"
    for k v l by (induction l) auto
  with Cons show ?case by (cases p) simp
qed simp

lemma dumps_raw: "dumps v = raw (canon v)"
proof (induction v)
  case (JList xs)
  then have "map dumps xs = map raw (map canon xs)" by simp
  then show ?case by (simp only: dumps.simps canon.simps raw.simps)
next
  case (JDict kvs)
  then have e: "map (\<lambda>(k, v). (k, dumps v)) kvs = map (\<lambda>(k, v). (k, raw (canon v))) kvs"
    by (auto simp: snds.simps)
  have "sort_key fst (map (\<lambda>(k, v). (k, raw (canon v))) kvs)
      = map (\<lambda>(k, v). (k, raw v)) (sort_key fst (map (\<lambda>(k, v). (k, canon v)) kvs))"
    unfolding sort_key_map_snd by (simp add: comp_def split_beta')
  then show ?case by (simp add: e)
qed auto

lemma sort_key_perm:
  assumes "mset xs = mset ys" "distinct (map f xs)"
  shows "sort_key f xs = sort_key f ys"
proof -
  have d: "distinct (map f ys)"
    using assms by (metis mset_eq_imp_distinct_iff mset_map)
  have "map f (sort_key f xs) = map f (sort_key f ys)"
  proof (rule sorted_distinct_set_unique)
    show "sorted (map f (sort_key f xs))" "sorted (map f (sort_key f ys))" by simp_all
    show "distinct (map f (sort_key f xs))" "distinct (map f (sort_key f ys))"
      using assms(2) d by (metis mset_eq_imp_distinct_iff mset_map mset_sort)+
    show "set (map f (sort_key f xs)) = set (map f (sort_key f ys))"
      using assms(1) by (metis mset_eq_setD set_map set_sort)
  qed
  moreover have "inj_on f (set (sort_key f xs) \<union> set (sort_key f ys))"
    using assms by (metis Un_absorb distinct_map mset_eq_setD set_sort)
  ultimately show ?thesis by (rule map_inj_on)
qed

text \<open>The text of a dictionary does not depend on its insertion order.\<close>

lemma dumps_perm:
  assumes "mset kvs = mset kvs'" "distinct (dict_keys kvs)"
  shows "dumps (JDict kvs) = dumps (JDict kvs')"
proof -
  have "sort_key fst (map (\<lambda>(k, v). (k, dumps v)) kvs) = sort_key fst (map (\<lambda>(k, v). (k, dumps v)) kvs')"
  proof (rule sort_key_perm)
    show "mset (map (\<lambda>(k, v). (k, dumps v)) kvs) = mset (map (\<lambda>(k, v). (k, dumps v)) kvs')"
      using assms(1) by simp
    show "distinct (map fst (map (\<lambda>(k, v). (k, dumps v)) kvs))"
      using assms(2) by (simp add: comp_def split_beta)
  qed
  then show ?thesis by simp
qed

subsection \<open>The text is ASCII\<close>

lemma ascii_append [simp]: "ascii_text (a @ b) \<longleftrightarrow> ascii_text a \<and> ascii_text b"
  by (auto simp: ascii_text_def)

lemma ascii_Cons [simp]: "ascii_text (c # s) \<longleftrightarrow> c < 128 \<and> ascii_text s"
  by (auto simp: ascii_text_def)

lemma ascii_Nil [simp]: "ascii_text []"
  by (simp add: ascii_text_def)

lemma ascii_join: "ascii_text sep \<Longrightarrow> (\<And>x. x \<in> set xs \<Longrightarrow> ascii_text x) \<Longrightarrow> ascii_text (join sep xs)"
  by (induction sep xs rule: join.induct) auto

lemma ascii_dec_nat: "ascii_text (dec_nat n)"
  unfolding ascii_text_def using dec_nat_digits by fastforce

lemma ascii_dec_int: "ascii_text (dec_int i)"
  by (simp add: dec_int_def ascii_dec_nat)

lemma ascii_lit: "list_all (\<lambda>c. (of_char c :: nat) < 128) s \<Longrightarrow> ascii_text (lit s)"
  by (auto simp: ascii_text_def lit_def list_all_iff)

lemma ascii_sub: "ascii_text s \<Longrightarrow> set t \<subseteq> set s \<Longrightarrow> ascii_text t"
  by (auto simp: ascii_text_def)

lemma ascii_strip: "ascii_text d \<Longrightarrow> ascii_text (strip_zeros d)"
  by (erule ascii_sub) (auto simp: strip_zeros_def dest: set_dropWhileD)

lemma ascii_take: "ascii_text d \<Longrightarrow> ascii_text (take n d)" "ascii_text d \<Longrightarrow> ascii_text (drop n d)"
  by (auto elim!: ascii_sub dest: in_set_takeD in_set_dropD)

lemma ascii_replicate: "c < 128 \<Longrightarrow> ascii_text (replicate n c)"
  by (auto simp: ascii_text_def)

lemma ascii_float: "ascii_text (float_repr f)"
proof -
  have "ascii_text (pos_repr x)" for x
    unfolding pos_repr_def Let_def
    by (auto simp: ascii_dec_nat ascii_strip ascii_take ascii_replicate ascii_lit split: prod.split)
  then show ?thesis by (cases f) (auto simp: ascii_lit)
qed

lemma ascii_float_str: "ascii_text (float_str f)"
  using ascii_float[of f] by (cases f) (auto simp: float_str_def lit_def)

lemma ascii_hex4: "ascii_text (hex4 v)"
proof -
  have "hex_digit d < 128" if "d < 16" for d using that by (auto simp: hex_digit_def)
  then show ?thesis by (simp add: hex4_def)
qed

lemma ascii_json_string: "ascii_text (json_string s)"
proof -
  have "ascii_text (esc_char c)" for c by (auto simp: esc_char_def u_escape_def ascii_hex4)
  then have "ascii_text (concat (map esc_char s))" by (induction s) auto
  then show ?thesis by (simp add: json_string_def)
qed

lemma ascii_dumps: "ascii_text (dumps v)"
proof (induction v)
  case (JDict kvs)
  then have "ascii_text (member_text (k, dumps v))" if "(k, v) \<in> set kvs" for k v
    using that by (auto simp: member_text_def ascii_json_string snds.simps)
  then show ?case by (auto intro!: ascii_join)
qed (auto simp: ascii_lit ascii_dec_int ascii_float ascii_json_string intro!: ascii_join)

lemma dumps_bytes_utf8: "utf8_encode (dumps v) = Inr (dumps_bytes v)"
  by (simp add: dumps_bytes_def utf8_encode_ascii ascii_dumps)

lemma dumps_bytes_decode: "utf8_decode (dumps_bytes v) = Inr (dumps v)"
  using utf8_roundtrip dumps_bytes_utf8 by blast

lemma dumps_bytes_inject: "dumps_bytes v = dumps_bytes w \<longleftrightarrow> dumps v = dumps w"
  using dumps_bytes_decode[of v] dumps_bytes_decode[of w] by (metis dumps_bytes_def sum.inject(2))

end
