(* ===== verification/Sha256.thy ===== *)
theory Sha256
  imports Py_Bytes
begin

text \<open>
  SHA-256 (FIPS 180-4), the \<open>hashlib.sha256\<close> of the standard library, as an executable
  function on byte strings.
\<close>

unbundle bit_operations_syntax

type_synonym w32 = "32 word"

definition rotr :: "nat \<Rightarrow> w32 \<Rightarrow> w32" where
  "rotr n x = drop_bit n x OR push_bit (32 - n) x"

text \<open>The round constants, in decimal.\<close>

definition sha_k :: "w32 list" where
  "sha_k = [
   1116352408, 1899447441, 3049323471, 3921009573, 961987163, 1508970993,
   2453635748, 2870763221, 3624381080, 310598401, 607225278, 1426881987,
   1925078388, 2162078206, 2614888103, 3248222580, 3835390401, 4022224774,
   264347078, 604807628, 770255983, 1249150122, 1555081692, 1996064986,
   2554220882, 2821834349, 2952996808, 3210313671, 3336571891, 3584528711,
   113926993, 338241895, 666307205, 773529912, 1294757372, 1396182291,
   1695183700, 1986661051, 2177026350, 2456956037, 2730485921, 2820302411,
   3259730800, 3345764771, 3516065817, 3600352804, 4094571909, 275423344,
   430227734, 506948616, 659060556, 883997877, 958139571, 1322822218,
   1537002063, 1747873779, 1955562222, 2024104815, 2227730452, 2361852424,
   2428436474, 2756734187, 3204031479, 3329325298]"

record sha_state =
  ha :: w32
  hb :: w32
  hc :: w32
  hd' :: w32
  he :: w32
  hf :: w32
  hg :: w32
  hh :: w32

definition sha_init :: sha_state where
  "sha_init = \<lparr>ha = 0x6a09e667, hb = 0xbb67ae85, hc = 0x3c6ef372, hd' = 0xa54ff53a,
     he = 0x510e527f, hf = 0x9b05688c, hg = 0x1f83d9ab, hh = 0x5be0cd19\<rparr>"

definition sha_round :: "w32 \<Rightarrow> w32 \<Rightarrow> sha_state \<Rightarrow> sha_state" where
  "sha_round k w s = (let
     e = he s; a = ha s;
     t1 = hh s + (rotr 6 e XOR rotr 11 e XOR rotr 25 e) + ((e AND hf s) XOR (NOT e AND hg s)) + k + w;
     t2 = (rotr 2 a XOR rotr 13 a XOR rotr 22 a)
          + ((a AND hb s) XOR (a AND hc s) XOR (hb s AND hc s))
     in \<lparr>ha = t1 + t2, hb = a, hc = hb s, hd' = hc s, he = hd' s + t1, hf = e, hg = hf s, hh = hg s\<rparr>)"

text \<open>The message schedule: a sliding window of the last sixteen words.\<close>

definition sha_sched :: "w32 list \<Rightarrow> w32" where
  "sha_sched w = (let a = w ! 1; b = w ! 14 in
     (rotr 17 b XOR rotr 19 b XOR drop_bit 10 b) + w ! 9 + (rotr 7 a XOR rotr 18 a XOR drop_bit 3 a) + w ! 0)"

fun sha_rounds :: "w32 list \<Rightarrow> w32 list \<Rightarrow> sha_state \<Rightarrow> sha_state" where
  "sha_rounds [] w s = s"
| "sha_rounds (k # ks) w s = sha_rounds ks (tl w @ [sha_sched w]) (sha_round k (w ! 0) s)"

definition sha_add :: "sha_state \<Rightarrow> sha_state \<Rightarrow> sha_state" where
  "sha_add s t = \<lparr>ha = ha s + ha t, hb = hb s + hb t, hc = hc s + hc t, hd' = hd' s + hd' t,
     he = he s + he t, hf = hf s + hf t, hg = hg s + hg t, hh = hh s + hh t\<rparr>"

fun be_words :: "bytes \<Rightarrow> w32 list" where
  "be_words (a # b # c # d # bs) = word_of_int (be_val [a, b, c, d]) # be_words bs"
| "be_words _ = []"

definition sha_pad :: "bytes \<Rightarrow> bytes" where
  "sha_pad m = (let n = length m in
     m @ [0x80] @ replicate ((119 - n mod 64) mod 64) 0 @ be_bytes 8 (8 * int n))"

function sha_blocks :: "bytes \<Rightarrow> sha_state \<Rightarrow> sha_state" where
  "sha_blocks bs s = (if length bs < 64 then s
     else sha_blocks (drop 64 bs) (sha_add s (sha_rounds sha_k (be_words (take 64 bs)) s)))"
  by pat_completeness auto
termination
  by (relation "measure (\<lambda>(bs, s). length bs)") auto

declare sha_blocks.simps [simp del]

definition sha256 :: "bytes \<Rightarrow> bytes" where
  "sha256 m = (let s = sha_blocks (sha_pad m) sha_init in
     concat (map (\<lambda>w. be_bytes 4 (uint w)) [ha s, hb s, hc s, hd' s, he s, hf s, hg s, hh s]))"

lemma length_sha256 [simp]: "length (sha256 m) = 32"
  by (simp add: sha256_def Let_def)

end
