(* ===== verification/Attestation.thy ===== *)
theory Attestation
  imports Json Sha256
begin

text \<open>
  \<open>oracle_bridge/attestation.py\<close>: the canonical 113-byte payload, its packing and
  unpacking, the Ed25519 signer and verifier over it, and the hex envelope. The Ed25519
  primitive is a parameter (a record of its operations); what the code relies on is the
  predicate \<open>ed25519_laws\<close>.
\<close>

section \<open>Constants and helpers\<close>

definition SCHEMA_VERSION :: int where "SCHEMA_VERSION = 1"
definition PAYLOAD_LENGTH :: nat where "PAYLOAD_LENGTH = 113"

type_synonym params = "json dict"

definition canonical_params_hash :: "params \<Rightarrow> bytes" where
  "canonical_params_hash params = sha256 (dumps_bytes (JDict params))"

text \<open>A feed identifier is a string or raw bytes.\<close>

datatype feed = FStr pystr | FBytes bytes

fun feed_raw :: "feed \<Rightarrow> bytes res" where
  "feed_raw (FStr s) = utf8_encode s"
| "feed_raw (FBytes b) = Inr b"

definition pad_feed_id :: "feed \<Rightarrow> bytes res" where
  "pad_feed_id feed_id = bindE (feed_raw feed_id) (\<lambda>raw.
     if 32 < length raw
     then raise ValueError [T ''feed_id exceeds 32 bytes: '', I (int (length raw)), T '' bytes given'']
     else Inr (raw @ replicate (32 - length raw) 0))"

section \<open>The payload\<close>

record payload =
  script_hash :: bytes
  input_params_hash :: bytes
  output_value :: int
  timestamp_utc :: int
  feed_id :: bytes
  schema_version :: int

text \<open>The dataclass constructor with its \<open>__post_init__\<close> checks, in order.\<close>

definition payload_check :: "payload \<Rightarrow> payload res" where
  "payload_check p =
     (if length (script_hash p) \<noteq> 32 then raise ValueError [T ''script_hash must be exactly 32 bytes'']
      else if length (input_params_hash p) \<noteq> 32
      then raise ValueError [T ''input_params_hash must be exactly 32 bytes'']
      else if length (feed_id p) \<noteq> 32 then raise ValueError [T ''feed_id must be exactly 32 bytes'']
      else if \<not> (- (2 ^ 63) \<le> output_value p \<and> output_value p < 2 ^ 63)
      then raise ValueError [T ''output_value must fit in an i64'']
      else if \<not> (- (2 ^ 63) \<le> timestamp_utc p \<and> timestamp_utc p < 2 ^ 63)
      then raise ValueError [T ''timestamp_utc must fit in an i64'']
      else Inr p)"

definition mk_payload :: "bytes \<Rightarrow> bytes \<Rightarrow> int \<Rightarrow> int \<Rightarrow> bytes \<Rightarrow> int \<Rightarrow> payload res" where
  "mk_payload sh ph ov ts fid ver = payload_check
     \<lparr>script_hash = sh, input_params_hash = ph, output_value = ov, timestamp_utc = ts,
      feed_id = fid, schema_version = ver\<rparr>"

subsection \<open>struct.pack and struct.unpack of \<open>>B32s32sqq32s\<close>\<close>

definition pack_B :: "int \<Rightarrow> bytes res" where
  "pack_B v = (if 0 \<le> v \<and> v \<le> 255 then Inr [word_of_int v]
     else raise StructError [T ''ubyte format requires 0 <= number <= 255''])"

text \<open>\<open>32s\<close> truncates or pads with zero bytes.\<close>

definition pack_32s :: "bytes \<Rightarrow> bytes" where
  "pack_32s b = take 32 b @ replicate (32 - length b) 0"

definition pack_q :: "int \<Rightarrow> bytes res" where
  "pack_q v = (if in_signed 64 v then Inr (be_bytes 8 v)
     else raise StructError [T ''int too large to convert''])"

definition pack_payload :: "int \<Rightarrow> bytes \<Rightarrow> bytes \<Rightarrow> int \<Rightarrow> int \<Rightarrow> bytes \<Rightarrow> bytes res" where
  "pack_payload ver sh ph ov ts fid =
     bindE (pack_B ver) (\<lambda>v. bindE (pack_q ov) (\<lambda>o'. bindE (pack_q ts) (\<lambda>t.
       Inr (v @ pack_32s sh @ pack_32s ph @ o' @ t @ pack_32s fid))))"

definition to_bytes :: "payload \<Rightarrow> bytes res" where
  "to_bytes p = bindE (pack_payload (schema_version p) (script_hash p) (input_params_hash p)
       (output_value p) (timestamp_utc p) (feed_id p)) (\<lambda>packed.
     bindE (guardE (length packed = PAYLOAD_LENGTH) AssertionError [T ''BUG: unexpected payload length''])
       (\<lambda>_. Inr packed))"

text \<open>The slice \<open>data[a:b]\<close>.\<close>

definition slice :: "nat \<Rightarrow> nat \<Rightarrow> 'a list \<Rightarrow> 'a list" where
  "slice a b xs = take (b - a) (drop a xs)"

definition from_bytes :: "bytes \<Rightarrow> payload res" where
  "from_bytes data =
     (if length data \<noteq> PAYLOAD_LENGTH
      then raise ValueError [T ''Expected '', I (int PAYLOAD_LENGTH), T '' bytes, got '', I (int (length data))]
      else mk_payload (slice 1 33 data) (slice 33 65 data) (int_from_bytes (slice 65 73 data))
        (int_from_bytes (slice 73 81 data)) (slice 81 113 data) (uint (data ! 0)))"

definition payload_to_dict :: "payload \<Rightarrow> json dict" where
  "payload_to_dict p =
     [(lit ''schema_version'', JInt (schema_version p)),
      (lit ''script_hash'', JStr (hex (script_hash p))),
      (lit ''input_params_hash'', JStr (hex (input_params_hash p))),
      (lit ''output_value'', JInt (output_value p)),
      (lit ''timestamp_utc'', JInt (timestamp_utc p)),
      (lit ''feed_id'', JStr (hex (feed_id p)))]"

section \<open>Ed25519\<close>

text \<open>
  The operations of the cryptography package the code calls: the public key, the seed and the
  signature of a private key, the key of a seed, PEM loading (a key of another algorithm is
  \<open>None\<close>), acceptance of raw public bytes, and verification.
\<close>

record 'k ed25519 =
  ed_public :: "'k \<Rightarrow> bytes"
  ed_seed :: "'k \<Rightarrow> bytes"
  ed_sign :: "'k \<Rightarrow> bytes \<Rightarrow> bytes"
  ed_from_seed :: "bytes \<Rightarrow> 'k"
  ed_load_pem :: "bytes \<Rightarrow> bytes option \<Rightarrow> 'k option res"
  ed_public_ok :: "bytes \<Rightarrow> bool"
  ed_verify :: "bytes \<Rightarrow> bytes \<Rightarrow> bytes \<Rightarrow> bool"

definition ed25519_laws :: "'k ed25519 \<Rightarrow> bool" where
  "ed25519_laws C \<longleftrightarrow>
     (\<forall>k. length (ed_public C k) = 32 \<and> ed_public_ok C (ed_public C k)) \<and>
     (\<forall>k m. length (ed_sign C k m) = 64) \<and>
     (\<forall>k m. ed_verify C (ed_public C k) (ed_sign C k m) m)"

text \<open>The signer is its private key.\<close>

definition signer_from_seed :: "'k ed25519 \<Rightarrow> bytes \<Rightarrow> 'k res" where
  "signer_from_seed C seed =
     (if length seed \<noteq> 32 then raise ValueError [T ''Ed25519 seed must be exactly 32 bytes'']
      else Inr (ed_from_seed C seed))"

definition signer_from_pem :: "'k ed25519 \<Rightarrow> pystr + bytes \<Rightarrow> bytes option \<Rightarrow> 'k res" where
  "signer_from_pem C pem_data password =
     bindE (case pem_data of Inl s \<Rightarrow> utf8_encode s | Inr b \<Rightarrow> Inr b) (\<lambda>pem.
     bindE (ed_load_pem C pem password) (\<lambda>private_key. case private_key of
       None \<Rightarrow> raise ValueError [T ''PEM key file does not contain an Ed25519 private key'']
     | Some k \<Rightarrow> Inr k))"

definition public_key_bytes :: "'k ed25519 \<Rightarrow> 'k \<Rightarrow> bytes" where
  "public_key_bytes C k = ed_public C k"

definition private_key_seed :: "'k ed25519 \<Rightarrow> 'k \<Rightarrow> bytes" where
  "private_key_seed C k = ed_seed C k"

definition sign :: "'k ed25519 \<Rightarrow> 'k \<Rightarrow> payload \<Rightarrow> bytes res" where
  "sign C k p = bindE (to_bytes p) (\<lambda>message. Inr (ed_sign C k message))"

record attestation =
  att_payload :: payload
  public_key :: bytes
  signature :: bytes

definition mk_attestation :: "payload \<Rightarrow> bytes \<Rightarrow> bytes \<Rightarrow> attestation res" where
  "mk_attestation p pk sg =
     (if length pk \<noteq> 32 then raise ValueError [T ''public_key must be 32 bytes'']
      else if length sg \<noteq> 64 then raise ValueError [T ''signature must be 64 bytes'']
      else Inr \<lparr>att_payload = p, public_key = pk, signature = sg\<rparr>)"

text \<open>The input parameters are a dictionary to hash, or a hash already.\<close>

datatype input_params = ParamsDict params | ParamsHash bytes

fun params_hash_of :: "input_params \<Rightarrow> bytes" where
  "params_hash_of (ParamsDict d) = canonical_params_hash d"
| "params_hash_of (ParamsHash h) = h"

definition attest :: "'k ed25519 \<Rightarrow> 'k \<Rightarrow> bytes \<Rightarrow> input_params \<Rightarrow> int \<Rightarrow> int \<Rightarrow> feed \<Rightarrow> attestation res" where
  "attest C k sh ip ov ts fid =
     bindE (pad_feed_id fid) (\<lambda>padded.
     bindE (mk_payload sh (params_hash_of ip) ov ts padded SCHEMA_VERSION) (\<lambda>p.
     bindE (sign C k p) (\<lambda>sg.
     mk_attestation p (public_key_bytes C k) sg)))"

definition mk_verifier :: "'k ed25519 \<Rightarrow> bytes \<Rightarrow> bytes res" where
  "mk_verifier C pk = (if ed_public_ok C pk then Inr pk
     else raise ValueError [T ''An Ed25519 public key is 32 bytes long''])"

text \<open>\<open>verify\<close> is false on any exception, a payload that cannot be packed included.\<close>

definition verify :: "'k ed25519 \<Rightarrow> bytes \<Rightarrow> attestation \<Rightarrow> bool" where
  "verify C pk a = (case to_bytes (att_payload a) of
     Inl e \<Rightarrow> False | Inr m \<Rightarrow> ed_verify C pk (signature a) m)"

section \<open>The envelope\<close>

definition attestation_to_dict :: "attestation \<Rightarrow> json dict" where
  "attestation_to_dict a =
     dict_set (lit ''signature'') (JStr (hex (signature a)))
       (dict_set (lit ''public_key'') (JStr (hex (public_key a))) (payload_to_dict (att_payload a)))"

text \<open>
  Reading the envelope: \<open>data[k]\<close> as the integer the dataclass declares, or through
  \<open>bytes.fromhex\<close>. A value of another JSON type is a TypeError.
\<close>

definition get_int :: "pystr \<Rightarrow> json dict \<Rightarrow> int res" where
  "get_int k d = bindE (dict_at k d) (\<lambda>v. case v of
     JInt i \<Rightarrow> Inr i | JBool b \<Rightarrow> Inr (if b then 1 else 0) | _ \<Rightarrow> raise TypeError [T ''an integer is required''])"

definition py_fromhex :: "pystr \<Rightarrow> bytes res" where
  "py_fromhex s = (case fromhex s of Some b \<Rightarrow> Inr b
     | None \<Rightarrow> raise ValueError [T ''non-hexadecimal number found in fromhex() arg''])"

definition get_hex :: "pystr \<Rightarrow> json dict \<Rightarrow> bytes res" where
  "get_hex k d = bindE (dict_at k d) (\<lambda>v. case v of
     JStr s \<Rightarrow> py_fromhex s | _ \<Rightarrow> raise TypeError [T ''fromhex() argument must be str''])"

definition attestation_from_dict :: "json dict \<Rightarrow> attestation res" where
  "attestation_from_dict data =
     bindE (get_int (lit ''schema_version'') data) (\<lambda>ver.
     bindE (get_hex (lit ''script_hash'') data) (\<lambda>sh.
     bindE (get_hex (lit ''input_params_hash'') data) (\<lambda>ph.
     bindE (get_int (lit ''output_value'') data) (\<lambda>ov.
     bindE (get_int (lit ''timestamp_utc'') data) (\<lambda>ts.
     bindE (get_hex (lit ''feed_id'') data) (\<lambda>fid.
     bindE (mk_payload sh ph ov ts fid ver) (\<lambda>p.
     bindE (get_hex (lit ''public_key'') data) (\<lambda>pk.
     bindE (get_hex (lit ''signature'') data) (\<lambda>sg.
     mk_attestation p pk sg)))))))))"


section \<open>Lemmas\<close>

text \<open>What \<open>__post_init__\<close> accepts, and what \<open>struct\<close> can pack.\<close>

definition payload_wf :: "payload \<Rightarrow> bool" where
  "payload_wf p \<longleftrightarrow> length (script_hash p) = 32 \<and> length (input_params_hash p) = 32 \<and>
     length (feed_id p) = 32 \<and> in_signed 64 (output_value p) \<and> in_signed 64 (timestamp_utc p)"

definition version_ok :: "payload \<Rightarrow> bool" where
  "version_ok p \<longleftrightarrow> 0 \<le> schema_version p \<and> schema_version p \<le> 255"

lemma payload_check_ok [res_simps]: "payload_check p = Inr q \<longleftrightarrow> q = p \<and> payload_wf p"
  by (auto simp: payload_check_def payload_wf_def in_signed_def res_simps split: if_splits)

lemma payload_check_wf: "payload_wf p \<Longrightarrow> payload_check p = Inr p"
  by (simp add: res_simps)

lemma mk_payload_ok [res_simps]:
  "mk_payload sh ph ov ts fid ver = Inr q \<longleftrightarrow>
     q = \<lparr>script_hash = sh, input_params_hash = ph, output_value = ov, timestamp_utc = ts,
          feed_id = fid, schema_version = ver\<rparr> \<and> payload_wf q"
  by (auto simp: mk_payload_def res_simps)

lemma pack_32s_id: "length b = 32 \<Longrightarrow> pack_32s b = b"
  by (simp add: pack_32s_def)

text \<open>The layout of the canonical bytes.\<close>

definition layout :: "payload \<Rightarrow> bytes" where
  "layout p = [word_of_int (schema_version p)] @ script_hash p @ input_params_hash p @
     be_bytes 8 (output_value p) @ be_bytes 8 (timestamp_utc p) @ feed_id p"

lemma length_layout: "payload_wf p \<Longrightarrow> length (layout p) = 113"
  by (simp add: layout_def payload_wf_def)

lemma to_bytes_layout: "payload_wf p \<Longrightarrow> version_ok p \<Longrightarrow> to_bytes p = Inr (layout p)"
proof -
  assume p: "payload_wf p" "version_ok p"
  then have "pack_payload (schema_version p) (script_hash p) (input_params_hash p)
      (output_value p) (timestamp_utc p) (feed_id p) = Inr (layout p)"
    by (simp add: pack_payload_def pack_B_def pack_q_def version_ok_def payload_wf_def
        pack_32s_id layout_def)
  then show ?thesis using p by (simp add: to_bytes_def length_layout PAYLOAD_LENGTH_def)
qed

lemma to_bytes_version: "to_bytes p = Inr bs \<Longrightarrow> version_ok p"
  by (auto simp: to_bytes_def pack_payload_def pack_B_def res_simps version_ok_def split: if_splits)

lemma slice_skip: "length xs = a \<Longrightarrow> slice (a + b) (a + c) (xs @ ys) = slice b c ys"
  by (simp add: slice_def)

lemma slice_head: "length xs = b \<Longrightarrow> slice 0 b (xs @ ys) = xs"
  by (simp add: slice_def)

lemma layout_slices:
  assumes "payload_wf p"
  shows "slice (Suc 0) 33 (layout p) = script_hash p" "slice 33 65 (layout p) = input_params_hash p"
    "slice 65 73 (layout p) = be_bytes 8 (output_value p)"
    "slice 73 81 (layout p) = be_bytes 8 (timestamp_utc p)"
    "slice 81 113 (layout p) = feed_id p"
    "layout p ! 0 = word_of_int (schema_version p)"
  using assms by (simp_all add: layout_def payload_wf_def slice_def)

lemma int_from_slices:
  assumes "payload_wf p"
  shows "int_from_bytes (be_bytes 8 (output_value p)) = output_value p"
    "int_from_bytes (be_bytes 8 (timestamp_utc p)) = timestamp_utc p"
  using assms int_from_be_bytes[of 8] by (simp_all add: payload_wf_def)

lemma uint_version: "version_ok p \<Longrightarrow> uint (word_of_int (schema_version p) :: byte) = schema_version p"
  by (simp add: uint_word_of_int version_ok_def)

lemma from_bytes_layout: "payload_wf p \<Longrightarrow> version_ok p \<Longrightarrow> from_bytes (layout p) = Inr p"
  by (simp add: from_bytes_def length_layout PAYLOAD_LENGTH_def int_from_slices layout_slices
      uint_version res_simps)

lemma from_bytes_ok:
  assumes "length data = 113"
  shows "\<exists>p. from_bytes data = Inr p \<and> payload_wf p \<and> version_ok p \<and> layout p = data"
proof -
  let ?p = "\<lparr>script_hash = slice 1 33 data, input_params_hash = slice 33 65 data,
    output_value = int_from_bytes (slice 65 73 data), timestamp_utc = int_from_bytes (slice 73 81 data),
    feed_id = slice 81 113 data, schema_version = uint (data ! 0)\<rparr>"
  have wf: "payload_wf ?p"
    using int_from_bytes_range[of "slice 65 73 data"] int_from_bytes_range[of "slice 73 81 data"] assms
    by (simp add: payload_wf_def slice_def)
  have v: "version_ok ?p" using uint_lt2p[of "data ! 0"] by (simp add: version_ok_def)
  have b: "be_bytes 8 (int_from_bytes (slice 65 73 data)) = slice 65 73 data"
    "be_bytes 8 (int_from_bytes (slice 73 81 data)) = slice 73 81 data"
    using be_bytes_from_bytes[of "slice 65 73 data"] be_bytes_from_bytes[of "slice 73 81 data"] assms
    by (simp_all add: slice_def)
  have d: "data = [data ! 0] @ slice 1 33 data @ slice 33 65 data @ slice 65 73 data @ slice 73 81 data @ slice 81 113 data"
  proof -
    have "data = take 1 data @ drop 1 data" by simp
    also have "take 1 data = [data ! 0]" using assms by (cases data) auto
    also have "drop 1 data = take 32 (drop 1 data) @ drop 33 data" using append_take_drop_id[of 32 "drop 1 data"] by simp
    also have "drop 33 data = take 32 (drop 33 data) @ drop 65 data" using append_take_drop_id[of 32 "drop 33 data"] by simp
    also have "drop 65 data = take 8 (drop 65 data) @ drop 73 data" using append_take_drop_id[of 8 "drop 65 data"] by simp
    also have "drop 73 data = take 8 (drop 73 data) @ drop 81 data" using append_take_drop_id[of 8 "drop 73 data"] by simp
    finally show ?thesis using assms by (simp add: slice_def)
  qed
  have "layout ?p = data"
    by (simp add: layout_def b) (rule d[symmetric, simplified])
  moreover have "from_bytes data = Inr ?p"
    using wf by (simp add: from_bytes_def assms PAYLOAD_LENGTH_def res_simps)
  ultimately show ?thesis using wf v by blast
qed

lemma layout_inject:
  "payload_wf p \<Longrightarrow> version_ok p \<Longrightarrow> payload_wf q \<Longrightarrow> version_ok q \<Longrightarrow> layout p = layout q \<longleftrightarrow> p = q"
  by (metis from_bytes_layout sum.inject(2))

text \<open>The payload codec as an instance of the fixed-width codec interface.\<close>

interpretation payload_codec: fixed_codec layout
  "\<lambda>bs. case from_bytes bs of Inr p \<Rightarrow> Some p | Inl _ \<Rightarrow> None"
  "\<lambda>p. payload_wf p \<and> version_ok p" 113
proof unfold_locales
  fix bs x
  assume "(case from_bytes bs of Inr p \<Rightarrow> Some p | Inl _ \<Rightarrow> None) = Some x"
  then have f: "from_bytes bs = Inr x" by (auto split: sum.splits)
  then have "length bs = 113" by (auto simp: from_bytes_def PAYLOAD_LENGTH_def res_simps split: if_splits)
  from from_bytes_ok[OF this] f show "payload_wf x \<and> version_ok x" by auto
next
  fix bs :: bytes
  assume "length bs = 113"
  from from_bytes_ok[OF this]
  show "\<exists>x. (case from_bytes bs of Inr p \<Rightarrow> Some p | Inl _ \<Rightarrow> None) = Some x \<and> layout x = bs" by auto
qed (auto simp: from_bytes_layout length_layout)

lemma pad_feed_id_ok:
  "pad_feed_id f = Inr b \<longleftrightarrow>
     (\<exists>raw. feed_raw f = Inr raw \<and> length raw \<le> 32 \<and> b = raw @ replicate (32 - length raw) 0)"
  by (cases "feed_raw f") (auto simp: pad_feed_id_def res_simps)

lemma pad_feed_id_length: "pad_feed_id f = Inr b \<Longrightarrow> length b = 32"
  by (auto simp: pad_feed_id_ok)

lemma strip_pad:
  fixes raw :: bytes
  assumes "raw = [] \<or> last raw \<noteq> 0"
  shows "rev (dropWhile (\<lambda>c. c = 0) (rev (raw @ replicate n (0 :: byte)))) = raw"
proof -
  have "dropWhile (\<lambda>c. c = 0) (replicate n 0 @ xs) = dropWhile (\<lambda>c. c = (0 :: byte)) xs" for xs
    by (induction n) auto
  then have "dropWhile (\<lambda>c. c = 0) (rev (raw @ replicate n 0)) = dropWhile (\<lambda>c. c = (0 :: byte)) (rev raw)"
    by simp
  also have "\<dots> = rev raw"
    using assms by (simp add: dropWhile_eq_self_iff hd_rev)
  finally show ?thesis by simp
qed

lemma attest_ok:
  assumes "attest C k sh ip ov ts fid = Inr a"
  shows "\<exists>padded. pad_feed_id fid = Inr padded \<and>
    att_payload a = \<lparr>script_hash = sh, input_params_hash = params_hash_of ip, output_value = ov,
      timestamp_utc = ts, feed_id = padded, schema_version = SCHEMA_VERSION\<rparr> \<and>
    payload_wf (att_payload a) \<and> version_ok (att_payload a) \<and>
    public_key a = ed_public C k \<and> signature a = ed_sign C k (layout (att_payload a)) \<and>
    length (public_key a) = 32 \<and> length (signature a) = 64"
  using assms
  by (auto simp: attest_def res_simps sign_def mk_attestation_def to_bytes_layout version_ok_def
      SCHEMA_VERSION_def public_key_bytes_def split: if_splits)

lemma attest_total:
  assumes "ed25519_laws C" "length sh = 32" "length (params_hash_of ip) = 32"
    "in_signed 64 ov" "in_signed 64 ts" "pad_feed_id fid = Inr padded"
  shows "\<exists>a. attest C k sh ip ov ts fid = Inr a"
proof -
  let ?p = "\<lparr>script_hash = sh, input_params_hash = params_hash_of ip, output_value = ov,
      timestamp_utc = ts, feed_id = padded, schema_version = SCHEMA_VERSION\<rparr>"
  have wf: "payload_wf ?p" using assms pad_feed_id_length by (simp add: payload_wf_def)
  have v: "version_ok ?p" by (simp add: version_ok_def SCHEMA_VERSION_def)
  have mk: "mk_payload sh (params_hash_of ip) ov ts padded SCHEMA_VERSION = Inr ?p"
    using wf by (simp add: res_simps)
  have "sign C k ?p = Inr (ed_sign C k (layout ?p))"
    using wf v by (simp add: sign_def to_bytes_layout)
  then show ?thesis using assms(1)
    by (simp add: attest_def assms(6) mk mk_attestation_def ed25519_laws_def public_key_bytes_def)
qed

lemma length_canonical_params_hash [simp]: "length (canonical_params_hash d) = 32"
  by (simp add: canonical_params_hash_def)

end
