(* ===== verification/Json_Parse.thy ===== *)
theory Json_Parse
  imports Json
begin

text \<open>
  \<open>json.loads\<close>: a fuelled recursive-descent parser of JSON text with Python's extensions
  (NaN, Infinity, -Infinity), strict about control characters; a repeated key keeps its first
  place and its last value. Parsing the canonical text of a value gives the value back in
  canonical form, with fuel twice the length of the text.
\<close>

section \<open>Numbers\<close>

definition is_digit :: "nat \<Rightarrow> bool" where
  "is_digit c \<longleftrightarrow> 48 \<le> c \<and> c \<le> 57"

definition num_char :: "nat \<Rightarrow> bool" where
  "num_char c \<longleftrightarrow> is_digit c \<or> c = 43 \<or> c = 45 \<or> c = 46 \<or> c = 69 \<or> c = 101"

definition digits_val :: "pystr \<Rightarrow> int" where
  "digits_val ds = foldl (\<lambda>a c. a * 10 + int (c - 48)) 0 ds"

text \<open>An optional sign, then at least one digit up to the end of the text.\<close>

definition exp_val :: "pystr \<Rightarrow> int option" where
  "exp_val s = (let (neg, ds) = (case s of
       c # r \<Rightarrow> if c = 45 then (True, r) else if c = 43 then (False, r) else (False, s)
     | [] \<Rightarrow> (False, [])) in
     if ds \<noteq> [] \<and> list_all is_digit ds
     then Some (if neg then - digits_val ds else digits_val ds) else None)"

definition frac_part :: "pystr \<Rightarrow> (pystr \<times> pystr) option" where
  "frac_part r = (case r of
     c # r' \<Rightarrow> if c = 46 then
         (let f = takeWhile is_digit r' in if f = [] then None else Some (f, dropWhile is_digit r'))
       else Some ([], r)
   | [] \<Rightarrow> Some ([], []))"

definition number_of :: "pystr \<Rightarrow> json option" where
  "number_of t = (let
     neg = (t \<noteq> [] \<and> hd t = 45);
     u = (if neg then tl t else t);
     ip = takeWhile is_digit u;
     r = dropWhile is_digit u
   in if ip = [] \<or> (hd ip = 48 \<and> 1 < length ip) then None
      else if r = [] then Some (JInt (if neg then - digits_val ip else digits_val ip))
      else (case frac_part r of
        None \<Rightarrow> None
      | Some (f, r2) \<Rightarrow>
          (case (case r2 of [] \<Rightarrow> Some 0 | c # r3 \<Rightarrow> if c = 69 \<or> c = 101 then exp_val r3 else None) of
             None \<Rightarrow> None
           | Some e \<Rightarrow> let m = of_int (digits_val (ip @ f)) * pow10 (e - int (length f))
               in Some (JFloat (fl (if neg then - m else m))))))"

section \<open>Strings\<close>

fun cons_unit :: "nat \<Rightarrow> (pystr \<times> pystr) option \<Rightarrow> (pystr \<times> pystr) option" where
  "cons_unit c None = None"
| "cons_unit c (Some (s, r)) = Some (c # s, r)"

definition simple_escape :: "nat \<Rightarrow> nat option" where
  "simple_escape c =
     (if c = 34 \<or> c = 92 \<or> c = 47 then Some c
      else if c = 98 then Some 8 else if c = 102 then Some 12 else if c = 110 then Some 10
      else if c = 114 then Some 13 else if c = 116 then Some 9 else None)"

definition hex4_val :: "nat \<Rightarrow> nat \<Rightarrow> nat \<Rightarrow> nat \<Rightarrow> nat option" where
  "hex4_val a b c d = (case (hex_val a, hex_val b, hex_val c, hex_val d) of
     (Some w, Some x, Some y, Some z) \<Rightarrow> Some (w * 4096 + x * 256 + y * 16 + z)
   | _ \<Rightarrow> None)"

text \<open>The code units up to the closing quote; surrogate pairs are joined afterwards.\<close>

fun scan_units :: "pystr \<Rightarrow> (pystr \<times> pystr) option" where
  "scan_units [] = None"
| "scan_units (c # s) =
     (if c = 34 then Some ([], s)
      else if c = 92 then (case s of
          [] \<Rightarrow> None
        | e # s' \<Rightarrow> if e = 117 then (case s' of
              h1 # h2 # h3 # h4 # s'' \<Rightarrow> (case hex4_val h1 h2 h3 h4 of
                None \<Rightarrow> None | Some v \<Rightarrow> cons_unit v (scan_units s''))
            | _ \<Rightarrow> None)
          else (case simple_escape e of None \<Rightarrow> None | Some v \<Rightarrow> cons_unit v (scan_units s')))
      else if c < 32 then None
      else cons_unit c (scan_units s))"

fun join_surrogates :: "pystr \<Rightarrow> pystr" where
  "join_surrogates (h # l # s) =
     (if 0xD800 \<le> h \<and> h \<le> 0xDBFF \<and> 0xDC00 \<le> l \<and> l \<le> 0xDFFF
      then (0x10000 + (h - 0xD800) * 1024 + (l - 0xDC00)) # join_surrogates s
      else h # join_surrogates (l # s))"
| "join_surrogates s = s"

definition scan_string :: "pystr \<Rightarrow> (pystr \<times> pystr) option" where
  "scan_string s = map_option (\<lambda>(u, r). (join_surrogates u, r)) (scan_units s)"

section \<open>Values\<close>

definition is_ws :: "nat \<Rightarrow> bool" where
  "is_ws c \<longleftrightarrow> c = 32 \<or> c = 9 \<or> c = 10 \<or> c = 13"

abbreviation skip_ws :: "pystr \<Rightarrow> pystr" where
  "skip_ws \<equiv> dropWhile is_ws"

text \<open>A constant by its text.\<close>

fun strip_prefix :: "pystr \<Rightarrow> pystr \<Rightarrow> pystr option" where
  "strip_prefix [] s = Some s"
| "strip_prefix (p # ps) (c # s) = (if p = c then strip_prefix ps s else None)"
| "strip_prefix (p # ps) [] = None"

definition constants :: "(pystr \<times> json) list" where
  "constants = [(lit ''null'', JNull), (lit ''true'', JBool True), (lit ''false'', JBool False),
     (lit ''NaN'', JFloat NaN), (lit ''Infinity'', JFloat PInf), (lit ''-Infinity'', JFloat NInf)]"

fun scan_constant :: "(pystr \<times> json) list \<Rightarrow> pystr \<Rightarrow> (json \<times> pystr) option" where
  "scan_constant [] s = None"
| "scan_constant ((p, v) # cs) s = (case strip_prefix p s of
     Some r \<Rightarrow> Some (v, r) | None \<Rightarrow> scan_constant cs s)"

text \<open>A maximal run of number characters must be one number, else no delimiter can follow it.\<close>

definition scan_number :: "pystr \<Rightarrow> (json \<times> pystr) option" where
  "scan_number s = map_option (\<lambda>v. (v, dropWhile num_char s)) (number_of (takeWhile num_char s))"

definition scan_atom :: "pystr \<Rightarrow> (json \<times> pystr) option" where
  "scan_atom s = (case scan_constant constants s of Some x \<Rightarrow> Some x | None \<Rightarrow> scan_number s)"

fun scan_value :: "nat \<Rightarrow> pystr \<Rightarrow> (json \<times> pystr) option"
  and scan_elems :: "nat \<Rightarrow> pystr \<Rightarrow> (json list \<times> pystr) option"
  and scan_members :: "nat \<Rightarrow> pystr \<Rightarrow> ((pystr \<times> json) list \<times> pystr) option" where
  "scan_value 0 s = None"
| "scan_value (Suc n) s = (case s of
     [] \<Rightarrow> None
   | c # r \<Rightarrow>
       if c = 34 then map_option (\<lambda>(t, r). (JStr t, r)) (scan_string r)
       else if c = 91 then
         (if skip_ws r \<noteq> [] \<and> hd (skip_ws r) = 93 then Some (JList [], tl (skip_ws r))
          else map_option (\<lambda>(xs, r). (JList xs, r)) (scan_elems n (skip_ws r)))
       else if c = 123 then
         (if skip_ws r \<noteq> [] \<and> hd (skip_ws r) = 125 then Some (JDict [], tl (skip_ws r))
          else map_option (\<lambda>(kvs, r). (JDict (dict_of kvs), r)) (scan_members n (skip_ws r)))
       else scan_atom s)"
| "scan_elems 0 s = None"
| "scan_elems (Suc n) s = (case scan_value n s of
     None \<Rightarrow> None
   | Some (v, r) \<Rightarrow> (case skip_ws r of
       [] \<Rightarrow> None
     | c # r' \<Rightarrow> if c = 93 then Some ([v], r')
         else if c = 44 then map_option (\<lambda>(vs, r). (v # vs, r)) (scan_elems n (skip_ws r'))
         else None))"
| "scan_members 0 s = None"
| "scan_members (Suc n) s = (case s of
     [] \<Rightarrow> None
   | q # s' \<Rightarrow> if q \<noteq> 34 then None else (case scan_string s' of
       None \<Rightarrow> None
     | Some (k, r) \<Rightarrow> (case skip_ws r of
         [] \<Rightarrow> None
       | d # r' \<Rightarrow> if d \<noteq> 58 then None else (case scan_value n (skip_ws r') of
           None \<Rightarrow> None
         | Some (v, r2) \<Rightarrow> (case skip_ws r2 of
             [] \<Rightarrow> None
           | e # r3 \<Rightarrow> if e = 125 then Some ([(k, v)], r3)
               else if e = 44 then map_option (\<lambda>(kvs, r). ((k, v) # kvs, r)) (scan_members n (skip_ws r3))
               else None)))))"

definition loads :: "pystr \<Rightarrow> json res" where
  "loads s = (case scan_value (2 * length s + 2) (skip_ws s) of
     Some (v, r) \<Rightarrow> if skip_ws r = [] then Inr v else raise JSONDecodeError [T ''Extra data'']
   | None \<Rightarrow> raise JSONDecodeError [T ''Expecting value''])"

text \<open>\<open>json.loads(content.decode("utf-8"))\<close>.\<close>

definition loads_bytes :: "bytes \<Rightarrow> json res" where
  "loads_bytes bs = bindE (utf8_decode bs) loads"

section \<open>Round trip\<close>

lemma digits_val_snoc: "digits_val (ds @ [c]) = digits_val ds * 10 + int (c - 48)"
  by (simp add: digits_val_def)

lemma digits_val_dec_nat: "0 \<le> n \<Longrightarrow> digits_val (dec_nat n) = n"
proof (induction n rule: dec_nat.induct)
  case (1 n)
  show ?case
  proof (cases "n < 10")
    case True
    with "1.prems" show ?thesis by (subst dec_nat.simps) (simp add: digits_val_def)
  next
    case False
    with 1 have "digits_val (dec_nat (n div 10)) = n div 10" by simp
    moreover have "dec_nat n = dec_nat (n div 10) @ [48 + nat (n mod 10)]"
      using False by (subst dec_nat.simps) simp
    ultimately show ?thesis by (simp add: digits_val_snoc)
  qed
qed

lemma hd_dec_nat: "0 < n \<Longrightarrow> hd (dec_nat n) \<noteq> 48"
proof (induction n rule: dec_nat.induct)
  case (1 n)
  show ?case
  proof (cases "n < 10")
    case True
    with "1.prems" show ?thesis by (subst dec_nat.simps) simp
  next
    case False
    with 1 have "hd (dec_nat (n div 10)) \<noteq> 48" by simp
    moreover have "dec_nat n = dec_nat (n div 10) @ [48 + nat (n mod 10)]"
      using False by (subst dec_nat.simps) simp
    ultimately show ?thesis by simp
  qed
qed

lemma dec_nat_0 [simp]: "dec_nat 0 = [48]"
  by (subst dec_nat.simps) simp

lemma is_digit_dec_nat: "c \<in> set (dec_nat n) \<Longrightarrow> is_digit c"
  using dec_nat_digits by (simp add: is_digit_def)

lemma takeWhile_dec_nat [simp]:
  "takeWhile is_digit (dec_nat n) = dec_nat n" "dropWhile is_digit (dec_nat n) = []"
  by (simp_all add: takeWhile_eq_all_conv is_digit_dec_nat)

lemma number_of_dec_int: "number_of (dec_int i) = Some (JInt i)"
proof -
  have h: "hd (dec_nat n) \<noteq> 45" for n
    using is_digit_dec_nat[of "hd (dec_nat n)" n] by (auto simp: is_digit_def)
  have z: "\<not> (hd (dec_nat n) = 48 \<and> Suc 0 < length (dec_nat n))" if "0 \<le> n" for n
    using hd_dec_nat[of n] that by (cases "n = 0") auto
  show ?thesis
    using h z[of i] z[of "- i"] digits_val_dec_nat[of i] digits_val_dec_nat[of "- i"]
    by (cases "i < 0") (auto simp: number_of_def dec_int_def Let_def)
qed

text \<open>What may follow a value in a JSON text.\<close>

definition delim :: "pystr \<Rightarrow> bool" where
  "delim r \<longleftrightarrow> r = [] \<or> hd r \<in> {44, 93, 125} \<or> is_ws (hd r)"

lemma scan_number_text:
  assumes "number_of t = Some v" "list_all num_char t" "delim r"
  shows "scan_number (t @ r) = Some (v, r)"
proof -
  have "takeWhile num_char r = []" "dropWhile num_char r = r"
    using assms(3) by (cases r; auto simp: delim_def num_char_def is_digit_def is_ws_def)+
  with assms show ?thesis
    by (simp add: scan_number_def takeWhile_append2 dropWhile_append2 list_all_iff)
qed

text \<open>A finite double whose printed text reads back as itself (executable).\<close>

definition float_text_ok :: "pyfloat \<Rightarrow> bool" where
  "float_text_ok f \<longleftrightarrow> (case f of
     Fin x \<Rightarrow> number_of (float_repr f) = Some (JFloat f) \<and> list_all num_char (float_repr f)
   | _ \<Rightarrow> True)"

fun json_ok :: "json \<Rightarrow> bool" where
  "json_ok (JFloat f) = float_text_ok f"
| "json_ok (JStr s) = valid_text s"
| "json_ok (JList xs) = list_all json_ok xs"
| "json_ok (JDict kvs) = (distinct (dict_keys kvs) \<and> list_all (\<lambda>(k, v). valid_text k \<and> json_ok v) kvs)"
| "json_ok v = True"


subsection \<open>Strings\<close>

definition code_units :: "nat \<Rightarrow> nat list" where
  "code_units c = (if c < 0x10000 then [c]
     else [0xD800 + (c - 0x10000) div 1024 mod 1024, 0xDC00 + (c - 0x10000) mod 1024])"

lemma hex4_round:
  assumes "v < 65536"
  shows "hex4_val (hex_digit (v div 4096 mod 16)) (hex_digit (v div 256 mod 16))
     (hex_digit (v div 16 mod 16)) (hex_digit (v mod 16)) = Some v"
proof -
  have a: "v div 256 = v div 16 div 16" "v div 4096 = v div 256 div 16"
    by (simp_all add: div_mult2_eq[symmetric])
  have b: "v div 4096 < 16" using assms by auto
  have "v div 16 * 16 + v mod 16 = v" "v div 256 * 16 + v div 16 mod 16 = v div 16"
    "v div 4096 * 16 + v div 256 mod 16 = v div 256"
    using div_mult_mod_eq[of "v div 16" 16] div_mult_mod_eq[of "v div 256" 16] b
    unfolding a[symmetric] by simp_all
  then have "v div 4096 * 4096 + v div 256 mod 16 * 256 + v div 16 mod 16 * 16 + v mod 16 = v"
    by linarith
  moreover have "v div 4096 mod 16 = v div 4096" using b by simp
  ultimately show ?thesis by (simp add: hex4_val_def hex_digit_val b)
qed

lemma scan_u_escape:
  "v < 65536 \<Longrightarrow> scan_units (u_escape v @ s) = cons_unit v (scan_units s)"
  using hex4_round[of v] by (simp add: u_escape_def hex4_def)

lemma scan_esc_char:
  assumes "c \<le> 0x10FFFF"
  shows "scan_units (esc_char c @ s) = foldr cons_unit (code_units c) (scan_units s)"
proof -
  consider "c \<in> {34, 92, 10, 13, 9, 8, 12}" | "c \<notin> {34, 92, 10, 13, 9, 8, 12}" "32 \<le> c" "c \<le> 126"
    | "c \<notin> {34, 92, 10, 13, 9, 8, 12}" "\<not> (32 \<le> c \<and> c \<le> 126)" "c < 0x10000"
    | "0x10000 \<le> c" by linarith
  then show ?thesis
  proof cases
    case 1
    then show ?thesis by (auto simp: esc_char_def simple_escape_def code_units_def)
  next
    case 2
    then show ?thesis by (simp add: esc_char_def code_units_def)
  next
    case 3
    then have "esc_char c = u_escape c" by (auto simp: esc_char_def)
    with 3 show ?thesis by (simp add: scan_u_escape code_units_def del: scan_units.simps)
  next
    case 4
    then have e: "esc_char c = u_escape (0xD800 + (c - 0x10000) div 1024 mod 1024)
        @ u_escape (0xDC00 + (c - 0x10000) mod 1024)" by (simp add: esc_char_def)
    have "(c - 0x10000) div 1024 mod 1024 < 1024" "(c - 0x10000) mod 1024 < 1024" by simp_all
    then have "0xD800 + (c - 0x10000) div 1024 mod 1024 < 65536"
      "0xDC00 + (c - 0x10000) mod 1024 < 65536" by linarith+
    with 4 show ?thesis by (simp add: e scan_u_escape code_units_def del: scan_units.simps)
  qed
qed

lemma foldr_cons_unit: "foldr cons_unit us (Some (t, r)) = Some (us @ t, r)"
  by (induction us) auto

lemma scan_units_string:
  "valid_text s \<Longrightarrow> scan_units (concat (map esc_char s) @ 34 # r) = Some (concat (map code_units s), r)"
proof (induction s)
  case (Cons c s)
  then have "c \<le> 0x10FFFF" "valid_text s" by (auto simp: valid_text_def scalar_def)
  with Cons.IH show ?case by (simp add: scan_esc_char foldr_cons_unit del: scan_units.simps)
qed simp

lemma join_units: "scalar c \<Longrightarrow> join_surrogates (code_units c @ s) = c # join_surrogates s"
proof (cases "c < 0x10000")
  case True
  assume "scalar c"
  with True show ?thesis by (cases s) (auto simp: code_units_def scalar_def is_surrogate_def)
next
  case False
  assume c: "scalar c"
  define d where "d = c - 0x10000"
  have d: "c = 0x10000 + d" "d < 1048576" using False c by (auto simp: d_def scalar_def)
  have "d div 1024 < 1024" using d by auto
  then have q: "d div 1024 mod 1024 = d div 1024" by simp
  have m: "d div 1024 \<le> 1023" "d mod 1024 \<le> 1023"
    using \<open>d div 1024 < 1024\<close> mod_less_divisor[of 1024 d] by linarith+
  have "d div 1024 * 1024 + d mod 1024 = d" by simp
  with m False show ?thesis by (simp add: code_units_def d q)
qed

lemma join_surrogates_units: "valid_text s \<Longrightarrow> join_surrogates (concat (map code_units s)) = s"
  by (induction s) (auto simp: valid_text_def join_units)

lemma scan_json_string:
  "valid_text s \<Longrightarrow> scan_string (concat (map esc_char s) @ 34 # r) = Some (s, r)"
  by (simp add: scan_string_def scan_units_string join_surrogates_units)

subsection \<open>Values\<close>

text \<open>The first character of a printed value decides its branch of the parser.\<close>

lemma scan_constant_num: "num_char c \<Longrightarrow> c \<noteq> 45 \<Longrightarrow> scan_constant constants (c # s) = None"
  by (auto simp: constants_def lit_def num_char_def is_digit_def)

lemma scan_constant_neg: "is_digit d \<Longrightarrow> scan_constant constants (45 # d # s) = None"
  by (auto simp: constants_def lit_def is_digit_def)

lemma num_char_dec_int: "list_all num_char (dec_int i)"
  using is_digit_dec_nat by (auto simp: dec_int_def list_all_iff num_char_def)

lemma number_of_head:
  assumes "number_of t = Some v"
  shows "\<exists>d s. is_digit d \<and> (t = d # s \<or> t = 45 # d # s)"
proof -
  have tw: "takeWhile is_digit u \<noteq> [] \<Longrightarrow> \<exists>d s. is_digit d \<and> u = d # s" for u
    by (cases u) (auto split: if_splits)
  let ?u = "if t \<noteq> [] \<and> hd t = 45 then tl t else t"
  have "takeWhile is_digit ?u \<noteq> []"
    using assms by (auto simp: number_of_def Let_def split: if_splits)
  then obtain d s where "is_digit d" "?u = d # s" using tw by blast
  then show ?thesis by (cases t) (auto split: if_splits)
qed

lemma scan_value_number:
  assumes "number_of t = Some v" "list_all num_char t" "delim r"
  shows "scan_value (Suc n) (t @ r) = Some (v, r)"
proof -
  obtain d s where d: "is_digit d" and t: "t = d # s \<or> t = 45 # d # s"
    using number_of_head[OF assms(1)] by blast
  from t have "scan_constant constants (t @ r) = None"
  proof
    assume "t = d # s"
    with d show ?thesis by (auto intro!: scan_constant_num simp: num_char_def is_digit_def)
  qed (auto intro!: scan_constant_neg d)
  then have "scan_atom (t @ r) = Some (v, r)"
    using assms by (simp add: scan_atom_def scan_number_text)
  with t d show ?thesis by (auto simp: is_digit_def)
qed

lemma strip_prefix_append: "strip_prefix p (p @ r) = Some r"
  by (induction p) auto

lemma scan_value_constant:
  assumes "(p, v) \<in> set constants"
  shows "scan_value (Suc n) (p @ r) = Some (v, r)"
  using assms by (auto simp: constants_def lit_def scan_atom_def)

text \<open>A printed value does not start with white space or a closing bracket.\<close>

definition value_start :: "pystr \<Rightarrow> bool" where
  "value_start s \<longleftrightarrow> s \<noteq> [] \<and> \<not> is_ws (hd s) \<and> hd s \<noteq> 93 \<and> hd s \<noteq> 125"

lemma value_start_number: "number_of t = Some v \<Longrightarrow> value_start (t @ r)"
  using number_of_head[of t v] by (auto simp: value_start_def is_digit_def is_ws_def)

lemma value_start_skip: "value_start s \<Longrightarrow> skip_ws s = s"
  by (cases s) (auto simp: value_start_def)

lemma value_start_raw: "json_ok v \<Longrightarrow> value_start (raw v @ r)"
proof (cases v)
  case (JInt i)
  then show ?thesis using value_start_number[OF number_of_dec_int] by simp
next
  case (JFloat f)
  assume "json_ok v"
  with JFloat show ?thesis
    by (cases f) (auto simp: float_text_ok_def intro: value_start_number simp del: float_repr.simps(1),
      auto simp: value_start_def lit_def is_ws_def)
qed (auto simp: value_start_def lit_def is_ws_def json_string_def)

section \<open>Layouts\<close>

text \<open>A text of a value with any white space between its tokens. All the ways in which the code prints
  JSON are layouts, and the parser reads every layout.\<close>

abbreviation blank :: "pystr \<Rightarrow> bool" where
  "blank s \<equiv> list_all is_ws s"

fun is_atom :: "json \<Rightarrow> bool" where
  "is_atom (JList xs) = False"
| "is_atom (JDict kvs) = False"
| "is_atom v = True"

inductive laid_out :: "json \<Rightarrow> pystr \<Rightarrow> bool"
  and elems_laid_out :: "json list \<Rightarrow> pystr \<Rightarrow> bool"
  and members_laid_out :: "json dict \<Rightarrow> pystr \<Rightarrow> bool" where
  atom: "is_atom v \<Longrightarrow> laid_out v (dumps v)"
| no_elems: "blank a \<Longrightarrow> laid_out (JList []) (91 # a @ [93])"
| elems: "blank a \<Longrightarrow> elems_laid_out xs s \<Longrightarrow> laid_out (JList xs) (91 # a @ s @ [93])"
| no_members: "blank a \<Longrightarrow> laid_out (JDict []) (123 # a @ [125])"
| members: "blank a \<Longrightarrow> members_laid_out kvs s \<Longrightarrow> laid_out (JDict kvs) (123 # a @ s @ [125])"
| last_elem: "laid_out v s \<Longrightarrow> blank a \<Longrightarrow> elems_laid_out [v] (s @ a)"
| more_elems: "laid_out v s \<Longrightarrow> blank a \<Longrightarrow> blank b \<Longrightarrow> elems_laid_out vs t \<Longrightarrow> elems_laid_out (v # vs) (s @ a @ 44 # b @ t)"
| last_member: "laid_out v s \<Longrightarrow> blank a \<Longrightarrow> blank b \<Longrightarrow> blank c \<Longrightarrow> members_laid_out [(k, v)] (json_string k @ a @ 58 # b @ s @ c)"
| more_members: "laid_out v s \<Longrightarrow> blank a \<Longrightarrow> blank b \<Longrightarrow> blank c \<Longrightarrow> blank d \<Longrightarrow> members_laid_out kvs t \<Longrightarrow>
    members_laid_out ((k, v) # kvs) (json_string k @ a @ 58 # b @ s @ c @ 44 # d @ t)"

lemma delim_ws: "blank a \<Longrightarrow> delim r \<Longrightarrow> delim (a @ r)"
  by (cases a) (auto simp: delim_def)

lemma skip_ws_over: "blank a \<Longrightarrow> skip_ws (a @ r) = skip_ws r"
  by (induction a) auto

lemma value_start_append: "value_start s \<Longrightarrow> value_start (s @ r)"
  by (simp add: value_start_def)

lemma value_start_laid_out: "laid_out v s \<Longrightarrow> json_ok v \<Longrightarrow> value_start (s @ r)"
proof (induction rule: laid_out.cases)
  case (atom v)
  then show ?case using value_start_raw[of v r] by (cases v) simp_all
qed (auto simp: value_start_def is_ws_def)

lemma value_start_elems: "elems_laid_out vs s \<Longrightarrow> list_all json_ok vs \<Longrightarrow> value_start (s @ r)"
  by (cases rule: elems_laid_out.cases) (auto intro: value_start_laid_out)

lemma quote_members: "members_laid_out kvs s \<Longrightarrow> \<exists>t. s = 34 # t"
  by (cases rule: members_laid_out.cases) (auto simp: json_string_def)

lemma scan_atom_value:
  assumes "json_ok v" "is_atom v" "delim r"
  shows "scan_value (Suc m) (dumps v @ r) = Some (v, r)"
proof (cases v)
  case (JFloat f)
  show ?thesis
  proof (cases f)
    case (Fin x)
    then show ?thesis using JFloat assms scan_value_number[of "float_repr f" "JFloat f" r m]
      by (simp add: float_text_ok_def)
  qed (use JFloat scan_value_constant[of "float_repr f" "JFloat f" m r] in \<open>simp_all add: constants_def\<close>)
qed (use assms scan_value_constant[of "lit ''null''" JNull m r] scan_value_constant[of "lit ''true''" "JBool True" m r]
    scan_value_constant[of "lit ''false''" "JBool False" m r] scan_value_number[OF number_of_dec_int num_char_dec_int] in
  \<open>auto simp: constants_def json_string_def scan_json_string\<close>)

lemma scan_laid_out:
  "laid_out v s \<Longrightarrow> json_ok v \<Longrightarrow> 2 * length s \<le> n \<Longrightarrow> delim r \<Longrightarrow> scan_value n (s @ r) = Some (v, r)"
  "elems_laid_out vs s \<Longrightarrow> list_all json_ok vs \<Longrightarrow> 2 * length s < n \<Longrightarrow> scan_elems n (s @ 93 # r) = Some (vs, r)"
  "members_laid_out kvs s \<Longrightarrow> list_all (\<lambda>(k, v). valid_text k \<and> json_ok v) kvs \<Longrightarrow> 2 * length s < n \<Longrightarrow>
    scan_members n (s @ 125 # r) = Some (kvs, r)"
proof (induction arbitrary: n r and n r and n r rule: laid_out_elems_laid_out_members_laid_out.inducts)
  case (atom v)
  have "dumps v \<noteq> []" using value_start_raw[OF atom(2), of "[]"] atom(1) by (cases v) (simp_all add: value_start_def)
  then obtain m where "n = Suc m" using atom(3) by (cases n) auto
  then show ?case using scan_atom_value atom by simp
next
  case (no_elems a)
  then obtain m where "n = Suc m" by (cases n) auto
  then show ?case using no_elems by (simp add: skip_ws_over is_ws_def)
next
  case (elems a xs s)
  then obtain m where n: "n = Suc m" by (cases n) auto
  have v: "value_start (s @ 93 # r)" using value_start_elems[OF elems(2)] elems.prems by simp
  then have "skip_ws (a @ s @ 93 # r) = s @ 93 # r" "s @ 93 # r \<noteq> []" "hd (s @ 93 # r) \<noteq> 93"
    using elems(1) by (auto simp: skip_ws_over value_start_skip value_start_def)
  then show ?case using elems.IH[of m r] elems.prems by (simp add: n)
next
  case (no_members a)
  then obtain m where "n = Suc m" by (cases n) auto
  then show ?case using no_members by (simp add: skip_ws_over is_ws_def)
next
  case (members a kvs s)
  then obtain m where n: "n = Suc m" by (cases n) auto
  obtain t where t: "s = 34 # t" using quote_members[OF members(2)] by blast
  then have "skip_ws (a @ s @ 125 # r) = s @ 125 # r"
    using members(1) by (simp add: skip_ws_over is_ws_def)
  moreover have "dict_of kvs = kvs" using members.prems by (simp add: dict_of_distinct)
  ultimately show ?case using members.IH[of m r] members.prems t by (simp add: n)
next
  case (last_elem v s a)
  then obtain m where n: "n = Suc m" by (cases n) auto
  have "scan_value m (s @ a @ 93 # r) = Some (v, a @ 93 # r)"
    using last_elem n by (intro last_elem.IH delim_ws) (auto simp: delim_def)
  then show ?case using last_elem(2) by (simp add: n skip_ws_over is_ws_def)
next
  case (more_elems v s a b vs t)
  then obtain m where n: "n = Suc m" by (cases n) auto
  let ?r = "44 # b @ t @ 93 # r"
  have "scan_value m (s @ a @ ?r) = Some (v, a @ ?r)"
    using more_elems.prems more_elems(2) n by (intro more_elems.IH delim_ws) (auto simp: delim_def)
  moreover have "skip_ws (b @ t @ 93 # r) = t @ 93 # r"
    using value_start_skip[OF value_start_elems[OF more_elems(4)]] more_elems.prems more_elems(3) by (simp add: skip_ws_over)
  moreover have "scan_elems m (t @ 93 # r) = Some (vs, r)" using more_elems.prems n by (intro more_elems.IH) auto
  ultimately show ?case using more_elems(2) by (simp add: n skip_ws_over is_ws_def)
next
  case (last_member v s a b c k)
  then obtain m where n: "n = Suc m" by (cases n) auto
  have k: "valid_text k" "json_ok v" using last_member.prems by simp_all
  have v: "scan_value m (s @ c @ 125 # r) = Some (v, c @ 125 # r)"
    using last_member n by (intro last_member.IH delim_ws) (auto simp: delim_def)
  moreover have "skip_ws (b @ s @ c @ 125 # r) = s @ c @ 125 # r"
    using value_start_skip[OF value_start_laid_out[OF last_member(1) k(2)]] last_member(3) by (simp add: skip_ws_over)
  ultimately show ?case using last_member(2,4) k
    by (simp add: n json_string_def scan_json_string skip_ws_over is_ws_def)
next
  case (more_members v s a b c d kvs t k)
  then obtain m where n: "n = Suc m" by (cases n) auto
  have k: "valid_text k" "json_ok v" using more_members.prems by simp_all
  let ?r = "44 # d @ t @ 125 # r"
  have "scan_value m (s @ c @ ?r) = Some (v, c @ ?r)"
    using more_members.prems more_members(4) n by (intro more_members.IH delim_ws) (auto simp: delim_def)
  moreover have "skip_ws (b @ s @ c @ ?r) = s @ c @ ?r"
    using value_start_skip[OF value_start_laid_out[OF more_members(1) k(2)]] more_members(3) by (simp add: skip_ws_over)
  moreover have "skip_ws (d @ t @ 125 # r) = t @ 125 # r"
    using quote_members[OF more_members(6)] more_members(5) by (auto simp: skip_ws_over is_ws_def)
  moreover have "scan_members m (t @ 125 # r) = Some (kvs, r)" using more_members.prems n by (intro more_members.IH) auto
  ultimately show ?case using more_members(2,4) k
    by (simp add: n json_string_def scan_json_string skip_ws_over is_ws_def)
qed

lemmas atoms = atom[of JNull, simplified] atom[of "JBool b" for b, simplified] atom[of "JInt i" for i, simplified]
  atom[of "JFloat f" for f, simplified] atom[of "JStr t" for t, simplified]

text \<open>The compact text is a layout.\<close>

lemma elems_joined:
  assumes "\<And>v. v \<in> set vs \<Longrightarrow> laid_out v (f v)" "vs \<noteq> []" "blank a" "blank b" "blank c"
  shows "elems_laid_out vs (join (a @ 44 # b) (map f vs) @ c)"
  using assms
proof (induction vs)
  case (Cons v vs)
  show ?case
  proof (cases vs)
    case Nil
    then show ?thesis using last_elem[of v "f v" c] Cons.prems by simp
  next
    case (Cons w us)
    then have "join (a @ 44 # b) (map f (v # vs)) @ c = f v @ a @ 44 # b @ join (a @ 44 # b) (map f vs) @ c" by simp
    then show ?thesis using more_elems[of v "f v" a b vs] Cons.IH Cons.prems Cons by simp
  qed
qed simp

lemma members_joined:
  assumes "\<And>k v. (k, v) \<in> set kvs \<Longrightarrow> laid_out v (f v)" "kvs \<noteq> []" "blank a" "blank b" "blank c" "blank d"
  shows "members_laid_out kvs (join (a @ 44 # b) (map (\<lambda>(k, v). json_string k @ 58 # d @ f v) kvs) @ c)"
  using assms
proof (induction kvs)
  case (Cons kv kvs)
  obtain k v where kv: "kv = (k, v)" by (cases kv)
  show ?case
  proof (cases kvs)
    case Nil
    then show ?thesis using last_member[of v "f v" "[]" d c k] Cons.prems kv by simp
  next
    case (Cons w us)
    let ?t = "\<lambda>kvs. join (a @ 44 # b) (map (\<lambda>(k, v). json_string k @ 58 # d @ f v) kvs) @ c"
    from Cons have j: "?t (kv # kvs) = json_string k @ [] @ 58 # d @ f v @ a @ 44 # b @ ?t kvs" by (simp add: kv)
    have "members_laid_out kvs (?t kvs)" using Cons.prems Cons by (intro Cons.IH) auto
    moreover have "laid_out v (f v)" using Cons.prems(1)[of k v] kv by simp
    ultimately show ?thesis unfolding j unfolding kv using Cons.prems by (intro more_members) simp_all
  qed
qed simp

lemma laid_out_raw: "laid_out v (raw v)"
proof (induction v)
  case (JList xs)
  then show ?case using elems_joined[of xs raw "[]" "[]" "[]"] elems[of "[]" xs] no_elems[of "[]"]
    by (cases "xs = []") simp_all
next
  case (JDict kvs)
  have "laid_out v (raw v)" if "(k, v) \<in> set kvs" for k v using JDict[of "(k, v)" v] that by (simp add: snds.simps)
  then have "kvs \<noteq> [] \<Longrightarrow> members_laid_out kvs (join ([] @ 44 # []) (map (\<lambda>(k, v). json_string k @ 58 # [] @ raw v) kvs) @ [])"
    by (intro members_joined) auto
  then show ?case using members[of "[]" kvs] no_members[of "[]"] by (cases "kvs = []") (simp_all add: member_text_def comp_def case_prod_beta')
qed (simp_all add: atoms)

lemma loads_laid_out:
  assumes "laid_out v s" "json_ok v" "blank a" "blank b"
  shows "loads (a @ s @ b) = Inr v"
proof -
  have "scan_value (2 * length (a @ s @ b) + 2) (s @ b) = Some (v, b)"
    using scan_laid_out(1)[OF assms(1,2), of "2 * length (a @ s @ b) + 2" b] delim_ws[OF assms(4), of "[]"]
    by (simp add: delim_def)
  moreover have "skip_ws (a @ s @ b) = s @ b"
    using value_start_skip[OF value_start_laid_out[OF assms(1,2), of b]] assms(3) by (simp add: skip_ws_over)
  moreover have "skip_ws b = []" using skip_ws_over[OF assms(4), of "[]"] by simp
  ultimately show ?thesis by (simp add: loads_def)
qed

lemma json_ok_canon: "json_ok v \<Longrightarrow> json_ok (canon v)"
proof (induction v)
  case (JList xs)
  then show ?case by (auto simp: list_all_iff)
next
  case (JDict kvs)
  let ?l = "map (\<lambda>(k, v). (k, canon v)) kvs"
  have "distinct (dict_keys ?l)" using JDict.prems by (simp add: comp_def split_beta)
  then have "distinct (dict_keys (sort_key fst ?l))"
    by (metis mset_eq_imp_distinct_iff mset_map mset_sort)
  moreover have "json_ok (canon v) \<and> valid_text k" if "(k, v) \<in> set kvs" for k v
    using JDict that by (auto simp: list_all_iff snds.simps)
  ultimately show ?case by (auto simp: list_all_iff)
qed auto

lemma loads_dumps: "json_ok v \<Longrightarrow> loads (dumps v) = Inr (canon v)"
  using loads_laid_out[OF laid_out_raw json_ok_canon, of v "[]" "[]"] by (simp add: dumps_raw)

lemma loads_bytes_dumps: "json_ok v \<Longrightarrow> loads_bytes (dumps_bytes v) = Inr (canon v)"
  by (simp add: loads_bytes_def dumps_bytes_decode loads_dumps)

text \<open>Two values with the same canonical text are the same up to dictionary order.\<close>

lemma dumps_inject: "json_ok v \<Longrightarrow> json_ok w \<Longrightarrow> dumps v = dumps w \<longleftrightarrow> canon v = canon w"
  using loads_dumps[of v] loads_dumps[of w] by (metis dumps_raw sum.inject(2))

end
