(* ===== verification/Attestation_Properties.thy ===== *)
theory Attestation_Properties
  imports Attestation Json_Parse
begin

text \<open>
  What the attestation component promises: an attestation verifies and carries what was asked
  for, the 113-byte layout and the hex envelope round-trip, the bytes that are signed determine
  the payload, and the parameter hash does not depend on the order of the parameters.
\<close>

section \<open>A concrete signature scheme\<close>

text \<open>
  A scheme that satisfies the laws, to show that they can hold: the seed is both keys and the
  signature is the seed with the last 32 bytes of the message.
\<close>

definition echo_scheme :: "bytes ed25519" where
  "echo_scheme = \<lparr>ed_public = pack_32s, ed_seed = pack_32s,
     ed_sign = (\<lambda>k m. pack_32s k @ pack_32s (rev m)),
     ed_from_seed = (\<lambda>s. s), ed_load_pem = (\<lambda>pem pw. Inr (Some pem)),
     ed_public_ok = (\<lambda>b. length b = 32),
     ed_verify = (\<lambda>pk sg m. sg = pk @ pack_32s (rev m))\<rparr>"

lemma length_pack_32s [simp]: "length (pack_32s b) = 32"
  by (simp add: pack_32s_def min_def)

lemma echo_laws: "ed25519_laws echo_scheme"
  by (simp add: ed25519_laws_def echo_scheme_def)

section \<open>Signing and verifying\<close>

text \<open>C16: an attestation that the signer produces is accepted by the verifier built from the
  public key it carries, and its payload holds the script hash, the parameter hash, the value, the
  time, the feed padded to 32 bytes and schema version 1.\<close>

theorem attest_verifies:
  assumes "ed25519_laws C" "attest C k sh ip ov ts fid = Inr a"
  shows "mk_verifier C (public_key a) = Inr (public_key a) \<and> verify C (public_key a) a \<and>
    length (public_key a) = 32 \<and> length (signature a) = 64 \<and>
    (\<exists>padded. pad_feed_id fid = Inr padded \<and> length padded = 32 \<and>
      att_payload a = \<lparr>script_hash = sh, input_params_hash = params_hash_of ip, output_value = ov,
        timestamp_utc = ts, feed_id = padded, schema_version = 1\<rparr>)"
proof -
  from attest_ok[OF assms(2)] obtain padded where a: "pad_feed_id fid = Inr padded"
    "att_payload a = \<lparr>script_hash = sh, input_params_hash = params_hash_of ip, output_value = ov,
      timestamp_utc = ts, feed_id = padded, schema_version = SCHEMA_VERSION\<rparr>"
    "payload_wf (att_payload a)" "version_ok (att_payload a)"
    "public_key a = ed_public C k" "signature a = ed_sign C k (layout (att_payload a))"
    "length (public_key a) = 32" "length (signature a) = 64" by blast
  have "verify C (public_key a) a"
    using a(3-6) assms(1) by (simp add: verify_def to_bytes_layout ed25519_laws_def)
  then show ?thesis
    using a assms(1) pad_feed_id_length[OF a(1)]
    by (auto simp: mk_verifier_def ed25519_laws_def SCHEMA_VERSION_def)
qed

lemma attest_verifies_witness:
  "\<exists>a. attest echo_scheme (replicate 32 7) (replicate 32 1) (ParamsHash (replicate 32 2)) (-5) 1700000000
      (FBytes [1, 2, 3]) = Inr a \<and> verify echo_scheme (public_key a) a"
proof -
  have "\<exists>a. attest echo_scheme (replicate 32 7) (replicate 32 1) (ParamsHash (replicate 32 2)) (-5) 1700000000
      (FBytes [1, 2, 3]) = Inr a"
    by (rule attest_total[of _ _ _ _ _ _ "[1, 2, 3] @ replicate 29 0"])
      (simp_all add: echo_laws in_signed_def pad_feed_id_def)
  then obtain a where "attest echo_scheme (replicate 32 7) (replicate 32 1) (ParamsHash (replicate 32 2)) (-5)
      1700000000 (FBytes [1, 2, 3]) = Inr a" by blast
  with attest_verifies[OF echo_laws this] show ?thesis by blast
qed

text \<open>C27: the signer succeeds exactly on a 32-byte script hash, a 32-byte parameter hash, a value and
  a time in the 64-bit signed range, and a feed identifier that encodes to at most 32 bytes.\<close>

theorem attest_succeeds_iff:
  assumes "ed25519_laws C"
  shows "(\<exists>a. attest C k sh ip ov ts fid = Inr a) \<longleftrightarrow>
    length sh = 32 \<and> length (params_hash_of ip) = 32 \<and> in_signed 64 ov \<and> in_signed 64 ts \<and>
    (\<exists>raw. feed_raw fid = Inr raw \<and> length raw \<le> 32)"
proof
  assume "\<exists>a. attest C k sh ip ov ts fid = Inr a"
  then obtain a where "attest C k sh ip ov ts fid = Inr a" ..
  from attest_ok[OF this] show "length sh = 32 \<and> length (params_hash_of ip) = 32 \<and> in_signed 64 ov \<and>
      in_signed 64 ts \<and> (\<exists>raw. feed_raw fid = Inr raw \<and> length raw \<le> 32)"
    by (auto simp: payload_wf_def pad_feed_id_ok)
next
  assume a: "length sh = 32 \<and> length (params_hash_of ip) = 32 \<and> in_signed 64 ov \<and>
      in_signed 64 ts \<and> (\<exists>raw. feed_raw fid = Inr raw \<and> length raw \<le> 32)"
  then obtain raw where "pad_feed_id fid = Inr (raw @ replicate (32 - length raw) 0)"
    by (auto simp: pad_feed_id_ok)
  with a show "\<exists>a. attest C k sh ip ov ts fid = Inr a" by (intro attest_total[OF assms]) auto
qed

lemma attest_succeeds_iff_witness:
  "\<not> (\<exists>a. attest echo_scheme [] (replicate 32 1) (ParamsHash []) 0 0 (FBytes [9]) = Inr a)"
  using attest_succeeds_iff[OF echo_laws, of "[]" "replicate 32 1" "ParamsHash []" 0 0 "FBytes [9]"]
  by simp

section \<open>The canonical bytes\<close>

text \<open>A payload that packs gives 113 bytes that unpack to the same payload.\<close>

theorem payload_roundtrip:
  assumes "payload_wf p" "to_bytes p = Inr bs"
  shows "length bs = PAYLOAD_LENGTH \<and> from_bytes bs = Inr p"
  using assms to_bytes_version[OF assms(2)]
  by (auto simp: to_bytes_layout length_layout from_bytes_layout PAYLOAD_LENGTH_def)

definition sample_payload :: payload where
  "sample_payload = \<lparr>script_hash = replicate 32 1, input_params_hash = replicate 32 2,
     output_value = -5, timestamp_utc = 1700000000, feed_id = replicate 32 3, schema_version = 1\<rparr>"

lemma sample_wf: "payload_wf sample_payload" "version_ok sample_payload"
  by (simp_all add: sample_payload_def payload_wf_def version_ok_def in_signed_def)

lemma payload_roundtrip_witness:
  "from_bytes (layout sample_payload) = Inr sample_payload \<and> length (layout sample_payload) = PAYLOAD_LENGTH"
  using payload_roundtrip[OF sample_wf(1) to_bytes_layout[OF sample_wf]] by simp

text \<open>C28: any 113 bytes unpack to a payload the constructor accepts, and packing it gives the same
  bytes; any other length is the error that names both lengths.\<close>

theorem from_bytes_total:
  "(length data = 113 \<and> (\<exists>p. from_bytes data = Inr p \<and> payload_wf p \<and> to_bytes p = Inr data)) \<or>
   (length data \<noteq> 113 \<and> from_bytes data =
      raise ValueError [T ''Expected '', I 113, T '' bytes, got '', I (int (length data))])"
  using from_bytes_ok[of data] to_bytes_layout
  by (cases "length data = 113") (auto simp: from_bytes_def PAYLOAD_LENGTH_def)

text \<open>C9: what is signed determines what is attested: two payloads with the same canonical bytes are
  equal, so a signature cannot be moved to another value, time, feed or hash.\<close>

theorem to_bytes_injective:
  assumes "payload_wf p" "payload_wf q" "to_bytes p = Inr bs" "to_bytes q = Inr bs"
  shows "p = q"
  using assms to_bytes_version[OF assms(3)] to_bytes_version[OF assms(4)] layout_inject[of p q]
  by (simp add: to_bytes_layout)

lemma to_bytes_injective_witness:
  "sample_payload\<lparr>schema_version := 1\<rparr> = sample_payload"
  by (rule to_bytes_injective[OF _ sample_wf(1) _ to_bytes_layout[OF sample_wf]])
    (simp_all add: to_bytes_layout sample_payload_def payload_wf_def version_ok_def in_signed_def)

section \<open>The envelope\<close>

text \<open>The hex envelope of an attestation reads back as the attestation.\<close>

theorem envelope_roundtrip:
  assumes "payload_wf (att_payload a)" "length (public_key a) = 32" "length (signature a) = 64"
  shows "attestation_from_dict (attestation_to_dict a) = Inr a"
proof -
  obtain p pk sg where a: "a = \<lparr>att_payload = p, public_key = pk, signature = sg\<rparr>" by (cases a)
  obtain sh ph ov ts fid ver where p: "p = \<lparr>script_hash = sh, input_params_hash = ph, output_value = ov,
      timestamp_utc = ts, feed_id = fid, schema_version = ver\<rparr>" by (cases p)
  have "payload_check p = Inr p" using assms(1) by (simp add: a payload_check_wf)
  then show ?thesis using assms(2,3)
    by (simp add: a p attestation_from_dict_def attestation_to_dict_def payload_to_dict_def get_int_def
        get_hex_def dict_at_def py_fromhex_def mk_payload_def mk_attestation_def)
qed

lemma envelope_roundtrip_witness:
  "attestation_from_dict (attestation_to_dict
     \<lparr>att_payload = sample_payload, public_key = replicate 32 4, signature = replicate 64 5\<rparr>)
   = Inr \<lparr>att_payload = sample_payload, public_key = replicate 32 4, signature = replicate 64 5\<rparr>"
  by (rule envelope_roundtrip) (simp_all add: sample_wf)

section \<open>The parameter hash\<close>

text \<open>C26: the parameter hash depends on the parameters only up to the order of their keys, and the
  bytes that are hashed determine the parameters up to that order at every depth.\<close>

theorem params_hash_canonical:
  assumes "json_ok (JDict p)" "json_ok (JDict q)"
  shows "(dumps_bytes (JDict p) = dumps_bytes (JDict q) \<longleftrightarrow> canon (JDict p) = canon (JDict q)) \<and>
    (canon (JDict p) = canon (JDict q) \<longrightarrow> canonical_params_hash p = canonical_params_hash q) \<and>
    length (canonical_params_hash p) = 32"
proof -
  have e: "dumps_bytes (JDict p) = dumps_bytes (JDict q) \<longleftrightarrow> canon (JDict p) = canon (JDict q)"
    using dumps_inject[OF assms] by (simp only: dumps_bytes_inject)
  then have "canon (JDict p) = canon (JDict q) \<longrightarrow> canonical_params_hash p = canonical_params_hash q"
    by (metis canonical_params_hash_def)
  with e show ?thesis by (simp only: length_canonical_params_hash simp_thms)
qed

lemma params_hash_canonical_witness:
  "canonical_params_hash [(lit ''b'', JInt 1), (lit ''a'', JNull)]
   = canonical_params_hash [(lit ''a'', JNull), (lit ''b'', JInt 1)]"
  using params_hash_canonical[of "[(lit ''b'', JInt 1), (lit ''a'', JNull)]" "[(lit ''a'', JNull), (lit ''b'', JInt 1)]"]
  by (simp add: lit_def valid_text_def scalar_def is_surrogate_def)

text \<open>A feed identifier is padded with zero bytes and never truncated: the raw bytes come back
  from the padded ones when they do not end in a zero byte, and more than 32 bytes are an error.\<close>

theorem pad_feed_id_faithful:
  assumes "feed_raw f = Inr enc" "enc = [] \<or> last enc \<noteq> 0"
  shows "(length enc \<le> 32 \<longrightarrow> (\<exists>b. pad_feed_id f = Inr b \<and> length b = 32 \<and>
      rev (dropWhile (\<lambda>c. c = 0) (rev b)) = enc)) \<and>
    (32 < length enc \<longrightarrow> pad_feed_id f =
      raise ValueError [T ''feed_id exceeds 32 bytes: '', I (int (length enc)), T '' bytes given''])"
  using assms strip_pad[OF assms(2)] by (auto simp: pad_feed_id_def)

lemma pad_feed_id_faithful_witness:
  "\<exists>b. pad_feed_id (FBytes [1, 2]) = Inr b \<and> length b = 32 \<and> rev (dropWhile (\<lambda>c. c = 0) (rev b)) = [1, 2]"
  using pad_feed_id_faithful[of "FBytes [1, 2]" "[1, 2]"] by simp

end
