(* ===== verification/Py_Num.thy ===== *)
theory Py_Num
  imports Py_Float
begin

text \<open>
  Python numbers: unbounded integers and doubles, with the mixed arithmetic of the language
  (an integer operand is converted to a double when the other is one, which raises
  OverflowError beyond the double range) and the exact mixed comparison. Also the numeric
  parts of the standard library the program calls: \<open>statistics.median\<close>, \<open>int()\<close> and
  \<open>round()\<close> of a float, \<open>sum\<close> of floats.
\<close>

datatype pynum = PInt int | PFloat pyfloat

text \<open>\<open>float(n)\<close>.\<close>

definition float_of_int :: "int \<Rightarrow> pyfloat res" where
  "float_of_int n = (case fl (of_int n) of
     Fin q \<Rightarrow> Inr (Fin q)
   | _ \<Rightarrow> raise OverflowError [T ''int too large to convert to float''])"

fun num_float :: "pynum \<Rightarrow> pyfloat res" where
  "num_float (PInt n) = float_of_int n"
| "num_float (PFloat f) = Inr f"

definition num_arith ::
    "(int \<Rightarrow> int \<Rightarrow> int) \<Rightarrow> (pyfloat \<Rightarrow> pyfloat \<Rightarrow> pyfloat) \<Rightarrow> pynum \<Rightarrow> pynum \<Rightarrow> pynum res" where
  "num_arith iop fop a b = (case (a, b) of
     (PInt m, PInt n) \<Rightarrow> Inr (PInt (iop m n))
   | _ \<Rightarrow> bindE (num_float a) (\<lambda>x. bindE (num_float b) (\<lambda>y. Inr (PFloat (fop x y)))))"

definition num_add :: "pynum \<Rightarrow> pynum \<Rightarrow> pynum res" where
  "num_add = num_arith (+) f_add"

definition num_sub :: "pynum \<Rightarrow> pynum \<Rightarrow> pynum res" where
  "num_sub = num_arith (-) f_sub"

definition num_mul :: "pynum \<Rightarrow> pynum \<Rightarrow> pynum res" where
  "num_mul = num_arith (*) f_mul"

text \<open>Comparison is exact: an integer is not rounded to be compared with a float.\<close>

fun num_ext :: "pynum \<Rightarrow> pyfloat" where
  "num_ext (PInt n) = Fin (of_int n)"
| "num_ext (PFloat f) = f"

definition num_le :: "pynum \<Rightarrow> pynum \<Rightarrow> bool" where
  "num_le a b \<longleftrightarrow> num_ext a \<le> num_ext b"

definition num_lt :: "pynum \<Rightarrow> pynum \<Rightarrow> bool" where
  "num_lt a b \<longleftrightarrow> num_ext a < num_ext b"

definition num_eq :: "pynum \<Rightarrow> pynum \<Rightarrow> bool" where
  "num_eq a b \<longleftrightarrow> f_eq (num_ext a) (num_ext b)"

fun num_abs :: "pynum \<Rightarrow> pynum" where
  "num_abs (PInt n) = PInt \<bar>n\<bar>"
| "num_abs (PFloat f) = PFloat (f_abs f)"

text \<open>\<open>x / 2\<close>: of an integer, the correctly rounded quotient, out of range an error.\<close>

fun num_half :: "pynum \<Rightarrow> pynum res" where
  "num_half (PInt n) = (case fl (of_int n / 2) of
     Fin q \<Rightarrow> Inr (PFloat (Fin q))
   | _ \<Rightarrow> raise OverflowError [T ''integer division result too large for a float''])"
| "num_half (PFloat f) = Inr (PFloat (f_div_fin f 2))"

definition num_key :: "pynum \<Rightarrow> int \<times> rat" where
  "num_key a = f_key (num_ext a)"

text \<open>\<open>statistics.median\<close>: the middle of the sorted data, or half the sum of the two.\<close>

definition median :: "pynum list \<Rightarrow> pynum res" where
  "median data = (let s = sort_key num_key data; n = length s in
     if n = 0 then raise (OtherException (lit ''StatisticsError'')) [T ''no median for empty data'']
     else if odd n then Inr (s ! (n div 2))
     else bindE (num_add (s ! (n div 2 - 1)) (s ! (n div 2))) num_half)"

text \<open>\<open>int(f)\<close> truncates towards zero; \<open>round(f)\<close> rounds half to even.\<close>

definition rat_trunc :: "rat \<Rightarrow> int" where
  "rat_trunc q = (if 0 \<le> q then \<lfloor>q\<rfloor> else \<lceil>q\<rceil>)"

fun int_of_float :: "pyfloat \<Rightarrow> int res" where
  "int_of_float (Fin q) = Inr (rat_trunc q)"
| "int_of_float NaN = raise ValueError [T ''cannot convert float NaN to integer'']"
| "int_of_float _ = raise OverflowError [T ''cannot convert float infinity to integer'']"

fun round_float :: "pyfloat \<Rightarrow> int res" where
  "round_float (Fin q) = Inr (rhe q)"
| "round_float NaN = raise ValueError [T ''cannot convert float NaN to integer'']"
| "round_float _ = raise OverflowError [T ''cannot convert float infinity to integer'']"

text \<open>\<open>sum\<close> of floats, left to right from zero (the interpreter of the CI is 3.11).\<close>

definition f_sum :: "pyfloat list \<Rightarrow> pyfloat" where
  "f_sum xs = foldl f_add (Fin 0) xs"

section \<open>Lemmas\<close>

lemma num_arith_ints [simp]:
  "num_add (PInt m) (PInt n) = Inr (PInt (m + n))"
  "num_sub (PInt m) (PInt n) = Inr (PInt (m - n))"
  "num_mul (PInt m) (PInt n) = Inr (PInt (m * n))"
  by (simp_all add: num_add_def num_sub_def num_mul_def num_arith_def)

lemma num_arith_floats [simp]:
  "num_add (PFloat x) (PFloat y) = Inr (PFloat (f_add x y))"
  "num_sub (PFloat x) (PFloat y) = Inr (PFloat (f_sub x y))"
  "num_mul (PFloat x) (PFloat y) = Inr (PFloat (f_mul x y))"
  by (simp_all add: num_add_def num_sub_def num_mul_def num_arith_def)

lemma num_cmp [simp]:
  "num_le (PInt m) (PInt n) = (m \<le> n)"
  "num_lt (PInt m) (PInt n) = (m < n)"
  "num_eq (PInt m) (PInt n) = (m = n)"
  "num_le (PInt m) (PFloat (Fin q)) = (of_int m \<le> q)"
  "num_le (PFloat (Fin q)) (PInt m) = (q \<le> of_int m)"
  "num_le (PFloat (Fin p)) (PFloat (Fin q)) = (p \<le> q)"
  by (auto simp: num_le_def num_lt_def num_eq_def f_eq_def)

lemma float_of_int_exact: "\<bar>m\<bar> \<le> 2 ^ 53 \<Longrightarrow> float_of_int m = Inr (Fin (of_int m))"
  by (simp add: float_of_int_def fl_exact_int)

lemma float_of_int_ok:
  "float_of_int m = Inr f \<longleftrightarrow> fl (of_int m) = f \<and> (\<exists>q. f = Fin q)"
  by (auto simp: float_of_int_def res_simps split: pyfloat.splits)

lemma num_mixed_exact:
  "\<bar>m\<bar> \<le> 2 ^ 53 \<Longrightarrow> num_add (PInt m) (PFloat f) = Inr (PFloat (f_add (Fin (of_int m)) f))"
  "\<bar>m\<bar> \<le> 2 ^ 53 \<Longrightarrow> num_sub (PInt m) (PFloat f) = Inr (PFloat (f_sub (Fin (of_int m)) f))"
  "\<bar>m\<bar> \<le> 2 ^ 53 \<Longrightarrow> num_mul (PFloat f) (PInt m) = Inr (PFloat (f_mul f (Fin (of_int m))))"
  by (simp_all add: num_add_def num_sub_def num_mul_def num_arith_def float_of_int_exact)

lemma f_sub_Fin [simp]: "f_sub (Fin a) (Fin b) = fl (a - b)"
  by (simp add: f_sub_def)

lemma rat_trunc_of_int [simp]: "rat_trunc (of_int n) = n"
  by (simp add: rat_trunc_def)

lemma num_le_trans: "num_le a b \<Longrightarrow> num_le b c \<Longrightarrow> num_le a c"
  unfolding num_le_def by (cases "num_ext a"; cases "num_ext b"; cases "num_ext c") auto

lemma num_key_le_iff:
  "num_ext a \<noteq> NaN \<Longrightarrow> num_ext b \<noteq> NaN \<Longrightarrow> num_key a \<le> num_key b \<longleftrightarrow> num_le a b"
  unfolding num_key_def num_le_def
  by (cases "num_ext a"; cases "num_ext b") (auto simp: less_eq_prod_def)

end
