(* ===== verification/Aggregation.thy ===== *)
theory Aggregation
  imports Py_Num Json
begin

text \<open>
  \<open>oracle_bridge/aggregation.py\<close>: price sources, the aggregation configuration, outlier
  rejection (IQR and MAD) and the weighted median, in the floating-point arithmetic of the code.
  The locale \<open>outlier_filter\<close> is the contract between the rejection methods and
  \<open>aggregate\<close>: the sources are split by a predicate, in order, into those accepted and the
  identifiers of the others.
\<close>

datatype outlier_method = IQR | MAD | NONE

fun method_value :: "outlier_method \<Rightarrow> pystr" where
  "method_value IQR = lit ''iqr''"
| "method_value MAD = lit ''mad''"
| "method_value NONE = lit ''none''"

record price_source =
  ps_id :: pystr
  ps_value :: int
  ps_weight :: pyfloat
  ps_meta :: "json dict"

text \<open>\<open>__post_init__\<close>: a weight that is not positive is refused (NaN passes the test).\<close>

definition mk_price_source :: "pystr \<Rightarrow> int \<Rightarrow> pyfloat \<Rightarrow> json dict \<Rightarrow> price_source res" where
  "mk_price_source i v w m =
     (if w \<le> Fin 0 then raise ValueError [T ''Weight must be positive, got '', S (float_str w)]
      else Inr \<lparr>ps_id = i, ps_value = v, ps_weight = w, ps_meta = m\<rparr>)"

record agg_config =
  cfg_sources :: "pystr list"
  cfg_weights :: "pyfloat dict"
  cfg_method :: outlier_method
  cfg_iqr :: pyfloat
  cfg_mad :: pyfloat
  cfg_min :: int

text \<open>The defaults of the dataclass: 1.5, 2.24 and one source.\<close>

definition default_iqr :: pyfloat where "default_iqr = fl (3/2)"
definition default_mad :: pyfloat where "default_mad = fl (224/100)"

definition mk_agg_config ::
    "pystr list \<Rightarrow> pyfloat dict \<Rightarrow> outlier_method \<Rightarrow> pyfloat \<Rightarrow> pyfloat \<Rightarrow> int \<Rightarrow> agg_config res" where
  "mk_agg_config srcs ws meth im mm mn =
     bindE (mapE (\<lambda>s. guardE (s \<in> set (dict_keys ws)) ValueError
       [T ''Source '', S s, T '' not in weights dict'']) srcs) (\<lambda>_.
     bindE (mapE (\<lambda>(s, w). guardE (\<not> w \<le> Fin 0) ValueError
       [T ''Weight for '', S s, T '' must be positive, got '', S (float_str w)]) ws) (\<lambda>_.
     bindE (guardE (1 \<le> mn) ValueError [T ''min_sources_after_rejection must be at least 1'']) (\<lambda>_.
     Inr \<lparr>cfg_sources = srcs, cfg_weights = ws, cfg_method = meth, cfg_iqr = im, cfg_mad = mm,
          cfg_min = mn\<rparr>)))"

record agg_result =
  ar_value :: int
  ar_source_values :: "int dict"
  ar_weights :: "pyfloat dict"
  ar_rejected :: "pystr list"
  ar_method :: pystr
  ar_outlier :: pystr

section \<open>Percentiles\<close>

definition num_to_int :: "pynum \<Rightarrow> int res" where
  "num_to_int a = (case a of PInt n \<Rightarrow> Inr n | PFloat f \<Rightarrow> int_of_float f)"

definition percentile :: "int list \<Rightarrow> int \<Rightarrow> pynum res" where
  "percentile values p =
     (if values = [] then raise ValueError [T ''Empty values list'']
      else let sorted_vals = sort values; n = int (length sorted_vals) in
        bindE (num_mul (PFloat (fl (of_int p / 100))) (PInt (n + 1))) (\<lambda>rank.
        if num_lt rank (PInt 1) then bindE (float_of_int (sorted_vals ! 0)) (\<lambda>f. Inr (PFloat f))
        else if num_le (PInt n) rank then bindE (float_of_int (last sorted_vals)) (\<lambda>f. Inr (PFloat f))
        else bindE (num_to_int rank) (\<lambda>r.
          let lower_idx = r - 1; upper_idx = lower_idx + 1 in
          if n \<le> upper_idx
          then bindE (float_of_int (sorted_vals ! nat lower_idx)) (\<lambda>f. Inr (PFloat f))
          else bindE (num_sub rank (PInt (lower_idx + 1))) (\<lambda>fraction.
            let lower_val = sorted_vals ! nat lower_idx; upper_val = sorted_vals ! nat upper_idx in
            bindE (num_mul fraction (PInt (upper_val - lower_val))) (\<lambda>d.
            num_add (PInt lower_val) d)))))"

section \<open>Outlier rejection\<close>

type_synonym split = "price_source list \<times> pystr list"

definition split_by :: "(price_source \<Rightarrow> bool) \<Rightarrow> price_source list \<Rightarrow> split" where
  "split_by P sources = (filter P sources, map ps_id (filter (\<lambda>s. \<not> P s) sources))"

definition iqr_bounds :: "pyfloat \<Rightarrow> int list \<Rightarrow> (pynum \<times> pynum) res" where
  "iqr_bounds multiplier values =
     bindE (percentile values 25) (\<lambda>q1.
     bindE (percentile values 75) (\<lambda>q3.
     bindE (num_sub q3 q1) (\<lambda>iqr.
     bindE (num_mul (PFloat multiplier) iqr) (\<lambda>d1.
     bindE (num_sub q1 d1) (\<lambda>lower_bound.
     bindE (num_mul (PFloat multiplier) iqr) (\<lambda>d2.
     bindE (num_add q3 d2) (\<lambda>upper_bound.
     Inr (lower_bound, upper_bound))))))))"

definition reject_outliers_iqr :: "agg_config \<Rightarrow> price_source list \<Rightarrow> split res" where
  "reject_outliers_iqr cfg sources =
     (if length sources \<le> 2 then Inr (sources, [])
      else bindE (iqr_bounds (cfg_iqr cfg) (map ps_value sources)) (\<lambda>(lower_bound, upper_bound).
        Inr (split_by (\<lambda>s. num_le lower_bound (PInt (ps_value s)) \<and>
          num_le (PInt (ps_value s)) upper_bound) sources)))"

text \<open>The distance of an integer value to the median.\<close>

definition deviation :: "pynum \<Rightarrow> int \<Rightarrow> pynum res" where
  "deviation med v = bindE (num_sub (PInt v) med) (\<lambda>d. Inr (num_abs d))"

definition reject_outliers_mad :: "agg_config \<Rightarrow> price_source list \<Rightarrow> split res" where
  "reject_outliers_mad cfg sources =
     (if length sources \<le> 1 then Inr (sources, [])
      else let values = map ps_value sources in
        bindE (median (map PInt values)) (\<lambda>med.
        bindE (mapE (deviation med) values) (\<lambda>abs_deviations.
        bindE (median abs_deviations) (\<lambda>mad.
        if num_eq mad (PInt 0) then Inr (sources, [])
        else bindE (num_mul (PFloat (cfg_mad cfg)) mad) (\<lambda>threshold.
          bindE (mapE (\<lambda>s. deviation med (ps_value s)) sources) (\<lambda>ds.
          Inr (map fst (filter (\<lambda>(s, d). num_le d threshold) (zip sources ds)),
               map (ps_id \<circ> fst) (filter (\<lambda>(s, d). \<not> num_le d threshold) (zip sources ds)))))))))"

definition reject_outliers :: "agg_config \<Rightarrow> price_source list \<Rightarrow> split res" where
  "reject_outliers cfg sources =
     (case cfg_method cfg of
        IQR \<Rightarrow> reject_outliers_iqr cfg sources
      | MAD \<Rightarrow> reject_outliers_mad cfg sources
      | NONE \<Rightarrow> Inr (sources, []))"

section \<open>Weighted median\<close>

fun wm_loop :: "pyfloat \<Rightarrow> pyfloat \<Rightarrow> price_source list \<Rightarrow> int option" where
  "wm_loop half cumulative [] = None"
| "wm_loop half cumulative (s # ss) = (let c = f_add cumulative (ps_weight s) in
     if half \<le> c then Some (ps_value s) else wm_loop half c ss)"

definition weighted_median :: "price_source list \<Rightarrow> int res" where
  "weighted_median sources =
     (if sources = [] then raise ValueError [T ''No sources provided for aggregation'']
      else let sorted_sources = sort_key ps_value sources;
               total_weight = f_sum (map ps_weight sorted_sources) in
        Inr (case wm_loop (f_div_fin total_weight 2) (Fin 0) sorted_sources of
               Some v \<Rightarrow> v | None \<Rightarrow> ps_value (last sorted_sources)))"

section \<open>Aggregation\<close>

definition mismatch_message :: "pystr list \<Rightarrow> pystr list \<Rightarrow> frag list" where
  "mismatch_message missing extra =
     (if missing \<noteq> [] then [T ''Missing sources: '', Q missing, T ''.''] else []) @
     (if missing \<noteq> [] \<and> extra \<noteq> [] then [T '' ''] else []) @
     (if extra \<noteq> [] then [T ''Unexpected sources: '', Q extra, T ''.''] else [])"

text \<open>The two sets of the message are shown here in sorted order.\<close>

definition aggregate :: "agg_config \<Rightarrow> price_source list \<Rightarrow> agg_result res" where
  "aggregate cfg provided =
     (let provided_ids = map ps_id provided; configured_ids = cfg_sources cfg in
      if set provided_ids \<noteq> set configured_ids
      then raise ValueError (mismatch_message
        (sort (remdups (filter (\<lambda>i. i \<notin> set provided_ids) configured_ids)))
        (sort (remdups (filter (\<lambda>i. i \<notin> set configured_ids) provided_ids))))
      else let sources = sort_key ps_id provided in
      bindE (if cfg_method cfg \<noteq> NONE then reject_outliers cfg sources else Inr (sources, []))
        (\<lambda>(accepted, rejected).
      if int (length accepted) < cfg_min cfg
      then raise ValueError [T ''Only '', I (int (length accepted)),
        T '' sources remain after outlier rejection, but minimum '', I (cfg_min cfg),
        T '' required. Rejected: '', Q rejected]
      else bindE (weighted_median accepted) (\<lambda>agg.
      bindE (mapE (\<lambda>s. bindE (dict_at (ps_id s) (cfg_weights cfg)) (\<lambda>w. Inr (ps_id s, w))) accepted)
        (\<lambda>ws.
      Inr \<lparr>ar_value = agg,
           ar_source_values = dict_of (map (\<lambda>s. (ps_id s, ps_value s)) accepted),
           ar_weights = dict_of ws,
           ar_rejected = rejected,
           ar_method = lit ''weighted_median'',
           ar_outlier = method_value (cfg_method cfg)\<rparr>))))"

section \<open>The contract of a rejection method\<close>

locale outlier_filter =
  fixes reject :: "price_source list \<Rightarrow> split res"
  assumes splits: "reject ss = Inr r \<Longrightarrow> \<exists>P. r = split_by P ss"
begin

lemma accepted_subset: "reject ss = Inr (acc, rej) \<Longrightarrow> set acc \<subseteq> set ss"
  by (drule splits) (auto simp: split_by_def)

lemma lengths: "reject ss = Inr (acc, rej) \<Longrightarrow> length acc + length rej = length ss"
  by (drule splits) (auto simp: split_by_def sum_length_filter_compl)

lemma ids_partition:
  "reject ss = Inr (acc, rej) \<Longrightarrow> mset (map ps_id acc @ rej) = mset (map ps_id ss)"
proof (drule splits, elim exE)
  fix P assume "(acc, rej) = split_by P ss"
  then have "acc = filter P ss" "rej = map ps_id (filter (\<lambda>s. \<not> P s) ss)"
    by (simp_all add: split_by_def)
  then show ?thesis by (induction ss arbitrary: acc rej) auto
qed

lemma ids_set: "reject ss = Inr (acc, rej) \<Longrightarrow> ps_id ` set acc \<union> set rej = ps_id ` set ss"
  by (drule ids_partition) (drule mset_eq_setD, simp)

lemma ids_distinct:
  "reject ss = Inr (acc, rej) \<Longrightarrow> distinct (map ps_id ss) \<Longrightarrow>
     distinct (map ps_id acc) \<and> distinct rej \<and> ps_id ` set acc \<inter> set rej = {}"
  by (drule ids_partition) (drule mset_eq_imp_distinct_iff, simp)

end

text \<open>The zip of a checked map with its results splits by a predicate of the element.\<close>

lemma filter_zip_mapE:
  assumes "mapE f xs = Inr ys" "\<And>x y. f x = Inr y \<Longrightarrow> R y = P x"
  shows "map fst (filter (\<lambda>(x, y). R y) (zip xs ys)) = filter P xs"
    "map (g \<circ> fst) (filter (\<lambda>(x, y). \<not> R y) (zip xs ys)) = map g (filter (\<lambda>x. \<not> P x) xs)"
  using assms by (induction xs arbitrary: ys) (auto simp: res_simps)

lemma mad_splits:
  assumes "reject_outliers_mad cfg ss = Inr r"
  shows "\<exists>P. r = split_by P ss"
proof -
  have all: "split_by (\<lambda>s. True) ss = (ss, [])" by (simp add: split_by_def)
  from assms consider "r = (ss, [])" | med ds threshold where
    "mapE (\<lambda>s. deviation med (ps_value s)) ss = Inr ds"
    "r = (map fst (filter (\<lambda>(s, d). num_le d threshold) (zip ss ds)),
          map (ps_id \<circ> fst) (filter (\<lambda>(s, d). \<not> num_le d threshold) (zip ss ds)))"
    by (auto simp: reject_outliers_mad_def Let_def res_simps split: if_splits)
  then show ?thesis
  proof cases
    case 1
    then show ?thesis using all by metis
  next
    case 2
    let ?P = "\<lambda>s. case deviation med (ps_value s) of Inr d \<Rightarrow> num_le d threshold | Inl _ \<Rightarrow> False"
    have "r = split_by ?P ss"
      unfolding 2(2) split_by_def
      by (subst filter_zip_mapE[OF 2(1), of "\<lambda>d. num_le d threshold" ?P],
          simp, subst filter_zip_mapE[OF 2(1), of "\<lambda>d. num_le d threshold" ?P], simp_all)
    then show ?thesis by blast
  qed
qed

interpretation iqr: outlier_filter "reject_outliers_iqr cfg" for cfg
proof unfold_locales
  fix ss r
  assume "reject_outliers_iqr cfg ss = Inr r"
  then consider "r = (ss, [])" | P where "r = split_by P ss"
    by (auto simp: reject_outliers_iqr_def res_simps split: if_splits)
  then show "\<exists>P. r = split_by P ss"
  proof cases
    case 1
    then have "r = split_by (\<lambda>s. True) ss" by (simp add: split_by_def)
    then show ?thesis by blast
  qed blast
qed

interpretation mad: outlier_filter "reject_outliers_mad cfg" for cfg
  by unfold_locales (rule mad_splits)

interpretation any: outlier_filter "reject_outliers cfg" for cfg
proof unfold_locales
  fix ss r
  assume r: "reject_outliers cfg ss = Inr r"
  show "\<exists>P. r = split_by P ss"
  proof (cases "cfg_method cfg")
    case NONE
    with r have "r = split_by (\<lambda>s. True) ss" by (auto simp: reject_outliers_def split_by_def)
    then show ?thesis by blast
  qed (use r iqr.splits mad.splits in \<open>auto simp: reject_outliers_def\<close>)
qed

end
