(* ===== verification/Aggregation_Median.thy ===== *)
theory Aggregation_Median
  imports Aggregation
begin

text \<open>
  The weighted median: the loop returns before its end for positive weights, its result is the
  value of a source, and where the weights add up exactly it is the exact weighted median. The
  fallback after the loop is taken for a NaN weight only.
\<close>

section \<open>Floating-point weights\<close>

definition pos_weight :: "pyfloat \<Rightarrow> bool" where
  "pos_weight w \<longleftrightarrow> Fin 0 < w"

definition nonneg_double :: "pyfloat \<Rightarrow> bool" where
  "nonneg_double w \<longleftrightarrow> Fin 0 \<le> w \<and> is_double w"

lemma nonneg_double_cases:
  "nonneg_double w \<Longrightarrow> w = PInf \<or> (\<exists>q. w = Fin q \<and> 0 \<le> q \<and> q < f_max_bound)"
  by (cases w) (auto simp: nonneg_double_def is_double_Fin)

lemma fl_nonneg: "0 \<le> x \<Longrightarrow> nonneg_double (fl x)"
  using fl_mono[of 0 x] by (simp add: nonneg_double_def)

lemma f_add_nonneg: "nonneg_double a \<Longrightarrow> pos_weight w \<Longrightarrow> nonneg_double (f_add a w)"
proof -
  assume a: "nonneg_double a" and w: "pos_weight w"
  have inf: "nonneg_double PInf" by (simp add: nonneg_double_def is_double_def)
  from w consider "w = PInf" | p where "w = Fin p" "0 < p"
    by (cases w) (auto simp: pos_weight_def)
  then show ?thesis
  proof cases
    case 1
    then show ?thesis using nonneg_double_cases[OF a] inf by auto
  next
    case 2
    then show ?thesis using nonneg_double_cases[OF a] inf by (auto intro!: fl_nonneg)
  qed
qed

lemma foldl_nonneg:
  "nonneg_double a \<Longrightarrow> \<forall>w \<in> set ws. pos_weight w \<Longrightarrow> nonneg_double (foldl f_add a ws)"
  by (induction ws arbitrary: a) (auto intro: f_add_nonneg)

lemma half_le: "nonneg_double t \<Longrightarrow> f_div_fin t 2 \<le> t"
proof -
  assume "nonneg_double t"
  then consider "t = PInf" | q where "t = Fin q" "0 \<le> q" "q < f_max_bound"
    using nonneg_double_cases by blast
  then show ?thesis
  proof cases
    case 1
    then show ?thesis by (simp add: f_inf_def)
  next
    case 2
    then have "0 \<le> rnd (q / 2)" "rnd (q / 2) \<le> q"
      using rnd_le_double[of "q / 2"] rnd_nonneg[of "q / 2"] by simp_all
    with 2 show ?thesis using f_max_bound_pos by (auto simp: fl_def Let_def)
  qed
qed

section \<open>The loop\<close>

lemma wm_loop_member: "wm_loop half c ss = Some v \<Longrightarrow> v \<in> ps_value ` set ss"
  by (induction half c ss rule: wm_loop.induct) (auto simp: Let_def split: if_splits)

lemma wm_loop_None:
  "wm_loop half c ss = None \<Longrightarrow> ss = [] \<or> \<not> half \<le> foldl f_add c (map ps_weight ss)"
proof (induction half c ss rule: wm_loop.induct)
  case (2 half c s ss)
  then show ?case by (cases ss) (auto simp: Let_def split: if_splits)
qed simp

lemma wm_loop_returns:
  assumes "ss \<noteq> []" "\<forall>s \<in> set ss. pos_weight (ps_weight s)"
  shows "\<exists>v. wm_loop (f_div_fin (f_sum (map ps_weight ss)) 2) (Fin 0) ss = Some v"
proof -
  have "nonneg_double (f_sum (map ps_weight ss))"
    unfolding f_sum_def using assms(2) by (intro foldl_nonneg) (auto simp: nonneg_double_def is_double_def)
  then have "f_div_fin (f_sum (map ps_weight ss)) 2 \<le> foldl f_add (Fin 0) (map ps_weight ss)"
    by (simp add: half_le f_sum_def[symmetric])
  then show ?thesis using wm_loop_None assms(1) by blast
qed

lemma wm_loop_NaN: "wm_loop NaN c ss = None"
  by (induction ss arbitrary: c) (auto simp: Let_def)

lemma f_add_NaN [simp]: "f_add a NaN = NaN" "f_add NaN a = NaN"
  by (cases a; simp)+

lemma foldl_NaN: "foldl f_add NaN ws = NaN"
  by (induction ws) auto

lemma f_sum_NaN: "NaN \<in> set ws \<Longrightarrow> f_sum ws = NaN"
proof -
  have "NaN \<in> set ws \<Longrightarrow> foldl f_add a ws = NaN" for a
    by (induction ws arbitrary: a) (auto simp: foldl_NaN)
  then show "NaN \<in> set ws \<Longrightarrow> f_sum ws = NaN" by (simp add: f_sum_def)
qed

lemma weighted_median_member:
  "weighted_median ss = Inr v \<Longrightarrow> v \<in> ps_value ` set ss"
proof -
  assume a: "weighted_median ss = Inr v"
  then have "ss \<noteq> []" by (auto simp: weighted_median_def res_simps)
  then have ne: "sort_key ps_value ss \<noteq> []" by (metis length_0_conv length_sort)
  then have "last (sort_key ps_value ss) \<in> set ss" by (metis last_in_set set_sort)
  with a show ?thesis
    by (auto simp: weighted_median_def Let_def res_simps split: if_splits option.splits
        dest!: wm_loop_member)
qed

lemma weighted_median_total: "ss \<noteq> [] \<Longrightarrow> \<exists>v. weighted_median ss = Inr v"
  by (simp add: weighted_median_def Let_def)

section \<open>Exact weights\<close>

text \<open>
  Weights that are positive multiples of \<open>2 ^ -k\<close> and whose sum needs at most 53 bits: their
  sums are exact. (All weights 1.0, the weights of the command line, are such weights.)
\<close>

definition exact_weights :: "nat \<Rightarrow> (price_source \<Rightarrow> int) \<Rightarrow> price_source list \<Rightarrow> bool" where
  "exact_weights k iw ss \<longleftrightarrow> k \<le> 1000 \<and> sum_list (map iw ss) \<le> 2 ^ 53 \<and>
     (\<forall>s \<in> set ss. 0 < iw s \<and> ps_weight s = Fin (of_int (iw s) / 2 ^ k))"

lemma f_add_scaled:
  assumes "k \<le> 1000" "0 \<le> a" "0 \<le> b" "a + b \<le> 2 ^ 53"
  shows "f_add (Fin (of_int a / 2 ^ k)) (Fin (of_int b / 2 ^ k)) = Fin (of_int (a + b) / 2 ^ k)"
proof -
  have "fl (of_int a / 2 ^ k + of_int b / 2 ^ k) = Fin (of_int a / 2 ^ k + of_int b / 2 ^ k)"
    by (rule fl_exact_scaled[of _ "a + b" k]) (use assms in \<open>auto simp: add_divide_distrib\<close>)
  then show ?thesis by (simp add: add_divide_distrib)
qed

lemma iw_nonneg:
  fixes iw :: "price_source \<Rightarrow> int"
  shows "\<forall>s \<in> set ss. 0 < iw s \<Longrightarrow> 0 \<le> sum_list (map iw ss)"
  by (induction ss) auto

lemma foldl_scaled:
  fixes iw :: "price_source \<Rightarrow> int"
  assumes "k \<le> 1000" "0 \<le> c" "\<forall>s \<in> set ss. 0 < iw s \<and> ps_weight s = Fin (of_int (iw s) / 2 ^ k)"
    "c + sum_list (map iw ss) \<le> 2 ^ 53"
  shows "foldl f_add (Fin (of_int c / 2 ^ k)) (map ps_weight ss)
    = Fin (of_int (c + sum_list (map iw ss)) / 2 ^ k)"
  using assms
proof (induction ss arbitrary: c)
  case (Cons s ss)
  have "\<forall>s \<in> set ss. 0 < iw s" using Cons.prems(3) by simp
  then have nn: "0 \<le> sum_list (map iw ss)" by (rule iw_nonneg)
  have w: "ps_weight s = Fin (of_int (iw s) / 2 ^ k)" using Cons.prems(3) by simp
  have "f_add (Fin (of_int c / 2 ^ k)) (ps_weight s) = Fin (of_int (c + iw s) / 2 ^ k)"
    unfolding w by (rule f_add_scaled) (use Cons.prems nn in auto)
  with Cons.IH[of "c + iw s"] Cons.prems show ?case by (simp add: add.assoc)
qed simp

text \<open>The weight of the sources a predicate selects.\<close>

definition weight_where :: "(price_source \<Rightarrow> int) \<Rightarrow> (price_source \<Rightarrow> bool) \<Rightarrow> price_source list \<Rightarrow> int" where
  "weight_where iw P ss = sum_list (map iw (filter P ss))"

lemma weight_where_Cons [simp]:
  "weight_where iw P [] = 0"
  "weight_where iw P (s # ss) = (if P s then iw s else 0) + weight_where iw P ss"
  by (auto simp: weight_where_def)

lemma weight_where_nonneg: "\<forall>s \<in> set ss. 0 < iw s \<Longrightarrow> 0 \<le> weight_where iw P ss"
  unfolding weight_where_def by (rule iw_nonneg) auto

lemma weight_where_perm: "mset ss = mset ts \<Longrightarrow> weight_where iw P ss = weight_where iw P ts"
  unfolding weight_where_def by (metis mset_filter mset_map sum_mset_sum_list)

lemma half_scaled_le:
  "Fin (of_int t / 2 ^ (k + 1)) \<le> Fin (of_int c / 2 ^ k) \<longleftrightarrow> t \<le> 2 * c"
proof -
  have "(of_int t / 2 ^ (k + 1) \<le> (of_int c / 2 ^ k :: rat)) = (of_int t \<le> (2 * of_int c :: rat))"
    by (simp add: divide_simps mult.commute)
  also have "\<dots> = (t \<le> 2 * c)" by (metis of_int_le_iff of_int_mult of_int_numeral)
  finally show ?thesis by simp
qed

lemma wm_loop_exact:
  fixes iw :: "price_source \<Rightarrow> int"
  assumes "k \<le> 1000" "sorted (map ps_value ss)" "0 \<le> c" "2 * c < t" "t \<le> 2 * (c + sum_list (map iw ss))"
    "\<forall>s \<in> set ss. 0 < iw s \<and> ps_weight s = Fin (of_int (iw s) / 2 ^ k)"
    "c + sum_list (map iw ss) \<le> 2 ^ 53"
  shows "\<exists>v. wm_loop (Fin (of_int t / 2 ^ (k + 1))) (Fin (of_int c / 2 ^ k)) ss = Some v \<and>
    2 * (c + weight_where iw (\<lambda>s. ps_value s < v) ss) < t \<and>
    t \<le> 2 * (c + weight_where iw (\<lambda>s. ps_value s \<le> v) ss)"
  using assms
proof (induction ss arbitrary: c)
  case (Cons s ss)
  have pos: "\<forall>s \<in> set ss. 0 < iw s" "0 < iw s" using Cons.prems by auto
  then have nn: "0 \<le> sum_list (map iw ss)" by (intro iw_nonneg)
  have w: "ps_weight s = Fin (of_int (iw s) / 2 ^ k)" using Cons.prems(6) by simp
  have add: "f_add (Fin (of_int c / 2 ^ k)) (ps_weight s) = Fin (of_int (c + iw s) / 2 ^ k)"
    unfolding w by (rule f_add_scaled) (use Cons.prems nn in auto)
  show ?case
  proof (cases "t \<le> 2 * (c + iw s)")
    case True
    have "weight_where iw (\<lambda>u. ps_value u < ps_value s) (s # ss) = 0"
    proof -
      have "filter (\<lambda>u. ps_value u < ps_value s) ss = []"
        using Cons.prems(2) by (auto simp: filter_empty_conv)
      then show ?thesis by (simp add: weight_where_def)
    qed
    moreover have "0 \<le> weight_where iw (\<lambda>u. ps_value u \<le> ps_value s) ss"
      using pos by (intro weight_where_nonneg)
    moreover have "wm_loop (Fin (of_int t / 2 ^ (k + 1))) (Fin (of_int c / 2 ^ k)) (s # ss)
        = Some (ps_value s)"
      using True by (simp only: wm_loop.simps Let_def add half_scaled_le if_True)
    ultimately show ?thesis using True Cons.prems
      by (intro exI[of _ "ps_value s"]) simp
  next
    case False
    have "\<exists>v. wm_loop (Fin (of_int t / 2 ^ (k + 1))) (Fin (of_int (c + iw s) / 2 ^ k)) ss = Some v \<and>
      2 * (c + iw s + weight_where iw (\<lambda>s. ps_value s < v) ss) < t \<and>
      t \<le> 2 * (c + iw s + weight_where iw (\<lambda>s. ps_value s \<le> v) ss)"
      using Cons.prems False pos by (intro Cons.IH) auto
    then obtain v where v: "wm_loop (Fin (of_int t / 2 ^ (k + 1))) (Fin (of_int (c + iw s) / 2 ^ k)) ss = Some v"
      "2 * (c + iw s + weight_where iw (\<lambda>s. ps_value s < v) ss) < t"
      "t \<le> 2 * (c + iw s + weight_where iw (\<lambda>s. ps_value s \<le> v) ss)" by blast
    have "ps_value s \<le> v" using wm_loop_member[OF v(1)] Cons.prems(2) by auto
    moreover have "wm_loop (Fin (of_int t / 2 ^ (k + 1))) (Fin (of_int c / 2 ^ k)) (s # ss) = Some v"
      using False by (simp only: wm_loop.simps Let_def add half_scaled_le if_False v(1))
    moreover have "ps_value s < v \<Longrightarrow> weight_where iw (\<lambda>s. ps_value s < v) (s # ss)
        = iw s + weight_where iw (\<lambda>s. ps_value s < v) ss" by simp
    ultimately show ?thesis using v(2,3) pos
      by (intro exI[of _ v]) (auto simp: algebra_simps)
  qed
qed simp

theorem weighted_median_exact_aux:
  assumes "ss \<noteq> []" "exact_weights k iw ss"
  shows "\<exists>v. weighted_median ss = Inr v \<and> v \<in> ps_value ` set ss \<and>
    2 * weight_where iw (\<lambda>s. ps_value s < v) ss < weight_where iw (\<lambda>s. True) ss \<and>
    weight_where iw (\<lambda>s. True) ss \<le> 2 * weight_where iw (\<lambda>s. ps_value s \<le> v) ss"
proof -
  let ?ss = "sort_key ps_value ss" and ?t = "sum_list (map iw (sort_key ps_value ss))"
  have t: "?t = sum_list (map iw ss)" by (metis mset_map mset_sort sum_mset_sum_list)
  have w: "k \<le> 1000" "\<forall>s \<in> set ?ss. 0 < iw s \<and> ps_weight s = Fin (of_int (iw s) / 2 ^ k)" "?t \<le> 2 ^ 53"
    using assms(2) t by (auto simp: exact_weights_def)
  obtain s0 rest where s0: "?ss = s0 # rest"
    using assms(1) by (metis length_0_conv length_sort neq_Nil_conv)
  have tpos: "0 < ?t"
    using w(2) iw_nonneg[of rest iw] unfolding s0 by (auto intro: add_pos_nonneg)
  have tot: "f_sum (map ps_weight ?ss) = Fin (of_int ?t / 2 ^ k)"
    using foldl_scaled[of k 0 ?ss iw] w by (simp add: f_sum_def)
  have half: "f_div_fin (Fin (of_int ?t / 2 ^ k)) 2 = Fin (of_int ?t / 2 ^ (k + 1))"
  proof -
    have "fl (of_int ?t / 2 ^ (k + 1)) = Fin (of_int ?t / 2 ^ (k + 1))"
      by (rule fl_exact_scaled[of _ ?t "k + 1"]) (use w tpos in auto)
    then show ?thesis by (simp add: mult.commute)
  qed
  have "\<exists>v. wm_loop (Fin (of_int ?t / 2 ^ (k + 1))) (Fin (of_int 0 / 2 ^ k)) ?ss = Some v \<and>
    2 * (0 + weight_where iw (\<lambda>s. ps_value s < v) ?ss) < ?t \<and>
    ?t \<le> 2 * (0 + weight_where iw (\<lambda>s. ps_value s \<le> v) ?ss)"
    by (rule wm_loop_exact) (use w tpos in auto)
  then obtain v where v: "wm_loop (Fin (of_int ?t / 2 ^ (k + 1))) (Fin 0) ?ss = Some v"
    "2 * weight_where iw (\<lambda>s. ps_value s < v) ?ss < ?t"
    "?t \<le> 2 * weight_where iw (\<lambda>s. ps_value s \<le> v) ?ss" by auto
  have "weighted_median ss = Inr v"
    using assms(1) v(1) by (simp add: weighted_median_def Let_def tot half del: f_div_fin.simps power_Suc)
  moreover have "weight_where iw P ?ss = weight_where iw P ss" for P
    by (rule weight_where_perm) simp
  moreover have "weight_where iw (\<lambda>s. True) ss = ?t" by (simp add: weight_where_def t)
  ultimately show ?thesis using v weighted_median_member by metis
qed

end
