(* ===== verification/Aggregation_Quartiles.thy ===== *)
theory Aggregation_Quartiles
  imports Aggregation_Median
begin

text \<open>
  The rejection methods on values of moderate size, where the arithmetic is exact: the
  percentiles are the textbook quartiles by linear interpolation, IQR rejection is Tukey's fences
  and cannot reject anything among at most five sources, and MAD rejection keeps at least half of
  the sources.
\<close>

section \<open>Quartiles\<close>

text \<open>Four times the \<open>k\<close>-th quartile (rank \<open>k (n + 1) / 4\<close>, interpolated), an integer.\<close>

definition quart4 :: "int \<Rightarrow> int list \<Rightarrow> int" where
  "quart4 k xs = (let s = sort xs; n = int (length s); j = k * (n + 1); r = nat (j div 4) in
     if j < 4 then 4 * s ! 0
     else if 4 * n \<le> j then 4 * last s
     else 4 * s ! (r - 1) + (j mod 4) * (s ! r - s ! (r - 1)))"

definition bounded :: "nat \<Rightarrow> int list \<Rightarrow> bool" where
  "bounded b xs \<longleftrightarrow> (\<forall>v \<in> set xs. \<bar>v\<bar> \<le> 2 ^ b)"

lemma bounded_nth: "bounded b xs \<Longrightarrow> i < length xs \<Longrightarrow> \<bar>sort xs ! i\<bar> \<le> 2 ^ b"
  unfolding bounded_def by (metis length_sort nth_mem set_sort)

lemma bounded_last: "bounded b xs \<Longrightarrow> xs \<noteq> [] \<Longrightarrow> \<bar>last (sort xs)\<bar> \<le> 2 ^ b"
  unfolding bounded_def by (metis last_in_set length_0_conv length_sort set_sort)

lemma rat_quarter_cmp:
  "(of_int j / 4 :: rat) < 1 \<longleftrightarrow> j < 4"
  "of_int n \<le> (of_int j / 4 :: rat) \<longleftrightarrow> 4 * n \<le> j"
proof -
  have "(of_int j / 4 :: rat) < 1 \<longleftrightarrow> rat_of_int j < of_int 4" by simp
  then show "(of_int j / 4 :: rat) < 1 \<longleftrightarrow> j < 4" by (simp only: of_int_less_iff)
  have "of_int n \<le> (of_int j / 4 :: rat) \<longleftrightarrow> rat_of_int (4 * n) \<le> of_int j" by auto
  then show "of_int n \<le> (of_int j / 4 :: rat) \<longleftrightarrow> 4 * n \<le> j" by (simp only: of_int_le_iff)
qed

lemma trunc_quarter: "0 \<le> j \<Longrightarrow> rat_trunc (of_int j / 4) = j div 4"
  using floor_divide_of_int_eq[of j 4, where ?'a = rat] by (simp add: rat_trunc_def)

lemma interpolate_between:
  fixes a b m :: int
  assumes "a \<le> b" "0 \<le> m" "m \<le> 4"
  shows "4 * a \<le> 4 * a + m * (b - a)" "4 * a + m * (b - a) \<le> 4 * b"
proof -
  show "4 * a \<le> 4 * a + m * (b - a)" using assms by simp
  have "m * (b - a) \<le> 4 * (b - a)" using assms by (intro mult_right_mono) auto
  then show "4 * a + m * (b - a) \<le> 4 * b" by simp
qed

lemma fl_quarter: "\<bar>m\<bar> \<le> 2 ^ 53 \<Longrightarrow> fl (of_int m / 4) = Fin (of_int m / 4)"
  by (rule fl_exact_scaled[of _ m 2]) auto

lemma fl_eighth: "\<bar>m\<bar> \<le> 2 ^ 53 \<Longrightarrow> fl (of_int m / 8) = Fin (of_int m / 8)"
  by (rule fl_exact_scaled[of _ m 3]) auto

lemma quarter_rest: "rat_of_int j / 4 - of_int (j div 4) = of_int (j mod 4) / 4"
proof -
  have "rat_of_int j = of_int (4 * (j div 4) + j mod 4)" by simp
  then have "rat_of_int j = 4 * of_int (j div 4) + of_int (j mod 4)"
    by (simp only: of_int_add of_int_mult of_int_numeral)
  then show ?thesis by (simp add: field_simps)
qed

lemma p53: "(2 :: int) ^ 53 = 8 * 2 ^ 50" by simp

lemma num_sub_quarter:
  assumes "\<bar>j div 4\<bar> \<le> 2 ^ 53"
  shows "num_sub (PFloat (Fin (of_int j / 4))) (PInt (j div 4)) = Inr (PFloat (Fin (of_int (j mod 4) / 4)))"
proof -
  have "\<bar>j mod 4\<bar> \<le> 2 ^ 53" using pos_mod_bound[of 4 j] pos_mod_sign[of 4 j] by auto
  then show ?thesis using float_of_int_exact[OF assms]
    by (simp add: num_sub_def num_arith_def quarter_rest fl_quarter)
qed

text \<open>The interpolation step: one double product and one double sum, both exact.\<close>

lemma interpolate_exact:
  assumes "0 \<le> m" "m \<le> 3" "a \<le> b" "\<bar>a\<bar> \<le> 2 ^ 50" "\<bar>b\<bar> \<le> 2 ^ 50"
  shows "bindE (num_mul (PFloat (Fin (of_int m / 4))) (PInt (b - a))) (\<lambda>d. num_add (PInt a) d)
    = Inr (PFloat (Fin (of_int (4 * a + m * (b - a)) / 4)))"
proof -
  have d: "\<bar>b - a\<bar> \<le> 2 ^ 51" using assms by simp
  have "\<bar>m * (b - a)\<bar> \<le> 3 * 2 ^ 51" unfolding abs_mult using assms d by (intro mult_mono) auto
  then have m: "fl (of_int (m * (b - a)) / 4) = Fin (of_int (m * (b - a)) / 4)"
    by (intro fl_quarter) simp
  have "4 * a \<le> 4 * a + m * (b - a)" "4 * a + m * (b - a) \<le> 4 * b"
    by (rule interpolate_between; use assms in simp)+
  then have "\<bar>4 * a + m * (b - a)\<bar> \<le> 2 ^ 53" using assms(4,5) p53
    by linarith
  then have s: "fl (of_int (4 * a + m * (b - a)) / 4) = Fin (of_int (4 * a + m * (b - a)) / 4)"
    by (rule fl_quarter)
  have p: "f_mul (Fin (of_int m / 4)) (Fin (of_int (b - a))) = Fin (of_int (m * (b - a)) / 4)"
    using m by (simp only: f_mul.simps of_int_mult times_divide_eq_left)
  have "rat_of_int a + of_int (m * (b - a)) / 4 = of_int (4 * a + m * (b - a)) / 4"
    by (simp only: of_int_add of_int_mult of_int_diff of_int_numeral) (simp add: field_simps)
  then have q: "f_add (Fin (of_int a)) (Fin (of_int (m * (b - a)) / 4))
      = Fin (of_int (4 * a + m * (b - a)) / 4)"
    using s by (simp only: f_add.simps)
  have "\<bar>b - a\<bar> \<le> 2 ^ 53" "\<bar>a\<bar> \<le> 2 ^ 53" using assms(4,5) p53 by linarith+
  then show ?thesis by (simp only: num_mixed_exact p q bindE.simps)
qed

lemma percentile_exact:
  assumes k: "k = 1 \<or> k = 3" and "xs \<noteq> []" "bounded 50 xs" "int (length xs) < 2 ^ 50"
  shows "percentile xs (25 * k) = Inr (PFloat (Fin (of_int (quart4 k xs) / 4)))"
proof -
  let ?n = "int (length xs)" and ?s = "sort xs"
  let ?j = "k * (?n + 1)"
  have n: "1 \<le> ?n" "?n < 2 ^ 50" using assms(2,4) by (cases xs; simp)+
  have j: "0 \<le> ?j" "\<bar>?j\<bar> \<le> 2 ^ 53" "\<bar>?n + 1\<bar> \<le> 2 ^ 53" using k n by auto
  have "rat_of_int (25 * k) / 100 = of_int k / 4" by simp
  moreover have "fl (rat_of_int k / 4) = Fin (of_int k / 4)" by (rule fl_quarter) (use k in auto)
  ultimately have p: "fl (rat_of_int (25 * k) / 100) = Fin (of_int k / 4)" by simp
  have "f_mul (Fin (of_int k / 4)) (Fin (of_int (?n + 1))) = Fin (of_int ?j / 4)"
    using fl_quarter[OF j(2)] by (simp only: f_mul.simps of_int_mult times_divide_eq_left)
  then have rank: "num_mul (PFloat (fl (rat_of_int (25 * k) / 100))) (PInt (?n + 1))
      = Inr (PFloat (Fin (of_int ?j / 4)))"
    using p j(3) by (simp only: num_mixed_exact)
  have lt: "num_lt (PFloat (Fin (of_int ?j / 4))) (PInt 1) \<longleftrightarrow> ?j < 4"
    and le: "num_le (PInt ?n) (PFloat (Fin (of_int ?j / 4))) \<longleftrightarrow> 4 * ?n \<le> ?j"
    by (simp_all only: num_lt_def num_le_def num_ext.simps f_less_simps less_eq_pyfloat.simps
        of_int_1 rat_quarter_cmp)
  have hd: "float_of_int (?s ! 0) = Inr (Fin (of_int (?s ! 0)))"
    using bounded_nth[OF assms(3), of 0] assms(2) by (intro float_of_int_exact) simp
  have lst: "float_of_int (last ?s) = Inr (Fin (of_int (last ?s)))"
    using bounded_last[OF assms(3,2)] by (intro float_of_int_exact) simp
  have of4: "rat_of_int (4 * v) / 4 = of_int v" for v by simp
  have ne: "(xs = []) = False" using assms(2) by simp
  consider "?j < 4" | "4 \<le> ?j" "4 * ?n \<le> ?j" | "4 \<le> ?j" "?j < 4 * ?n" by linarith
  then show ?thesis
  proof cases
    case 1
    then show ?thesis
      by (simp only: ne percentile_def Let_def length_sort rank lt hd quart4_def bindE.simps if_True
          if_False of4)
  next
    case 2
    then have "\<not> ?j < 4" by simp
    with 2 show ?thesis using assms(2)
      by (simp only: percentile_def Let_def length_sort rank lt le lst quart4_def bindE.simps if_True
          if_False of4)
  next
    case 3
    then have c: "\<not> ?j < 4" "\<not> 4 * ?n \<le> ?j" by simp_all
    let ?r = "?j div 4" and ?m = "?j mod 4"
    have r: "1 \<le> ?r" "?r < ?n" using 3 by auto
    have m: "0 \<le> ?m" "?m \<le> 3" by simp (use pos_mod_bound[of 4 ?j] in linarith)
    have jr: "?j = 4 * ?r + ?m" by simp
    have fr: "num_sub (PFloat (Fin (of_int ?j / 4))) (PInt (?r - 1 + 1)) = Inr (PFloat (Fin (of_int ?m / 4)))"
    proof -
      have "\<bar>?r\<bar> \<le> 2 ^ 53" using r n p53 by linarith
      then show ?thesis by (simp only: diff_add_cancel num_sub_quarter)
    qed
    have idx: "nat (?r - 1) < length xs" "nat ?r < length xs" "nat (?r - 1 + 1) = nat ?r"
      "nat ?r - 1 = nat (?r - 1)" using r by linarith+
    have "?s ! nat (?r - 1) \<le> ?s ! nat ?r"
    proof (rule sorted_nth_mono)
      show "nat (?r - 1) \<le> nat ?r" by (rule nat_mono) simp
    qed (use idx in simp_all)
    from interpolate_exact[OF m this bounded_nth[OF assms(3) idx(1)] bounded_nth[OF assms(3) idx(2)]]
    have ip: "bindE (num_mul (PFloat (Fin (of_int ?m / 4))) (PInt (?s ! nat ?r - ?s ! nat (?r - 1))))
        (\<lambda>d. num_add (PInt (?s ! nat (?r - 1))) d)
      = Inr (PFloat (Fin (of_int (4 * ?s ! nat (?r - 1) + ?m * (?s ! nat ?r - ?s ! nat (?r - 1))) / 4)))" .
    have q: "quart4 k xs = 4 * ?s ! nat (?r - 1) + ?m * (?s ! nat ?r - ?s ! nat (?r - 1))"
      by (simp only: quart4_def Let_def length_sort c if_False idx)
    have ti: "num_to_int (PFloat (Fin (of_int ?j / 4))) = Inr ?r"
      using trunc_quarter[OF j(1)] by (simp only: num_to_int_def pynum.case int_of_float.simps)
    have up: "\<not> ?n \<le> ?r - 1 + 1" using r by simp
    show ?thesis
      by (simp only: percentile_def Let_def length_sort rank lt le c up ti fr idx ip q bindE.simps
          if_False ne)
  qed
qed

lemma quart4_bounds:
  assumes "k = 1 \<or> k = 3" "xs \<noteq> []" "bounded b xs"
  shows "\<bar>quart4 k xs\<bar> \<le> 4 * 2 ^ b"
proof -
  let ?n = "int (length xs)" and ?s = "sort xs"
  let ?j = "k * (?n + 1)"
  have h: "\<bar>?s ! 0\<bar> \<le> 2 ^ b" using bounded_nth[OF assms(3), of 0] assms(2) by simp
  have l: "\<bar>last ?s\<bar> \<le> 2 ^ b" using bounded_last[OF assms(3,2)] .
  show ?thesis
  proof (cases "?j < 4 \<or> 4 * ?n \<le> ?j")
    case True
    then show ?thesis using h l by (auto simp: quart4_def Let_def)
  next
    case False
    let ?r = "nat (?j div 4)"
    have r: "?r - 1 < length xs" "?r < length xs" using False by auto
    have le: "?s ! (?r - 1) \<le> ?s ! ?r" by (rule sorted_nth_mono) (use r in auto)
    have m: "0 \<le> ?j mod 4" "?j mod 4 \<le> 4" by simp (use pos_mod_bound[of 4 ?j] in linarith)
    have "quart4 k xs = 4 * ?s ! (?r - 1) + ?j mod 4 * (?s ! ?r - ?s ! (?r - 1))"
      using False by (simp add: quart4_def Let_def)
    with interpolate_between[OF le m] bounded_nth[OF assms(3) r(1)] bounded_nth[OF assms(3) r(2)]
    show ?thesis by linarith
  qed
qed

section \<open>IQR rejection\<close>

definition tukey :: "int list \<Rightarrow> int \<Rightarrow> bool" where
  "tukey xs v \<longleftrightarrow> (let q1 = quart4 1 xs; q3 = quart4 3 xs; d = q3 - q1 in
     2 * q1 - 3 * d \<le> 8 * v \<and> 8 * v \<le> 2 * q3 + 3 * d)"

lemma default_iqr_eq: "default_iqr = Fin (3 / 2)"
  unfolding default_iqr_def by (rule fl_exact_scaled[of _ 3 1]) auto

lemma fl_eighth_int: "\<bar>m\<bar> \<le> 2 ^ 53 \<Longrightarrow> x = of_int m / 8 \<Longrightarrow> fl x = Fin (of_int m / 8)"
  by (simp only: fl_eighth)

lemma rat_eighth_le:
  "(of_int m / 8 \<le> (of_int v :: rat)) \<longleftrightarrow> m \<le> 8 * v"
  "((of_int v :: rat) \<le> of_int m / 8) \<longleftrightarrow> 8 * v \<le> m"
proof -
  have "(of_int m / 8 \<le> (of_int v :: rat)) \<longleftrightarrow> rat_of_int m \<le> of_int (8 * v)" by auto
  then show "(of_int m / 8 \<le> (of_int v :: rat)) \<longleftrightarrow> m \<le> 8 * v" by (simp only: of_int_le_iff)
  have "((of_int v :: rat) \<le> of_int m / 8) \<longleftrightarrow> rat_of_int (8 * v) \<le> of_int m" by auto
  then show "((of_int v :: rat) \<le> of_int m / 8) \<longleftrightarrow> 8 * v \<le> m" by (simp only: of_int_le_iff)
qed

lemma iqr_bounds_exact:
  assumes "xs \<noteq> []" "bounded 48 xs" "int (length xs) < 2 ^ 50"
  defines "q1 \<equiv> quart4 1 xs" and "q3 \<equiv> quart4 3 xs"
  shows "iqr_bounds default_iqr xs = Inr (PFloat (Fin (of_int (2 * q1 - 3 * (q3 - q1)) / 8)),
    PFloat (Fin (of_int (2 * q3 + 3 * (q3 - q1)) / 8)))"
proof -
  have b50: "bounded 50 xs" using assms(2) by (fastforce simp: bounded_def)
  have p: "percentile xs 25 = Inr (PFloat (Fin (of_int q1 / 4)))"
    "percentile xs 75 = Inr (PFloat (Fin (of_int q3 / 4)))"
    using percentile_exact[of 1 xs] percentile_exact[of 3 xs] assms(1,3) b50
    by (simp_all add: q1_def q3_def)
  have b: "\<bar>q1\<bar> \<le> 2 ^ 50" "\<bar>q3\<bar> \<le> 2 ^ 50"
    using quart4_bounds[of 1 xs 48] quart4_bounds[of 3 xs 48] assms(1,2) by (simp_all add: q1_def q3_def)
  have d: "fl (of_int q3 / 4 - of_int q1 / 4) = Fin (of_int (q3 - q1) / 4)"
    using fl_quarter[of "q3 - q1"] b by (simp add: diff_divide_distrib)
  have m: "fl (3 / 2 * (of_int (q3 - q1) / 4)) = Fin (of_int (3 * (q3 - q1)) / 8)"
    by (rule fl_eighth_int) (use b in auto)
  have l: "fl (of_int q1 / 4 - of_int (3 * (q3 - q1)) / 8) = Fin (of_int (2 * q1 - 3 * (q3 - q1)) / 8)"
    by (rule fl_eighth_int) (use b in \<open>auto simp: field_simps\<close>)
  have u: "fl (of_int q3 / 4 + of_int (3 * (q3 - q1)) / 8) = Fin (of_int (2 * q3 + 3 * (q3 - q1)) / 8)"
    by (rule fl_eighth_int) (use b in \<open>auto simp: field_simps\<close>)
  show ?thesis
    by (simp only: iqr_bounds_def default_iqr_eq p bindE.simps num_arith_floats f_sub_Fin f_mul.simps
        f_add.simps d m l u)
qed

lemma iqr_exact:
  assumes "cfg_iqr cfg = default_iqr" "3 \<le> length ss" "int (length ss) < 2 ^ 50"
    "bounded 48 (map ps_value ss)"
  shows "reject_outliers_iqr cfg ss = Inr (split_by (\<lambda>s. tukey (map ps_value ss) (ps_value s)) ss)"
proof -
  have "map ps_value ss \<noteq> []" "int (length (map ps_value ss)) < 2 ^ 50" using assms(2,3) by auto
  from iqr_bounds_exact[OF this(1) assms(4) this(2)] show ?thesis
    using assms(1,2)
    by (simp only: reject_outliers_iqr_def bindE.simps split_conv num_cmp rat_eighth_le tukey_def Let_def) simp
qed

lemma list_of_length:
  "length s = 3 \<Longrightarrow> \<exists>a b c. s = [a, b, c]"
  "length s = 4 \<Longrightarrow> \<exists>a b c d. s = [a, b, c, d]"
  "length s = 5 \<Longrightarrow> \<exists>a b c d e. s = [a, b, c, d, e]"
  by (auto simp: numeral_eq_Suc length_Suc_conv)

lemma tukey_few:
  assumes "3 \<le> length xs" "length xs \<le> 5" "v \<in> set xs"
  shows "tukey xs v"
proof -
  have v: "v \<in> set (sort xs)" and s: "sorted (sort xs)" using assms(3) by simp_all
  from assms(1,2) consider "length xs = 3" | "length xs = 4" | "length xs = 5" by linarith
  then show ?thesis
  proof cases
    case 1
    then obtain a b c where e: "sort xs = [a, b, c]" using list_of_length(1)[of "sort xs"] by auto
    then have "quart4 1 xs = 4 * a" "quart4 3 xs = 4 * c" by (simp_all add: quart4_def)
    with v s e show ?thesis by (auto simp: tukey_def)
  next
    case 2
    then obtain a b c d where e: "sort xs = [a, b, c, d]" using list_of_length(2)[of "sort xs"] by auto
    then have "quart4 1 xs = 4 * a + (b - a)" "quart4 3 xs = 4 * c + 3 * (d - c)"
      by (simp_all add: quart4_def numeral_2_eq_2)
    with v s e show ?thesis by (auto simp: tukey_def)
  next
    case 3
    then obtain a b c d f where e: "sort xs = [a, b, c, d, f]"
      using list_of_length(3)[of "sort xs"] by auto
    then have "quart4 1 xs = 4 * a + 2 * (b - a)" "quart4 3 xs = 4 * d + 2 * (f - d)"
      by (simp_all add: quart4_def eval_nat_numeral)
    with v s e show ?thesis by (auto simp: tukey_def)
  qed
qed

text \<open>Three equal values: where the value is not a double, its own quartiles miss it.\<close>

lemma percentile_three_equal:
  assumes "float_of_int v = Inr (Fin q)" "fl q = Fin q"
  shows "percentile [v, v, v] 25 = Inr (PFloat (Fin q))" "percentile [v, v, v] 75 = Inr (PFloat (Fin q))"
proof -
  have r1: "num_mul (PFloat (fl (1 / 4))) (PInt 4) = Inr (PFloat (Fin 1))"
    using fl_exact_scaled[of "1/4" 1 2] fl_exact_int[of 1] float_of_int_exact[of 4] by (simp add: num_mul_def num_arith_def)
  have r3: "num_mul (PFloat (fl (3 / 4))) (PInt 4) = Inr (PFloat (Fin 3))"
    using fl_exact_scaled[of "3/4" 3 2] fl_exact_int[of 3] float_of_int_exact[of 4] by (simp add: num_mul_def num_arith_def)
  have s: "sort [v, v, v] = [v, v, v]" by simp
  have f: "num_sub (PFloat (Fin 1)) (PInt 1) = Inr (PFloat (Fin 0))"
    using float_of_int_exact[of 1] by (simp add: num_sub_def num_arith_def)
  have m: "num_mul (PFloat (Fin 0)) (PInt 0) = Inr (PFloat (Fin 0))"
    using float_of_int_exact[of 0] by (simp add: num_mul_def num_arith_def)
  have a: "num_add (PInt v) (PFloat (Fin 0)) = Inr (PFloat (Fin q))"
    using assms by (simp add: num_add_def num_arith_def)
  have t: "num_to_int (PFloat (Fin 1)) = Inr 1"
    using rat_trunc_of_int[of 1] by (simp add: num_to_int_def)
  show "percentile [v, v, v] 25 = Inr (PFloat (Fin q))"
    by (simp add: percentile_def r1 s num_lt_def num_le_def t f m a)
  show "percentile [v, v, v] 75 = Inr (PFloat (Fin q))"
    by (simp add: percentile_def r3 s num_lt_def num_le_def assms)
qed

section \<open>Medians\<close>

text \<open>A number that is a multiple of \<open>2 ^ -j\<close> of bounded size, as an integer or as a double.\<close>

definition dyadic :: "nat \<Rightarrow> int \<Rightarrow> pynum \<Rightarrow> bool" where
  "dyadic j B a \<longleftrightarrow> (\<exists>m. num_ext a = Fin (of_int m / 2 ^ j) \<and> \<bar>m\<bar> \<le> B)"

definition num_rat :: "pynum \<Rightarrow> rat" where
  "num_rat a = (case num_ext a of Fin q \<Rightarrow> q | _ \<Rightarrow> 0)"

lemma num_rat_simps [simp]: "num_rat (PFloat (Fin q)) = q" "num_rat (PInt n) = of_int n"
  by (simp_all add: num_rat_def)

lemma dyadic_ext: "dyadic j B a \<Longrightarrow> num_ext a = Fin (num_rat a)"
  by (auto simp: dyadic_def num_rat_def)

lemma dyadic_le: "dyadic j A a \<Longrightarrow> dyadic i B b \<Longrightarrow> num_le a b \<longleftrightarrow> num_rat a \<le> num_rat b"
  by (simp add: num_le_def dyadic_ext)

lemma dyadicI: "num_ext a = Fin (of_int m / 2 ^ j) \<Longrightarrow> \<bar>m\<bar> \<le> B \<Longrightarrow> dyadic j B a"
  by (auto simp: dyadic_def)

lemma dyadic_int: "\<bar>n\<bar> \<le> B \<Longrightarrow> dyadic 0 B (PInt n)"
  unfolding dyadic_def by (rule exI[of _ n]) simp

lemma dyadic_num_float:
  assumes "dyadic j B a" "B \<le> 2 ^ 53"
  shows "num_float a = Inr (num_ext a)"
proof (cases a)
  case (PInt n)
  from assms(1) obtain m where m: "rat_of_int n = of_int m / 2 ^ j" "\<bar>m\<bar> \<le> B"
    by (auto simp: dyadic_def PInt)
  have "rat_of_int (n * 2 ^ j) = of_int m" using m(1) by simp
  then have "n * 2 ^ j = m" by (simp only: of_int_eq_iff)
  moreover have "\<bar>n\<bar> * 1 \<le> \<bar>n\<bar> * 2 ^ j" by (rule mult_left_mono) auto
  ultimately have "\<bar>n\<bar> \<le> \<bar>m\<bar>" by (auto simp: abs_mult)
  then show ?thesis using PInt m(2) assms(2) by (simp add: float_of_int_exact)
qed simp

lemma dyadic_weaken: "dyadic j B a \<Longrightarrow> B \<le> B' \<Longrightarrow> dyadic j B' a"
  by (auto simp: dyadic_def)

lemma dyadic_scale: "dyadic j B a \<Longrightarrow> dyadic (Suc j) (2 * B) a"
  unfolding dyadic_def by (elim exE) (rule_tac x = "2 * m" in exI, auto)

lemma dyadic_arith:
  assumes "dyadic j A a" "dyadic j B b" "A + B \<le> 2 ^ 53" "0 \<le> A" "0 \<le> B" "j \<le> 1000"
  shows "\<exists>c. num_add a b = Inr c \<and> dyadic j (A + B) c \<and> num_rat c = num_rat a + num_rat b"
    "\<exists>c. num_sub a b = Inr c \<and> dyadic j (A + B) c \<and> num_rat c = num_rat a - num_rat b"
proof -
  obtain m where m: "num_ext a = Fin (of_int m / 2 ^ j)" "\<bar>m\<bar> \<le> A" using assms(1) by (auto simp: dyadic_def)
  obtain n where n: "num_ext b = Fin (of_int n / 2 ^ j)" "\<bar>n\<bar> \<le> B" using assms(2) by (auto simp: dyadic_def)
  have f: "num_float a = Inr (num_ext a)" "num_float b = Inr (num_ext b)"
    using assms by (auto intro!: dyadic_num_float)
  have p: "f_add (num_ext a) (num_ext b) = Fin (of_int (m + n) / 2 ^ j)"
    using fl_exact_scaled[of "of_int (m + n) / 2 ^ j" "m + n" j] m n assms(3,6)
    by (simp add: add_divide_distrib)
  have q: "f_sub (num_ext a) (num_ext b) = Fin (of_int (m - n) / 2 ^ j)"
    using fl_exact_scaled[of "of_int (m - n) / 2 ^ j" "m - n" j] m n assms(3,6)
    by (simp add: diff_divide_distrib)
  have rt: "num_rat a = of_int m / 2 ^ j" "num_rat b = of_int n / 2 ^ j" using m n by (simp_all add: num_rat_def)
  have s: "\<bar>m + n\<bar> \<le> A + B" "\<bar>m - n\<bar> \<le> A + B" using m(2) n(2) by auto
  show "\<exists>c. num_add a b = Inr c \<and> dyadic j (A + B) c \<and> num_rat c = num_rat a + num_rat b"
  proof (cases "(\<exists>x. a = PInt x) \<and> (\<exists>y. b = PInt y)")
    case True
    then obtain x y where xy: "a = PInt x" "b = PInt y" by blast
    have "rat_of_int (x + y) = of_int (m + n) / 2 ^ j" using m n xy by (simp add: add_divide_distrib)
    then show ?thesis using p s(1) xy by (auto simp: rt add_divide_distrib intro!: dyadicI[of _ "m + n"])
  next
    case False
    then have "num_add a b = Inr (PFloat (f_add (num_ext a) (num_ext b)))"
      using f by (auto simp: num_add_def num_arith_def split: pynum.splits)
    then show ?thesis using p s(1) by (auto simp: rt add_divide_distrib intro!: dyadicI[of _ "m + n"])
  qed
  show "\<exists>c. num_sub a b = Inr c \<and> dyadic j (A + B) c \<and> num_rat c = num_rat a - num_rat b"
  proof (cases "(\<exists>x. a = PInt x) \<and> (\<exists>y. b = PInt y)")
    case True
    then obtain x y where xy: "a = PInt x" "b = PInt y" by blast
    have "rat_of_int (x - y) = of_int (m - n) / 2 ^ j" using m n xy by (simp add: diff_divide_distrib)
    then show ?thesis using q s(2) xy by (auto simp: rt diff_divide_distrib intro!: dyadicI[of _ "m - n"])
  next
    case False
    then have "num_sub a b = Inr (PFloat (f_sub (num_ext a) (num_ext b)))"
      using f by (auto simp: num_sub_def num_arith_def split: pynum.splits)
    then show ?thesis using q s(2) by (auto simp: rt diff_divide_distrib intro!: dyadicI[of _ "m - n"])
  qed
qed

lemma dyadic_abs: "dyadic j B a \<Longrightarrow> dyadic j B (num_abs a)"
proof -
  assume "dyadic j B a"
  then obtain m where m: "num_ext a = Fin (of_int m / 2 ^ j)" "\<bar>m\<bar> \<le> B" by (auto simp: dyadic_def)
  have "num_ext (num_abs a) = f_abs (num_ext a)" by (cases a) simp_all
  then have "num_ext (num_abs a) = Fin (of_int \<bar>m\<bar> / 2 ^ j)" using m(1) by simp
  then show ?thesis using m(2) by (intro dyadicI[of _ "\<bar>m\<bar>"]) simp_all
qed

lemma num_rat_abs: "dyadic j B a \<Longrightarrow> 0 \<le> num_rat (num_abs a)"
  by (cases a) (auto simp: dyadic_def num_rat_def)

lemma dyadic_half:
  assumes "dyadic j B a" "B \<le> 2 ^ 53" "j \<le> 1000"
  shows "\<exists>c. num_half a = Inr c \<and> dyadic (Suc j) B c \<and> num_rat c = num_rat a / 2"
proof -
  obtain m where m: "num_ext a = Fin (of_int m / 2 ^ j)" "\<bar>m\<bar> \<le> B" using assms(1) by (auto simp: dyadic_def)
  have "fl (of_int m / 2 ^ j / 2) = Fin (of_int m / 2 ^ (Suc j))"
    using fl_exact_scaled[of "of_int m / 2 ^ Suc j" m "Suc j"] m(2) assms(2,3)
    by (simp add: mult.commute)
  then show ?thesis using m by (cases a) (auto simp: num_rat_def intro!: dyadicI[of _ m])
qed

lemma count_prefix: "(\<And>i. i < h \<Longrightarrow> P (xs ! i)) \<Longrightarrow> h \<le> length xs \<Longrightarrow> h \<le> length (filter P xs)"
proof -
  assume a: "\<And>i. i < h \<Longrightarrow> P (xs ! i)" "h \<le> length xs"
  have "\<forall>x \<in> set (take h xs). P x" using a by (auto simp: in_set_conv_nth)
  then have "filter P (take h xs) = take h xs" by simp
  then have "h = length (filter P (take h xs))" using a(2) by simp
  also have "\<dots> \<le> length (filter P (take h xs @ drop h xs))" by (simp only: filter_append length_append)
  finally show ?thesis by simp
qed

lemma filter_length_perm: "mset xs = mset ys \<Longrightarrow> length (filter P xs) = length (filter P ys)"
  by (metis mset_filter size_mset)

lemma median_dyadic:
  assumes "data \<noteq> []" "\<forall>a \<in> set data. dyadic j B a" "2 * B \<le> 2 ^ 53" "0 \<le> B" "j < 1000"
  shows "\<exists>c. median data = Inr c \<and> dyadic (Suc j) (2 * B) c \<and>
    length data \<le> 2 * length (filter (\<lambda>a. num_le a c) data)"
proof -
  let ?s = "sort_key num_key data" and ?n = "length data"
  let ?h = "?n div 2"
  have dy: "dyadic j B (?s ! i)" if "i < ?n" for i
    using assms(2) that by (metis length_sort nth_mem set_sort)
  have srt: "sorted (map num_key ?s)" by (rule sorted_sort_key)
  have le: "num_rat (?s ! i) \<le> num_rat (?s ! k)" if "i \<le> k" "k < ?n" for i k
  proof -
    have "num_key (?s ! i) \<le> num_key (?s ! k)"
      using sorted_nth_mono[OF srt, of i k] that by simp
    then show ?thesis using dyadic_ext[OF dy, of i] dyadic_ext[OF dy, of k] that
      by (simp add: num_key_def)
  qed
  have cnt: "length (filter P ?s) = length (filter P data)" for P by (rule filter_length_perm) simp
  have n: "0 < ?n" using assms(1) by simp
  have ne: "?s \<noteq> []" using assms(1) by (metis length_0_conv length_sort)
  show ?thesis
  proof (cases "odd ?n")
    case True
    have hn: "?h < ?n" using n by simp
    have d: "dyadic (Suc j) (2 * B) (?s ! ?h)" using dyadic_scale[OF dy[OF hn]] .
    have "Suc ?h \<le> length (filter (\<lambda>a. num_le a (?s ! ?h)) ?s)"
      by (rule count_prefix) (use hn in \<open>auto simp: dyadic_le[OF dy dy] intro!: le\<close>)
    moreover have "median data = Inr (?s ! ?h)" using True ne by (simp add: median_def Let_def)
    ultimately show ?thesis using d cnt by (intro exI[of _ "?s ! ?h"]) auto
  next
    case False
    then have h: "1 \<le> ?h" "?h < ?n" "?h - 1 < ?n" using n by presburger+
    obtain t where t: "num_add (?s ! (?h - 1)) (?s ! ?h) = Inr t" "dyadic j (B + B) t"
      "num_rat t = num_rat (?s ! (?h - 1)) + num_rat (?s ! ?h)"
      using dyadic_arith(1)[OF dy[OF h(3)] dy[OF h(2)]] assms(3-5) by auto
    obtain c where c: "num_half t = Inr c" "dyadic (Suc j) (B + B) c" "num_rat c = num_rat t / 2"
      using dyadic_half[OF t(2)] assms(3,5) by auto
    have "num_rat (?s ! (?h - 1)) \<le> num_rat (?s ! ?h)" by (rule le) (use h in auto)
    then have mid: "num_rat (?s ! (?h - 1)) \<le> num_rat c" using c(3) t(3) by simp
    have "num_rat (?s ! i) \<le> num_rat c" if "i < ?h" for i
      using le[of i "?h - 1"] mid that h by linarith
    then have "?h \<le> length (filter (\<lambda>a. num_le a c) ?s)"
      by (intro count_prefix) (use h in \<open>auto simp: dyadic_le[OF dy c(2)]\<close>)
    moreover have "median data = Inr c" using False ne t(1) c(1) by (simp add: median_def Let_def)
    ultimately show ?thesis using c(2) cnt False by (intro exI[of _ c]) auto
  qed
qed

section \<open>MAD rejection\<close>

lemma length_filter_zip:
  "length ys = length xs \<Longrightarrow> length (filter (\<lambda>(x, y). P y) (zip xs ys)) = length (filter P ys)"
  by (induction rule: list_induct2[of ys xs]) auto

lemma length_filter_mono: "(\<And>x. P x \<Longrightarrow> R x) \<Longrightarrow> length (filter P xs) \<le> length (filter R xs)"
  by (induction xs) (auto intro: le_SucI)

lemma mapE_exists:
  assumes "\<forall>x \<in> set xs. \<exists>y. f x = Inr y \<and> P y"
  shows "\<exists>ys. mapE f xs = Inr ys \<and> (\<forall>y \<in> set ys. P y)"
  using assms by (induction xs) auto

lemma default_mad_ge_1: "Fin 1 \<le> default_mad"
proof -
  have "fl 1 = Fin 1" using fl_exact_int[of 1] by simp
  then show ?thesis using fl_mono[of 1 "224 / 100"] by (simp add: default_mad_def)
qed

lemma threshold_ge:
  assumes "dyadic j B a" "B \<le> 2 ^ 53" "j \<le> 1000" "0 \<le> num_rat a" "Fin 1 \<le> c" "c \<noteq> PInf \<or> num_rat a \<noteq> 0"
  shows "\<exists>t. num_mul (PFloat c) a = Inr t \<and> num_le a t"
proof -
  have e: "num_ext a = Fin (num_rat a)" using assms(1) by (rule dyadic_ext)
  have m: "num_mul (PFloat c) a = Inr (PFloat (f_mul c (Fin (num_rat a))))"
    using dyadic_num_float[OF assms(1,2)] e by (simp add: num_mul_def num_arith_def)
  obtain k where k: "num_rat a = of_int k / 2 ^ j" "\<bar>k\<bar> \<le> B"
    using assms(1) by (auto simp: dyadic_def num_rat_def)
  have x: "fl (num_rat a) = Fin (num_rat a)"
    by (rule fl_exact_scaled[OF k(1)]) (use k(2) assms in auto)
  show ?thesis
  proof (cases c)
    case (Fin q)
    then have "num_rat a \<le> q * num_rat a" using assms(4,5) mult_right_mono[of 1 q "num_rat a"] by simp
    from fl_mono[OF this] have "Fin (num_rat a) \<le> fl (q * num_rat a)" by (simp add: x)
    then show ?thesis using m Fin by (simp add: num_le_def e)
  next
    case PInf
    then show ?thesis using m assms(4,6) by (auto simp: num_le_def e f_inf_def)
  qed (use assms(5) in auto)
qed

theorem mad_keeps_half_aux:
  assumes "bounded 48 (map ps_value ss)" "Fin 1 \<le> cfg_mad cfg"
  shows "\<exists>acc rej. reject_outliers_mad cfg ss = Inr (acc, rej) \<and> length ss \<le> 2 * length acc"
proof (cases "length ss \<le> 1")
  case True
  then show ?thesis by (simp add: reject_outliers_mad_def)
next
  case False
  let ?vs = "map ps_value ss"
  have ne: "ss \<noteq> []" using False by auto
  have dv: "\<forall>a \<in> set (map PInt ?vs). dyadic 0 (2 ^ 48) a"
    using assms(1) by (auto simp: bounded_def intro!: dyadic_int)
  obtain med where med: "median (map PInt ?vs) = Inr med" "dyadic 1 (2 ^ 49) med"
    using median_dyadic[OF _ dv] ne by auto
  have dev: "\<forall>v \<in> set ?vs. \<exists>d. deviation med v = Inr d \<and> dyadic 1 (2 ^ 50) d \<and> 0 \<le> num_rat d"
  proof
    fix v assume "v \<in> set ?vs"
    then have "dyadic 1 (2 ^ 49) (PInt v)"
      using dv dyadic_scale[of 0 "2 ^ 48" "PInt v"] by auto
    then obtain c where "num_sub (PInt v) med = Inr c" "dyadic 1 (2 ^ 50) c"
      using dyadic_arith(2)[of 1 "2 ^ 49" "PInt v" "2 ^ 49" med] med(2) by auto
    then show "\<exists>d. deviation med v = Inr d \<and> dyadic 1 (2 ^ 50) d \<and> 0 \<le> num_rat d"
      by (auto simp: deviation_def num_rat_abs intro: dyadic_abs)
  qed
  obtain ds where ds: "mapE (deviation med) ?vs = Inr ds" "\<forall>d \<in> set ds. dyadic 1 (2 ^ 50) d \<and> 0 \<le> num_rat d"
    using mapE_exists[OF dev] by auto
  have dne: "ds \<noteq> []" using mapE_length[OF ds(1)] ne by auto
  have dj: "\<forall>d \<in> set ds. dyadic 1 (2 ^ 50) d" using ds(2) by blast
  obtain mad where mad: "median ds = Inr mad" "dyadic 2 (2 ^ 51) mad"
      "length ds \<le> 2 * length (filter (\<lambda>a. num_le a mad) ds)"
    using median_dyadic[OF dne dj] by (auto simp: numeral_2_eq_2)
  have ds': "mapE (\<lambda>s. deviation med (ps_value s)) ss = Inr ds"
    using ds(1) by (simp add: mapE_Inr_iff list_all2_map1)
  show ?thesis
  proof (cases "num_eq mad (PInt 0)")
    case True
    then show ?thesis using med mad ds False by (simp add: reject_outliers_mad_def Let_def)
  next
    case False
    have "filter (\<lambda>a. num_le a mad) ds \<noteq> []" using mad(3) dne by auto
    then obtain d where d: "d \<in> set ds" "num_le d mad" by (metis filter_False)
    then have "num_rat d \<le> num_rat mad" using ds(2) mad(2) by (auto simp: dyadic_le)
    then have pos: "0 \<le> num_rat mad" using ds(2) d(1) by fastforce
    have "num_rat mad \<noteq> 0"
      using False dyadic_ext[OF mad(2)] by (auto simp: num_eq_def f_eq_def)
    then obtain t where t: "num_mul (PFloat (cfg_mad cfg)) mad = Inr t" "num_le mad t"
      using threshold_ge[OF mad(2) _ _ pos assms(2)] by auto
    let ?acc = "map fst (filter (\<lambda>(s, d). num_le d t) (zip ss ds))"
    have "length ds = length ss" using mapE_length[OF ds'] .
    then have "length ?acc = length (filter (\<lambda>d. num_le d t) ds)" by (simp add: length_filter_zip)
    moreover have "length (filter (\<lambda>a. num_le a mad) ds) \<le> length (filter (\<lambda>d. num_le d t) ds)"
      by (rule length_filter_mono) (use num_le_trans t(2) in blast)
    ultimately have "length ss \<le> 2 * length ?acc"
      using mad(3) \<open>length ds = length ss\<close> by linarith
    moreover have "reject_outliers_mad cfg ss = Inr (?acc,
        map (ps_id \<circ> fst) (filter (\<lambda>(s, d). \<not> num_le d t) (zip ss ds)))"
      using med mad ds ds' t False \<open>\<not> length ss \<le> 1\<close> by (simp add: reject_outliers_mad_def Let_def)
    ultimately show ?thesis by blast
  qed
qed

end
