(* ===== verification/Aggregation_Properties.thy ===== *)
theory Aggregation_Properties
  imports Aggregation_Quartiles
begin

text \<open>
  What aggregation promises: every provided source is either used or reported as rejected, the
  result does not depend on the order of the sources, the weighted median is the exact one for
  weights that add up exactly, and what the two rejection methods keep. Two boundary behaviours are
  stated too: a NaN weight and values beyond 53 bits.
\<close>

section \<open>Samples\<close>

definition src :: "string \<Rightarrow> int \<Rightarrow> rat \<Rightarrow> price_source" where
  "src i v w = \<lparr>ps_id = lit i, ps_value = v, ps_weight = Fin w, ps_meta = []\<rparr>"

lemma src_sel [simp]: "ps_id (src i v w) = lit i" "ps_value (src i v w) = v" "ps_weight (src i v w) = Fin w"
  by (simp_all add: src_def)

definition cfg_of :: "string list \<Rightarrow> outlier_method \<Rightarrow> int \<Rightarrow> agg_config" where
  "cfg_of ids m n = \<lparr>cfg_sources = map lit ids, cfg_weights = map (\<lambda>i. (lit i, Fin 1)) ids, cfg_method = m,
     cfg_iqr = default_iqr, cfg_mad = default_mad, cfg_min = n\<rparr>"

section \<open>The aggregate\<close>

text \<open>C17: the result of an aggregation is a function of the set of sources: with distinct
  identifiers, any order of the provided sources gives the same result, or the same error.\<close>

theorem aggregate_order_independent:
  assumes "mset provided = mset provided'" "distinct (map ps_id provided)"
  shows "aggregate cfg provided = aggregate cfg provided'"
proof -
  have "sort_key ps_id provided = sort_key ps_id provided'" using assms by (rule sort_key_perm)
  moreover have ids: "set (map ps_id provided) = set (map ps_id provided')"
    using assms(1) by (metis mset_map set_mset_mset)
  moreover have "sort (remdups (filter P (map ps_id provided))) = sort (remdups (filter P (map ps_id provided')))" for P
    by (rule sorted_distinct_set_unique) (use ids in auto)
  ultimately show ?thesis by (simp only: aggregate_def Let_def)
qed

lemma aggregate_order_independent_witness:
  "aggregate (cfg_of [''b'', ''a''] IQR 1) [src ''b'' 7 2, src ''a'' 5 1]
   = aggregate (cfg_of [''b'', ''a''] IQR 1) [src ''a'' 5 1, src ''b'' 7 2]"
  by (rule aggregate_order_independent) simp_all


lemma reject_when: "(if cfg_method cfg \<noteq> NONE then reject_outliers cfg ss else Inr (ss, [])) = reject_outliers cfg ss"
  by (simp add: reject_outliers_def)

lemma aggregateE:
  assumes "aggregate cfg provided = Inr r"
  obtains acc rej agg ws where
    "set (map ps_id provided) = set (cfg_sources cfg)"
    "reject_outliers cfg (sort_key ps_id provided) = Inr (acc, rej)"
    "cfg_min cfg \<le> int (length acc)" "weighted_median acc = Inr agg"
    "mapE (\<lambda>s. bindE (dict_at (ps_id s) (cfg_weights cfg)) (\<lambda>w. Inr (ps_id s, w))) acc = Inr ws"
    "r = \<lparr>ar_value = agg, ar_source_values = dict_of (map (\<lambda>s. (ps_id s, ps_value s)) acc),
          ar_weights = dict_of ws, ar_rejected = rej, ar_method = lit ''weighted_median'',
          ar_outlier = method_value (cfg_method cfg)\<rparr>"
  using assms unfolding aggregate_def Let_def reject_when
  by (auto simp: res_simps split: if_splits prod.splits)

lemma weights_pairs:
  assumes "mapE (\<lambda>s. bindE (dict_at (ps_id s) d) (\<lambda>w. Inr (ps_id s, w))) ss = Inr ws"
  shows "map fst ws = map ps_id ss" "\<forall>(i, w) \<in> set ws. map_of d i = Some w"
  using assms by (induction ss arbitrary: ws) (auto simp: res_simps)

text \<open>C8: a successful aggregation accounts for every provided source once: its identifier is a key of
  the source values, with its own value, or is listed as rejected; at least the configured minimum
  of sources is used, the aggregate is one of the used values (a weighted median in the sense of the
  code's docstring, never a mean of two values), and each reported weight is the configured weight of
  its source. Two tests of the repository expect 1005 for the values 1000 and 1010
  (\<open>test_reject_single_high_outlier\<close> and its low counterpart); the project deselects them
  as disagreeing with the code, and the lemma \<open>disputed_fixtures\<close> gives what the code
  returns for them.\<close>

theorem aggregate_accounts:
  assumes "aggregate cfg provided = Inr r" "distinct (map ps_id provided)"
  shows "mset (dict_keys (ar_source_values r) @ ar_rejected r) = mset (map ps_id provided) \<and>
    distinct (dict_keys (ar_source_values r) @ ar_rejected r) \<and>
    set (map ps_id provided) = set (cfg_sources cfg) \<and>
    (\<forall>(i, v) \<in> set (ar_source_values r). \<exists>s \<in> set provided. ps_id s = i \<and> ps_value s = v) \<and>
    cfg_min cfg \<le> int (length (ar_source_values r)) \<and>
    ar_value r \<in> snd ` set (ar_source_values r) \<and>
    dict_keys (ar_weights r) = dict_keys (ar_source_values r) \<and>
    (\<forall>(i, w) \<in> set (ar_weights r). map_of (cfg_weights cfg) i = Some w)"
proof -
  let ?ss = "sort_key ps_id provided"
  from assms(1) obtain acc rej agg ws where r:
    "set (map ps_id provided) = set (cfg_sources cfg)"
    "reject_outliers cfg ?ss = Inr (acc, rej)"
    "cfg_min cfg \<le> int (length acc)" "weighted_median acc = Inr agg"
    "mapE (\<lambda>s. bindE (dict_at (ps_id s) (cfg_weights cfg)) (\<lambda>w. Inr (ps_id s, w))) acc = Inr ws"
    "r = \<lparr>ar_value = agg, ar_source_values = dict_of (map (\<lambda>s. (ps_id s, ps_value s)) acc),
          ar_weights = dict_of ws, ar_rejected = rej, ar_method = lit ''weighted_median'',
          ar_outlier = method_value (cfg_method cfg)\<rparr>"
    by (rule aggregateE)
  have perm: "mset (map ps_id ?ss) = mset (map ps_id provided)" by (metis mset_map mset_sort)
  then have m: "mset (map ps_id acc @ rej) = mset (map ps_id provided)" using any.ids_partition[OF r(2)] by simp
  then have d: "distinct (map ps_id acc @ rej)" using assms(2) mset_eq_imp_distinct_iff by blast
  have sub: "set acc \<subseteq> set provided" using any.accepted_subset[OF r(2)] by simp
  have sv: "ar_source_values r = map (\<lambda>s. (ps_id s, ps_value s)) acc"
    unfolding r(6) using d by (simp add: dict_of_distinct comp_def)
  have keys: "dict_keys (ar_source_values r) = map ps_id acc" unfolding sv by simp
  have wv: "ar_weights r = ws" unfolding r(6) using d weights_pairs(1)[OF r(5)] by (simp add: dict_of_distinct)
  have "agg \<in> ps_value ` set acc" using weighted_median_member[OF r(4)] .
  then have "ar_value r \<in> snd ` set (ar_source_values r)" unfolding sv by (auto simp: r(6) image_iff)
  moreover have "\<forall>(i, v) \<in> set (ar_source_values r). \<exists>s \<in> set provided. ps_id s = i \<and> ps_value s = v"
    unfolding sv using sub by auto
  moreover have "cfg_min cfg \<le> int (length (ar_source_values r))" unfolding sv using r(3) by simp
  moreover have "ar_rejected r = rej" by (simp add: r(6))
  ultimately show ?thesis
    using m d r(1) keys wv weights_pairs[OF r(5)] by (simp only: simp_thms)
qed

definition pair :: "price_source list" where
  "pair = [src ''b'' 7 2, src ''a'' 5 1]"

lemma pair_sorts:
  "sort_key ps_id pair = [src ''a'' 5 1, src ''b'' 7 2]" "sort_key ps_value pair = [src ''a'' 5 1, src ''b'' 7 2]"
  "sort_key ps_value [src ''a'' 5 1, src ''b'' 7 2] = [src ''a'' 5 1, src ''b'' 7 2]"
  by (simp_all add: pair_def lit_def)

lemma pair_median: "weighted_median [src ''a'' 5 1, src ''b'' 7 2] = Inr 7"
proof -
  have "fl 1 = Fin 1" "fl 3 = Fin 3" using fl_exact_int[of 1] fl_exact_int[of 3] by simp_all
  moreover have "fl (3 / 2) = Fin (3 / 2)" by (rule fl_exact_scaled[of _ 3 1]) auto
  ultimately show ?thesis by (simp add: weighted_median_def Let_def f_sum_def pair_sorts)
qed

lemma pair_aggregate:
  "aggregate (cfg_of [''a'', ''b''] IQR 2) pair = Inr \<lparr>ar_value = 7,
     ar_source_values = [(lit ''a'', 5), (lit ''b'', 7)], ar_weights = [(lit ''a'', Fin 1), (lit ''b'', Fin 1)],
     ar_rejected = [], ar_method = lit ''weighted_median'', ar_outlier = lit ''iqr''\<rparr>"
proof -
  have "set (map ps_id pair) = {lit ''a'', lit ''b''}" by (auto simp: pair_def)
  then show ?thesis
    by (simp add: aggregate_def pair_sorts cfg_of_def reject_outliers_def reject_outliers_iqr_def
        pair_median dict_at_def dict_of_def insert_commute)
qed

lemma aggregate_accounts_witness:
  "\<exists>r. aggregate (cfg_of [''a'', ''b''] IQR 2) pair = Inr r \<and>
     mset (dict_keys (ar_source_values r) @ ar_rejected r) = mset (map ps_id pair)"
proof -
  have "distinct (map ps_id pair)" by (simp add: pair_def)
  from aggregate_accounts[OF pair_aggregate this] pair_aggregate show ?thesis by blast
qed

text \<open>With the provided sources those configured and a configured weight for each, an
  aggregation fails only when the rejection method itself raises or leaves fewer sources than the
  minimum; the weighted median never fails on what is left.\<close>

theorem aggregate_fails_only:
  assumes "set (map ps_id provided) = set (cfg_sources cfg)" "1 \<le> cfg_min cfg"
    "set (cfg_sources cfg) \<subseteq> set (dict_keys (cfg_weights cfg))"
  shows "(\<exists>r. aggregate cfg provided = Inr r) \<longleftrightarrow>
    (\<exists>acc rej. reject_outliers cfg (sort_key ps_id provided) = Inr (acc, rej) \<and>
      cfg_min cfg \<le> int (length acc))"
proof
  assume "\<exists>r. aggregate cfg provided = Inr r"
  then show "\<exists>acc rej. reject_outliers cfg (sort_key ps_id provided) = Inr (acc, rej) \<and>
      cfg_min cfg \<le> int (length acc)" by (auto elim: aggregateE)
next
  assume "\<exists>acc rej. reject_outliers cfg (sort_key ps_id provided) = Inr (acc, rej) \<and>
      cfg_min cfg \<le> int (length acc)"
  then obtain acc rej where a: "reject_outliers cfg (sort_key ps_id provided) = Inr (acc, rej)"
    "cfg_min cfg \<le> int (length acc)" by blast
  then have "acc \<noteq> []" using assms(2) by auto
  then obtain v where v: "weighted_median acc = Inr v" using weighted_median_total by blast
  let ?f = "\<lambda>s. bindE (dict_at (ps_id s) (cfg_weights cfg)) (\<lambda>w. Inr (ps_id s, w))"
  have "\<forall>s \<in> set acc. \<exists>y. ?f s = Inr y \<and> True"
  proof
    fix s assume "s \<in> set acc"
    then have "ps_id s \<in> set (dict_keys (cfg_weights cfg))"
      using any.accepted_subset[OF a(1)] assms(1,3) by auto
    then obtain w where "map_of (cfg_weights cfg) (ps_id s) = Some w"
      by (metis map_of_eq_None_iff not_None_eq set_map)
    then show "\<exists>y. ?f s = Inr y \<and> True" by (simp add: dict_at_def)
  qed
  from mapE_exists[OF this] obtain ws where "mapE ?f acc = Inr ws" by blast
  with a v assms(1) show "\<exists>r. aggregate cfg provided = Inr r"
    unfolding aggregate_def Let_def reject_when by simp
qed

lemma aggregate_fails_only_witness:
  "\<not> (\<exists>r. aggregate (cfg_of [''a'', ''b''] NONE 3) pair = Inr r)"
proof -
  have "set (map ps_id pair) = set (cfg_sources (cfg_of [''a'', ''b''] NONE 3))"
    "1 \<le> cfg_min (cfg_of [''a'', ''b''] NONE 3)"
    "set (cfg_sources (cfg_of [''a'', ''b''] NONE 3)) \<subseteq> set (dict_keys (cfg_weights (cfg_of [''a'', ''b''] NONE 3)))"
    by (auto simp: pair_def cfg_of_def)
  from aggregate_fails_only[OF this] show ?thesis
    by (auto simp: reject_outliers_def cfg_of_def pair_sorts)
qed

section \<open>The weighted median\<close>

lemma sorted_le_last: "sorted xs \<Longrightarrow> y \<in> set xs \<Longrightarrow> y \<le> last xs"
  by (induction xs) auto

text \<open>C18: for positive weights whose sums are exact, the weighted median is a value of a source such
  that the sources below it weigh less than half of the total, and those up to it at least half: the
  lower weighted median, which for equal weights on 1000 and 1010 is 1000. The comment "Median of
  1000, 1010 = 1005" in two tests that the project deselects describes another median, the mean of the
  two middle values.\<close>

theorem weighted_median_exact:
  assumes "ss \<noteq> []" "exact_weights k iw ss"
  shows "\<exists>v. weighted_median ss = Inr v \<and> v \<in> ps_value ` set ss \<and>
    2 * weight_where iw (\<lambda>s. ps_value s < v) ss < weight_where iw (\<lambda>s. True) ss \<and>
    weight_where iw (\<lambda>s. True) ss \<le> 2 * weight_where iw (\<lambda>s. ps_value s \<le> v) ss"
  using assms by (rule weighted_median_exact_aux)

lemma weighted_median_exact_witness:
  "\<exists>v. weighted_median pair = Inr v \<and> v \<in> {5, 7} \<and>
     2 * weight_where (\<lambda>s. if ps_id s = lit ''a'' then 1 else 2) (\<lambda>s. ps_value s < v) pair < 3"
proof -
  have "exact_weights 0 (\<lambda>s. if ps_id s = lit ''a'' then 1 else 2) pair"
    by (simp add: exact_weights_def pair_def)
  from weighted_median_exact[OF _ this] show ?thesis by (auto simp: pair_def)
qed

text \<open>C29: for positive weights of any size the loop of the weighted median returns before its end, so
  the fallback after it is not taken; with a NaN weight, which the constructors accept, the loop
  never returns and the result is the largest value.\<close>

theorem weighted_median_fallback:
  assumes "ss \<noteq> []"
  shows "((\<forall>s \<in> set ss. pos_weight (ps_weight s)) \<longrightarrow>
      wm_loop (f_div_fin (f_sum (map ps_weight (sort_key ps_value ss))) 2) (Fin 0) (sort_key ps_value ss) \<noteq> None) \<and>
    (NaN \<in> set (map ps_weight ss) \<longrightarrow> weighted_median ss = Inr (Max (ps_value ` set ss))) \<and>
    mk_price_source i v NaN m = Inr \<lparr>ps_id = i, ps_value = v, ps_weight = NaN, ps_meta = m\<rparr>"
proof (intro conjI impI)
  have ne: "sort_key ps_value ss \<noteq> []" using assms by (metis length_0_conv length_sort)
  show "mk_price_source i v NaN m = Inr \<lparr>ps_id = i, ps_value = v, ps_weight = NaN, ps_meta = m\<rparr>"
    by (simp add: mk_price_source_def)
  {
    assume "\<forall>s \<in> set ss. pos_weight (ps_weight s)"
    then show "wm_loop (f_div_fin (f_sum (map ps_weight (sort_key ps_value ss))) 2) (Fin 0)
        (sort_key ps_value ss) \<noteq> None"
      using wm_loop_returns[OF ne] by auto
  }
  assume "NaN \<in> set (map ps_weight ss)"
  then have "f_sum (map ps_weight (sort_key ps_value ss)) = NaN" by (intro f_sum_NaN) simp
  then have "weighted_median ss = Inr (ps_value (last (sort_key ps_value ss)))"
    using assms by (simp add: weighted_median_def Let_def wm_loop_NaN)
  moreover have "ps_value (last (sort_key ps_value ss)) = Max (ps_value ` set ss)"
  proof (rule Max_eqI[symmetric])
    show "ps_value (last (sort_key ps_value ss)) \<in> ps_value ` set ss"
      using ne by (metis image_eqI last_in_set set_sort)
    fix y assume "y \<in> ps_value ` set ss"
    then obtain s where s: "s \<in> set (sort_key ps_value ss)" "y = ps_value s" by auto
    have srt: "sorted (map ps_value (sort_key ps_value ss))" by simp
    have "y \<in> set (map ps_value (sort_key ps_value ss))" using s by auto
    then have "y \<le> last (map ps_value (sort_key ps_value ss))" by (rule sorted_le_last[OF srt])
    then show "y \<le> ps_value (last (sort_key ps_value ss))" using ne by (simp add: last_map)
  qed simp
  ultimately show "weighted_median ss = Inr (Max (ps_value ` set ss))" by simp
qed

lemma weighted_median_fallback_witness:
  "weighted_median [src ''a'' 5 1, \<lparr>ps_id = lit ''b'', ps_value = 3, ps_weight = NaN, ps_meta = []\<rparr>] = Inr 5"
  using weighted_median_fallback[of "[src ''a'' 5 1, \<lparr>ps_id = lit ''b'', ps_value = 3, ps_weight = NaN, ps_meta = []\<rparr>]"]
  by simp

section \<open>Outlier rejection\<close>

text \<open>IQR rejection with the default multiplier never rejects a source when at most five are given,
  however far one of them is from the others.\<close>

theorem iqr_inert_up_to_five:
  assumes "cfg_iqr cfg = default_iqr" "length ss \<le> 5" "bounded 48 (map ps_value ss)"
  shows "reject_outliers_iqr cfg ss = Inr (ss, [])"
proof (cases "length ss \<le> 2")
  case True
  then show ?thesis by (simp add: reject_outliers_iqr_def)
next
  case False
  then have l: "3 \<le> length ss" "int (length ss) < 2 ^ 50" using assms(2) by auto
  have "tukey (map ps_value ss) (ps_value s)" if "s \<in> set ss" for s
    by (rule tukey_few) (use l assms(2) that in auto)
  then have "split_by (\<lambda>s. tukey (map ps_value ss) (ps_value s)) ss = (ss, [])"
    by (simp add: split_by_def filter_empty_conv)
  then show ?thesis using iqr_exact[OF assms(1) l assms(3)] by simp
qed

lemma iqr_inert_up_to_five_witness:
  "reject_outliers_iqr (cfg_of [''a'', ''b'', ''c''] IQR 1) [src ''a'' 100 1, src ''b'' 101 1, src ''c'' 1000000 1]
   = Inr ([src ''a'' 100 1, src ''b'' 101 1, src ''c'' 1000000 1], [])"
  by (rule iqr_inert_up_to_five) (simp_all add: cfg_of_def bounded_def)

text \<open>C25: on at least three sources with values up to \<open>2 ^ 48\<close> in size, IQR rejection with the default
  multiplier is exactly Tukey's rule on the interpolated quartiles: the floating-point percentiles,
  the fences and the comparisons lose nothing. On at most five sources this rule keeps every source,
  however far one of them is from the others. Eight tests of the repository expect a rejection among
  three or four sources; the project deselects them as disagreeing with the code.\<close>

theorem iqr_is_tukey:
  assumes "cfg_iqr cfg = default_iqr" "int (length ss) < 2 ^ 50" "bounded 48 (map ps_value ss)"
  shows "(3 \<le> length ss \<longrightarrow>
      reject_outliers_iqr cfg ss = Inr (split_by (\<lambda>s. tukey (map ps_value ss) (ps_value s)) ss)) \<and>
    (length ss \<le> 5 \<longrightarrow> reject_outliers_iqr cfg ss = Inr (ss, []))"
  using iqr_exact[OF assms(1) _ assms(2,3)] iqr_inert_up_to_five[OF assms(1) _ assms(3)] by simp

definition six :: "price_source list" where
  "six = [src ''a'' 10 1, src ''b'' 11 1, src ''c'' 12 1, src ''d'' 11 1, src ''e'' 13 1, src ''f'' 90 1]"

lemma six_tukey: "split_by (\<lambda>s. tukey (map ps_value six) (ps_value s)) six = (butlast six, [lit ''f''])"
  by (simp add: split_by_def six_def tukey_def quart4_def Let_def eval_nat_numeral)

lemma iqr_is_tukey_witness:
  "reject_outliers_iqr (cfg_of [''a'', ''b'', ''c'', ''d'', ''e'', ''f''] IQR 1) six = Inr (butlast six, [lit ''f''])"
  using iqr_is_tukey[of "cfg_of [''a'', ''b'', ''c'', ''d'', ''e'', ''f''] IQR 1" six]
  by (simp add: six_tukey) (simp add: six_def cfg_of_def bounded_def)

text \<open>What the code returns for the fixtures of the deselected tests: nothing is rejected, and the median
  of 1000 and 1010 at equal weights is 1000.\<close>

lemma disputed_fixtures:
  "\<exists>r. aggregate (cfg_of [''x'', ''t'', ''c''] IQR 1) [src ''x'' 1000 1, src ''t'' 1010 1, src ''c'' 2000 1] = Inr r \<and>
     ar_rejected r = [] \<and> ar_value r = 1010"
  "\<exists>r. aggregate (cfg_of [''x'', ''t'', ''c''] IQR 1) [src ''x'' 1000 1, src ''t'' 1010 1, src ''c'' 100 1] = Inr r \<and>
     ar_rejected r = [] \<and> ar_value r = 1000"
  "weighted_median [src ''x'' 1000 1, src ''t'' 1010 1] = Inr 1000"
proof -
  have f: "fl 1 = Fin 1" "fl 2 = Fin 2" "fl 3 = Fin 3" "fl (3 / 2) = Fin (3 / 2)"
    using fl_exact_int[of 1] fl_exact_int[of 2] fl_exact_int[of 3] fl_exact_scaled[of _ 3 1] by auto
  have order: "sort_key ps_id [src ''x'' a 1, src ''t'' b 1, src ''c'' c 1] = [src ''c'' c 1, src ''t'' b 1, src ''x'' a 1]" for a b c
    by (simp add: lit_def)
  let ?hi = "[src ''c'' 2000 1, src ''t'' 1010 1, src ''x'' 1000 1]" and ?lo = "[src ''c'' 100 1, src ''t'' 1010 1, src ''x'' 1000 1]"
  have keep: "reject_outliers_iqr (cfg_of [''x'', ''t'', ''c''] IQR 1) ?hi = Inr (?hi, [])"
    "reject_outliers_iqr (cfg_of [''x'', ''t'', ''c''] IQR 1) ?lo = Inr (?lo, [])"
    by (rule iqr_inert_up_to_five; simp add: cfg_of_def bounded_def)+
  have m: "weighted_median ?hi = Inr 1010" "weighted_median ?lo = Inr 1000"
    by (simp_all add: weighted_median_def Let_def f_sum_def f)
  show "weighted_median [src ''x'' 1000 1, src ''t'' 1010 1] = Inr 1000"
    by (simp add: weighted_median_def Let_def f_sum_def f)
  have ids: "set (map ps_id [src ''x'' a 1, src ''t'' b 1, src ''c'' c 1]) = set (cfg_sources (cfg_of [''x'', ''t'', ''c''] IQR 1))" for a b c
    by (auto simp: cfg_of_def)
  have c: "cfg_method (cfg_of [''x'', ''t'', ''c''] IQR 1) = IQR" "cfg_min (cfg_of [''x'', ''t'', ''c''] IQR 1) = 1"
    "cfg_weights (cfg_of [''x'', ''t'', ''c''] IQR 1) = [(lit ''x'', Fin 1), (lit ''t'', Fin 1), (lit ''c'', Fin 1)]"
    by (simp_all add: cfg_of_def)
  show "\<exists>r. aggregate (cfg_of [''x'', ''t'', ''c''] IQR 1) [src ''x'' 1000 1, src ''t'' 1010 1, src ''c'' 2000 1] = Inr r \<and>
     ar_rejected r = [] \<and> ar_value r = 1010"
    unfolding aggregate_def order Let_def using ids[of 1000 1010 2000]
    by (simp add: reject_outliers_def keep m c dict_at_def)
  show "\<exists>r. aggregate (cfg_of [''x'', ''t'', ''c''] IQR 1) [src ''x'' 1000 1, src ''t'' 1010 1, src ''c'' 100 1] = Inr r \<and>
     ar_rejected r = [] \<and> ar_value r = 1000"
    unfolding aggregate_def order Let_def using ids[of 1000 1010 100]
    by (simp add: reject_outliers_def keep m c dict_at_def)
qed

text \<open>Three sources with the same value are all accepted by IQR rejection when the value is a double,
  and all rejected when it is not, since the quartiles are floats and the values are not.\<close>

theorem iqr_equal_values:
  assumes "map ps_value ss = [v, v, v]" "float_of_int v = Inr (Fin q)" "cfg_iqr cfg = default_iqr"
  shows "reject_outliers_iqr cfg ss = Inr (if of_int v = q then (ss, []) else ([], map ps_id ss))"
proof -
  have q: "fl q = Fin q"
    using assms(2) is_double_fl[of "of_int v"] by (auto simp: float_of_int_ok is_double_def)
  have b: "iqr_bounds (cfg_iqr cfg) (map ps_value ss) = Inr (PFloat (Fin q), PFloat (Fin q))"
    by (simp add: iqr_bounds_def assms percentile_three_equal[OF assms(2) q] default_iqr_eq q)
  have "\<not> length ss \<le> 2" using assms(1) by (metis length_map length_Cons list.size(3) numeral_2_eq_2 not_less_eq_eq nat_le_linear)
  then have "reject_outliers_iqr cfg ss = Inr (split_by (\<lambda>s. q \<le> of_int (ps_value s) \<and> of_int (ps_value s) \<le> q) ss)"
    by (simp only: reject_outliers_iqr_def b if_False bindE.simps split_conv num_cmp)
  moreover have "\<forall>s \<in> set ss. ps_value s = v"
    using assms(1) by (metis in_set_conv_nth length_map list.set_intros(1) nth_map nth_mem set_ConsD empty_iff empty_set)
  ultimately show ?thesis by (auto simp: split_by_def filter_empty_conv)
qed

definition big :: "price_source list" where
  "big = [src ''a'' 9007199254740993 1, src ''b'' 9007199254740993 1, src ''c'' 9007199254740993 1]"

lemma iqr_equal_values_witness:
  "reject_outliers_iqr (cfg_of [''a'', ''b'', ''c''] IQR 1) big = Inr ([], [lit ''a'', lit ''b'', lit ''c''])"
  using iqr_equal_values[of big 9007199254740993 9007199254740992 "cfg_of [''a'', ''b'', ''c''] IQR 1"]
  by (simp add: big_def cfg_of_def float_of_int_def fl_2p53_1)

text \<open>C30: MAD rejection with a multiplier of at least one, the default 2.24 included, never raises on
  values up to \<open>2 ^ 48\<close> in size and keeps at least half of the sources.\<close>

theorem mad_keeps_half:
  assumes "bounded 48 (map ps_value ss)" "Fin 1 \<le> cfg_mad cfg"
  shows "\<exists>acc rej. reject_outliers_mad cfg ss = Inr (acc, rej) \<and> length ss \<le> 2 * length acc"
  using assms by (rule mad_keeps_half_aux)

lemma mad_keeps_half_witness:
  "\<exists>acc rej. reject_outliers_mad (cfg_of [''a'', ''b''] MAD 1) pair = Inr (acc, rej) \<and> 1 \<le> length acc"
proof -
  have "bounded 48 (map ps_value pair)" "Fin 1 \<le> cfg_mad (cfg_of [''a'', ''b''] MAD 1)"
    by (simp_all add: bounded_def pair_def cfg_of_def default_mad_ge_1)
  from mad_keeps_half[OF this] show ?thesis by (auto simp: pair_def)
qed

end
