(* ===== verification/Py_Dyn.thy ===== *)
theory Py_Dyn
  imports Json_Parse
begin

text \<open>
  Python operations on a value that came from JSON, whose type is known at run time only:
  membership, subscript by a string, \<open>dict.get\<close>, \<open>len\<close>, truth value, equality
  with a literal. A wrong type is the exception the interpreter raises.
\<close>

definition truthy :: "json \<Rightarrow> bool" where
  "truthy v = (case v of
     JNull \<Rightarrow> False | JBool b \<Rightarrow> b | JInt i \<Rightarrow> i \<noteq> 0 | JFloat f \<Rightarrow> f \<noteq> Fin 0
   | JStr s \<Rightarrow> s \<noteq> [] | JList xs \<Rightarrow> xs \<noteq> [] | JDict kvs \<Rightarrow> kvs \<noteq> [])"

text \<open>\<open>v == n\<close> for an integer, and \<open>v == s\<close> for a string.\<close>

definition eq_int :: "json \<Rightarrow> int \<Rightarrow> bool" where
  "eq_int v n = (case v of
     JInt i \<Rightarrow> i = n | JBool b \<Rightarrow> (if b then 1 else 0) = n | JFloat f \<Rightarrow> f = Fin (of_int n) | _ \<Rightarrow> False)"

definition eq_str :: "json \<Rightarrow> pystr \<Rightarrow> bool" where
  "eq_str v s \<longleftrightarrow> v = JStr s"

text \<open>\<open>k in v\<close> for a string \<open>k\<close>.\<close>

definition has_key :: "pystr \<Rightarrow> json \<Rightarrow> bool res" where
  "has_key k v = (case v of
     JDict kvs \<Rightarrow> Inr (k \<in> set (dict_keys kvs))
   | JStr s \<Rightarrow> Inr (py_in k s)
   | JList xs \<Rightarrow> Inr (JStr k \<in> set xs)
   | _ \<Rightarrow> raise TypeError [T ''argument is not iterable''])"

text \<open>\<open>v[k]\<close>, \<open>v.get(k, d)\<close> and \<open>len(v)\<close>.\<close>

definition index :: "pystr \<Rightarrow> json \<Rightarrow> json res" where
  "index k v = (case v of
     JDict kvs \<Rightarrow> dict_at k kvs
   | JStr s \<Rightarrow> raise TypeError [T ''string indices must be integers'']
   | JList xs \<Rightarrow> raise TypeError [T ''list indices must be integers or slices, not str'']
   | _ \<Rightarrow> raise TypeError [T ''object is not subscriptable''])"

definition get_or :: "pystr \<Rightarrow> json \<Rightarrow> json \<Rightarrow> json res" where
  "get_or k d v = (case v of
     JDict kvs \<Rightarrow> Inr (case map_of kvs k of Some x \<Rightarrow> x | None \<Rightarrow> d)
   | _ \<Rightarrow> raise AttributeError [T ''object has no attribute '', Q [lit ''get'']])"

definition py_len :: "json \<Rightarrow> int res" where
  "py_len v = (case v of
     JStr s \<Rightarrow> Inr (int (length s))
   | JList xs \<Rightarrow> Inr (int (length xs))
   | JDict kvs \<Rightarrow> Inr (int (length kvs))
   | _ \<Rightarrow> raise TypeError [T ''object has no len()''])"

lemmas dyn_defs = truthy_def eq_int_def eq_str_def has_key_def index_def get_or_def py_len_def

lemma has_key_dict [simp]: "has_key k (JDict kvs) = Inr (k \<in> set (dict_keys kvs))"
  by (simp add: has_key_def)

lemma get_or_dict [simp]: "get_or k d (JDict kvs) = Inr (case map_of kvs k of Some x \<Rightarrow> x | None \<Rightarrow> d)"
  by (simp add: get_or_def)

lemma index_dict [simp]: "index k (JDict kvs) = dict_at k kvs"
  by (simp add: index_def)

lemma eq_int_JInt [simp]: "eq_int (JInt i) n \<longleftrightarrow> i = n"
  by (simp add: eq_int_def)

lemma py_len_JStr [simp]: "py_len (JStr s) = Inr (int (length s))"
  by (simp add: py_len_def)

end
