(* ===== verification/Ipfs.thy ===== *)
theory Ipfs
  imports Py_Dyn Sha256
begin

text \<open>
  \<open>oracle_bridge/ipfs.py\<close>: the simulated content store, the Kubo HTTP client over a
  transport that is a parameter, the choice between them, and the pinning and fetching of
  provenance records. A client is the record of its two operations on the state \<open>'w\<close> it
  acts on (the dictionary of the simulated store, the world behind HTTP). The locale
  \<open>content_store\<close> is the contract the callers rely on.
\<close>

section \<open>The interface\<close>

record 'w ipfs_client =
  ic_pin :: "bytes \<Rightarrow> 'w \<Rightarrow> pystr res \<times> 'w"
  ic_get :: "pystr \<Rightarrow> 'w \<Rightarrow> bytes res \<times> 'w"

section \<open>The simulated backend\<close>

definition simulated_cid :: "bytes \<Rightarrow> pystr" where
  "simulated_cid content = lit ''bafkrei'' @ take 39 (hex (sha256 content))"

type_synonym store = "bytes dict"

definition sim_pin :: "bytes \<Rightarrow> store \<Rightarrow> pystr \<times> store" where
  "sim_pin content st = (let cid = simulated_cid content in (cid, dict_set cid content st))"

definition sim_get :: "pystr \<Rightarrow> store \<Rightarrow> bytes res" where
  "sim_get cid st = (case map_of st cid of
     None \<Rightarrow> raise KeyError [T ''CID not found in simulated store: '', Q [cid]]
   | Some content \<Rightarrow> Inr content)"

definition sim_client :: "store ipfs_client" where
  "sim_client = \<lparr>ic_pin = (\<lambda>content st. case sim_pin content st of (cid, st') \<Rightarrow> (Inr cid, st')),
     ic_get = (\<lambda>cid st. (sim_get cid st, st))\<rparr>"

section \<open>The Kubo backend\<close>

text \<open>
  \<open>urllib.request.urlopen\<close> followed by \<open>read\<close>: the response body or the exception
  raised, and the world after it.
\<close>

record http_request =
  req_method :: pystr
  req_url :: pystr
  req_headers :: "pystr dict"
  req_body :: "bytes option"

type_synonym 'w transport = "http_request \<Rightarrow> 'w \<Rightarrow> bytes res \<times> 'w"

definition rstrip_slash :: "pystr \<Rightarrow> pystr" where
  "rstrip_slash s = rev (dropWhile (\<lambda>c. c = 47) (rev s))"

record local_ipfs =
  api_url :: pystr
  gateway_url :: pystr

definition mk_local_ipfs :: "pystr \<Rightarrow> pystr \<Rightarrow> local_ipfs" where
  "mk_local_ipfs api gw = \<lparr>api_url = rstrip_slash api, gateway_url = rstrip_slash gw\<rparr>"

definition CRLF :: pystr where "CRLF = [13, 10]"

definition boundary :: pystr where "boundary = lit ''----KuboFormBoundary''"

definition ascii_bytes :: "pystr \<Rightarrow> bytes" where
  "ascii_bytes s = map of_nat s"

definition form_body :: "bytes \<Rightarrow> bytes" where
  "form_body content = ascii_bytes (lit ''--'' @ boundary @ CRLF @
       lit ''Content-Disposition: form-data; name='' @ [34] @ lit ''file'' @ [34] @ lit ''; filename='' @ [34] @
       lit ''provenance.json'' @ [34] @ CRLF @ lit ''Content-Type: application/json'' @ CRLF @ CRLF) @
     content @ ascii_bytes (CRLF @ lit ''--'' @ boundary @ lit ''--'' @ CRLF)"

text \<open>\<open>str(v)\<close>; the text of a container is left to \<open>rep\<close>.\<close>

definition str_of :: "(json \<Rightarrow> pystr) \<Rightarrow> json \<Rightarrow> pystr" where
  "str_of rep v = (case v of
     JNull \<Rightarrow> lit ''None'' | JBool b \<Rightarrow> (if b then lit ''True'' else lit ''False'')
   | JInt i \<Rightarrow> dec_int i | JFloat f \<Rightarrow> float_str f | JStr s \<Rightarrow> s | _ \<Rightarrow> rep v)"

text \<open>\<open>except URLError\<close> turns the transport failure into a RuntimeError with its cause.\<close>

definition on_URLError :: "frag list \<Rightarrow> 'a res \<Rightarrow> 'a res" where
  "on_URLError m x = (case x of
     Inl e \<Rightarrow> if ekind e = URLError then raise RuntimeError (m @ [T '': ''] @ emsg e) else Inl e
   | Inr a \<Rightarrow> Inr a)"

definition local_pin ::
    "(json \<Rightarrow> pystr) \<Rightarrow> 'w transport \<Rightarrow> local_ipfs \<Rightarrow> bytes \<Rightarrow> 'w \<Rightarrow> pystr res \<times> 'w" where
  "local_pin rep http c content w =
     (let req = \<lparr>req_method = lit ''POST'',
          req_url = api_url c @ lit ''/api/v0/add?cid-version=1&hash=sha2-256'',
          req_headers = [(lit ''Content-Type'', lit ''multipart/form-data; boundary='' @ boundary)],
          req_body = Some (form_body content)\<rparr>;
          (resp, w') = http req w in
      (on_URLError [T ''Cannot reach IPFS API at '', S (api_url c)]
         (bindE resp (\<lambda>body. bindE (loads_bytes body) (\<lambda>result.
            bindE (index (lit ''Hash'') result) (\<lambda>h. Inr (str_of rep h))))), w'))"

definition local_get :: "'w transport \<Rightarrow> local_ipfs \<Rightarrow> pystr \<Rightarrow> 'w \<Rightarrow> bytes res \<times> 'w" where
  "local_get http c cid w =
     (let req = \<lparr>req_method = lit ''GET'', req_url = gateway_url c @ lit ''/ipfs/'' @ cid,
          req_headers = [], req_body = None\<rparr>;
          (resp, w') = http req w in
      (on_URLError [T ''Cannot retrieve CID '', Q [cid], T '' from gateway '', S (gateway_url c)] resp, w'))"

definition local_client :: "(json \<Rightarrow> pystr) \<Rightarrow> 'w transport \<Rightarrow> local_ipfs \<Rightarrow> 'w ipfs_client" where
  "local_client rep http c = \<lparr>ic_pin = local_pin rep http c, ic_get = local_get http c\<rparr>"

section \<open>The factory\<close>

datatype backend = Simulated | Local local_ipfs

definition env_or :: "(pystr \<Rightarrow> pystr option) \<Rightarrow> string \<Rightarrow> string \<Rightarrow> pystr" where
  "env_or env k d = (case env (lit k) of Some v \<Rightarrow> v | None \<Rightarrow> lit d)"

definition get_ipfs_client :: "(pystr \<Rightarrow> pystr option) \<Rightarrow> pystr option \<Rightarrow> backend" where
  "get_ipfs_client env be =
     (let chosen = (case be of Some b \<Rightarrow> if b \<noteq> [] then b else env_or env ''IPFS_BACKEND'' ''simulated''
                    | None \<Rightarrow> env_or env ''IPFS_BACKEND'' ''simulated'') in
      if chosen = lit ''local''
      then Local (mk_local_ipfs (env_or env ''IPFS_API_URL'' ''http://localhost:5001'')
             (env_or env ''IPFS_GATEWAY_URL'' ''http://localhost:8080''))
      else Simulated)"

section \<open>Provenance records\<close>

definition pin_provenance_record :: "'w ipfs_client \<Rightarrow> json \<Rightarrow> 'w \<Rightarrow> pystr res \<times> 'w" where
  "pin_provenance_record client data w = ic_pin client (dumps_bytes data) w"

definition fetch_provenance_record :: "'w ipfs_client \<Rightarrow> pystr \<Rightarrow> 'w \<Rightarrow> json res \<times> 'w" where
  "fetch_provenance_record client cid w = (case ic_get client cid w of
     (content, w') \<Rightarrow> (bindE content loads_bytes, w'))"

section \<open>The contract of a content store\<close>

locale content_store =
  fixes pin :: "bytes \<Rightarrow> 's \<Rightarrow> pystr \<times> 's" and get :: "pystr \<Rightarrow> 's \<Rightarrow> bytes res"
    and address :: "bytes \<Rightarrow> pystr" and empty :: 's
  assumes pin_address: "fst (pin b s) = address b"
    and get_pinned: "get (address b) (snd (pin b s)) = Inr b"
    and get_other: "c \<noteq> address b \<Longrightarrow> get c (snd (pin b s)) = get c s"
    and get_empty: "\<exists>e. get c empty = Inl e"
begin

text \<open>The store after pinning a sequence of contents.\<close>

definition pins :: "bytes list \<Rightarrow> 's" where
  "pins bs = foldl (\<lambda>s b. snd (pin b s)) empty bs"

lemma pins_snoc: "pins (bs @ [b]) = snd (pin b (pins bs))"
  by (simp add: pins_def)

lemma get_sound: "get c (pins bs) = Inr b \<Longrightarrow> b \<in> set bs \<and> address b = c"
proof (induction bs rule: rev_induct)
  case Nil
  then show ?case using get_empty[of c] by (auto simp: pins_def)
next
  case (snoc x bs)
  then show ?case
    by (cases "c = address x") (auto simp: pins_snoc get_pinned get_other)
qed

lemma get_complete:
  "b \<in> set bs \<Longrightarrow> \<forall>x \<in> set bs. address x = address b \<longrightarrow> x = b \<Longrightarrow> get (address b) (pins bs) = Inr b"
proof (induction bs rule: rev_induct)
  case (snoc x bs)
  show ?case
  proof (cases "address x = address b")
    case True
    then have "x = b" using snoc.prems(2) by auto
    then show ?thesis by (simp add: pins_snoc get_pinned)
  next
    case False
    then have "b \<in> set bs" using snoc.prems(1) by auto
    with snoc False show ?thesis by (auto simp: pins_snoc get_other)
  qed
qed simp

lemma pin_again: "get (address b) (snd (pin b (snd (pin b s)))) = get (address b) (snd (pin b s))"
  by (simp add: get_pinned)

end

interpretation sim: content_store sim_pin sim_get simulated_cid "[]"
  by unfold_locales (auto simp: sim_pin_def sim_get_def dict_simps Let_def raise_def)

section \<open>Lemmas\<close>

lemma length_simulated_cid [simp]: "length (simulated_cid content) = 46"
  by (simp add: simulated_cid_def length_sha256)

lemma pin_then_fetch:
  assumes "json_ok v"
  shows "\<exists>st'. pin_provenance_record sim_client v st = (Inr (simulated_cid (dumps_bytes v)), st') \<and>
    fetch_provenance_record sim_client (simulated_cid (dumps_bytes v)) st' = (Inr (canon v), st')"
proof -
  let ?b = "dumps_bytes v"
  have "sim_pin ?b st = (simulated_cid ?b, snd (sim_pin ?b st))" by (simp add: sim_pin_def Let_def)
  then show ?thesis
    using sim.get_pinned[of ?b st] loads_bytes_dumps[OF assms]
    by (auto simp: pin_provenance_record_def fetch_provenance_record_def sim_client_def split: prod.splits)
qed

end
