(* ===== verification/Py_Time.thy ===== *)
theory Py_Time
  imports Py_Bytes
begin

text \<open>
  UTC calendar time as \<open>datetime\<close> of the standard library has it: from a Unix timestamp to
  the civil date and back, and the ISO text \<open>strftime("%Y-%m-%dT%H:%M:%SZ")\<close>. The year is
  found by counting up from an estimate that is never above it.
\<close>

definition leap :: "int \<Rightarrow> bool" where
  "leap y \<longleftrightarrow> 4 dvd y \<and> (\<not> 100 dvd y \<or> 400 dvd y)"

text \<open>The days before the first of January of year \<open>y\<close>, counted from year 1.\<close>

definition days_before :: "int \<Rightarrow> int" where
  "days_before y = 365 * (y - 1) + (y - 1) div 4 - (y - 1) div 100 + (y - 1) div 400"

lemma div_step: "0 < (k :: int) \<Longrightarrow> y div k = (y - 1) div k + (if k dvd y then 1 else 0)"
proof -
  assume k: "0 < k"
  show ?thesis
  proof (cases "k dvd y")
    case True
    then obtain q where q: "y = k * q" by (elim dvdE)
    have "(k * q - 1) div k = q - 1"
      by (rule int_div_pos_eq[of _ _ _ "k - 1"]) (use k in \<open>auto simp: algebra_simps\<close>)
    then show ?thesis using q k by simp
  next
    case False
    then have m: "0 < y mod k" using k by (metis dvd_eq_mod_eq_0 order_le_less pos_mod_sign)
    have "y - 1 = k * (y div k) + (y mod k - 1)" by simp
    then have "(y - 1) div k = y div k"
      by (rule int_div_pos_eq) (use m pos_mod_bound[OF k, of y] in auto)
    then show ?thesis using False by simp
  qed
qed

lemma days_before_Suc: "days_before (y + 1) = days_before y + (if leap y then 366 else 365)"
proof -
  have d: "400 dvd y \<Longrightarrow> 100 dvd y" "100 dvd y \<Longrightarrow> 4 dvd y" by presburger+
  have e: "y + 1 - 1 = y" "y - 1 + 1 = y" by simp_all
  have ds: "y div 4 = (y - 1) div 4 + (if 4 dvd y then 1 else 0)"
    "y div 100 = (y - 1) div 100 + (if 100 dvd y then 1 else 0)"
    "y div 400 = (y - 1) div 400 + (if 400 dvd y then 1 else 0)"
    by (rule div_step; simp)+
  consider "\<not> 4 dvd y" | "4 dvd y" "\<not> 100 dvd y" | "4 dvd y" "100 dvd y" "\<not> 400 dvd y"
    | "4 dvd y" "100 dvd y" "400 dvd y" by blast
  then show ?thesis
  proof cases
    case 1
    then have n: "\<not> 100 dvd y" "\<not> 400 dvd y" using d by blast+
    show ?thesis unfolding days_before_def leap_def e
      by (simp only: ds 1 n simp_thms if_True if_False) (simp add: right_diff_distrib)
  next
    case 2
    then have n: "\<not> 400 dvd y" using d by blast
    show ?thesis unfolding days_before_def leap_def e
      by (simp only: ds 2 n simp_thms if_True if_False) (simp add: right_diff_distrib)
  next
    case 3
    show ?thesis unfolding days_before_def leap_def e
      by (simp only: ds 3 simp_thms if_True if_False) (simp add: right_diff_distrib)
  next
    case 4
    show ?thesis unfolding days_before_def leap_def e
      by (simp only: ds 4 simp_thms if_True if_False) (simp add: right_diff_distrib)
  qed
qed

function year_from :: "int \<Rightarrow> int \<Rightarrow> int" where
  "year_from y d = (if days_before (y + 1) \<le> d then year_from (y + 1) d else y)"
  by auto
termination
  by (relation "measure (\<lambda>(y, d). nat (d - days_before y))") (auto simp: days_before_Suc split: if_splits)

declare year_from.simps [simp del]

definition month_lengths :: "int \<Rightarrow> int list" where
  "month_lengths y = [31, if leap y then 29 else 28, 31, 30, 31, 30, 31, 31, 30, 31, 30, 31]"

fun month_from :: "int \<Rightarrow> int list \<Rightarrow> int \<Rightarrow> int \<times> int" where
  "month_from m [] d = (m, d)"
| "month_from m (l # ls) d = (if d < l then (m, d) else month_from (m + 1) ls (d - l))"

record civil =
  c_year :: int
  c_month :: int
  c_day :: int
  c_hour :: int
  c_min :: int
  c_sec :: int

definition EPOCH_DAYS :: int where "EPOCH_DAYS = 719162"

definition civil_of :: "int \<Rightarrow> civil" where
  "civil_of ts = (let days = ts div 86400 + EPOCH_DAYS; s = ts mod 86400;
       y = year_from (days div 366 + 1) days;
       (m, d) = month_from 1 (month_lengths y) (days - days_before y) in
     \<lparr>c_year = y, c_month = m, c_day = d + 1, c_hour = s div 3600, c_min = s mod 3600 div 60,
      c_sec = s mod 60\<rparr>)"

text \<open>The timestamp of a civil time (\<open>calendar.timegm\<close>).\<close>

definition timegm :: "civil \<Rightarrow> int" where
  "timegm c = (days_before (c_year c) + sum_list (take (nat (c_month c - 1)) (month_lengths (c_year c)))
       + c_day c - 1 - EPOCH_DAYS) * 86400 + c_hour c * 3600 + c_min c * 60 + c_sec c"

definition civil_ok :: "civil \<Rightarrow> bool" where
  "civil_ok c \<longleftrightarrow> 1 \<le> c_month c \<and> c_month c \<le> 12 \<and> 1 \<le> c_day c \<and>
     c_day c \<le> month_lengths (c_year c) ! nat (c_month c - 1) \<and>
     0 \<le> c_hour c \<and> c_hour c < 24 \<and> 0 \<le> c_min c \<and> c_min c < 60 \<and> 0 \<le> c_sec c \<and> c_sec c < 60"

text \<open>\<open>datetime.fromtimestamp(ts, tz=utc)\<close>: the years 1 to 9999.\<close>

definition MIN_TS :: int where "MIN_TS = - 62135596800"
definition MAX_TS :: int where "MAX_TS = 253402300799"

definition fromtimestamp :: "int \<Rightarrow> civil res" where
  "fromtimestamp ts =
     (if ts < - (2 ^ 63) \<or> 2 ^ 63 \<le> ts
      then raise OverflowError [T ''timestamp out of range for platform time_t'']
      else if ts < - 67768040609740800 \<or> 67768036191676799 < ts
      then raise (OtherException (lit ''OSError'')) [T ''Value too large for defined data type'']
      else if ts < MIN_TS \<or> MAX_TS < ts
      then raise ValueError [T ''year '', I (c_year (civil_of ts)), T '' is out of range'']
      else Inr (civil_of ts))"

definition pad2 :: "int \<Rightarrow> pystr" where
  "pad2 n = (if n < 10 then 48 # dec_nat n else dec_nat n)"

text \<open>The year is not padded (glibc); it has four digits from the year 1000 on.\<close>

definition iso_text :: "civil \<Rightarrow> pystr" where
  "iso_text c = dec_nat (c_year c) @ lit ''-'' @ pad2 (c_month c) @ lit ''-'' @ pad2 (c_day c) @ lit ''T'' @
     pad2 (c_hour c) @ lit '':'' @ pad2 (c_min c) @ lit '':'' @ pad2 (c_sec c) @ lit ''Z''"

section \<open>Lemmas\<close>

lemma year_from_bounds:
  "days_before y \<le> d \<Longrightarrow> days_before (year_from y d) \<le> d \<and> d < days_before (year_from y d + 1)"
proof (induction y d rule: year_from.induct)
  case (1 y d)
  then show ?case by (cases "days_before (y + 1) \<le> d") (simp_all add: year_from.simps[of y])
qed

lemma estimate_below: "0 \<le> d \<Longrightarrow> days_before (d div 366 + 1) \<le> d"
proof -
  assume "0 \<le> d"
  then have k: "0 \<le> d div 366" "366 * (d div 366) \<le> d" by auto
  have "(d div 366) div 4 \<le> d div 366" using k by linarith
  moreover have "(d div 366) div 400 \<le> (d div 366) div 100" using k by (intro zdiv_mono2) auto
  ultimately show ?thesis using k by (simp add: days_before_def)
qed

lemma month_from_take:
  "0 \<le> d \<Longrightarrow> d < sum_list ls \<Longrightarrow> month_from m ls d = (m', d') \<Longrightarrow>
     m \<le> m' \<and> m' < m + int (length ls) \<and> d = sum_list (take (nat (m' - m)) ls) + d' \<and>
     0 \<le> d' \<and> d' < ls ! nat (m' - m)"
proof (induction m ls d rule: month_from.induct)
  case (2 m l ls d)
  show ?case
  proof (cases "d < l")
    case False
    then have ih: "m + 1 \<le> m' \<and> m' < m + 1 + int (length ls) \<and> d - l = sum_list (take (nat (m' - (m + 1))) ls) + d' \<and>
        0 \<le> d' \<and> d' < ls ! nat (m' - (m + 1))"
      using 2 by auto
    then have n: "nat (m' - m) = Suc (nat (m' - (m + 1)))" by linarith
    then show ?thesis using ih by simp
  qed (use 2 in auto)
qed simp

lemma sum_month_lengths: "sum_list (month_lengths y) = (if leap y then 366 else 365)"
  by (simp add: month_lengths_def)

lemma hms:
  fixes s :: int
  assumes "0 \<le> s" "s < 86400"
  shows "0 \<le> s div 3600" "s div 3600 < 24" "0 \<le> s mod 3600 div 60" "s mod 3600 div 60 < 60"
    "0 \<le> s mod 60" "s mod 60 < 60" "s div 3600 * 3600 + s mod 3600 div 60 * 60 + s mod 60 = s"
proof -
  show "0 \<le> s div 3600" "s div 3600 < 24" using assms by linarith+
  have "0 \<le> s mod 3600" "s mod 3600 < 3600" by simp_all
  then show "0 \<le> s mod 3600 div 60" "s mod 3600 div 60 < 60" by linarith+
  show "0 \<le> s mod 60" "s mod 60 < 60" by simp_all
  have "s mod 60 = s mod 3600 mod 60" by (simp add: mod_mod_cancel)
  then show "s div 3600 * 3600 + s mod 3600 div 60 * 60 + s mod 60 = s"
    using div_mult_mod_eq[of s 3600] div_mult_mod_eq[of "s mod 3600" 60] by linarith
qed

lemma civil_of_fields:
  assumes "MIN_TS \<le> ts"
  shows "timegm (civil_of ts) = ts" "civil_ok (civil_of ts)"
    "days_before (c_year (civil_of ts)) \<le> ts div 86400 + EPOCH_DAYS"
    "ts div 86400 + EPOCH_DAYS < days_before (c_year (civil_of ts) + 1)"
proof -
  let ?days = "ts div 86400 + EPOCH_DAYS"
  let ?y = "year_from (?days div 366 + 1) ?days"
  have "0 \<le> ?days" using assms by (simp add: MIN_TS_def EPOCH_DAYS_def)
  then have y: "days_before ?y \<le> ?days" "?days < days_before (?y + 1)"
    using year_from_bounds[OF estimate_below] by auto
  obtain m d where md: "month_from 1 (month_lengths ?y) (?days - days_before ?y) = (m, d)" by fastforce
  have l: "0 \<le> ?days - days_before ?y" "?days - days_before ?y < sum_list (month_lengths ?y)"
    using y by (auto simp: sum_month_lengths days_before_Suc split: if_splits)
  note f = month_from_take[OF l md]
  have len: "length (month_lengths ?y) = 12" by (simp add: month_lengths_def)
  have c: "civil_of ts = \<lparr>c_year = ?y, c_month = m, c_day = d + 1, c_hour = ts mod 86400 div 3600,
      c_min = ts mod 86400 mod 3600 div 60, c_sec = ts mod 86400 mod 60\<rparr>"
    using md by (simp add: civil_of_def Let_def)
  have h: "0 \<le> ts mod 86400" "ts mod 86400 < 86400" by simp_all
  note s = hms[OF h]
  have "(?days - EPOCH_DAYS) * 86400 + ts mod 86400 = ts" by simp
  moreover have "days_before ?y + sum_list (take (nat (m - 1)) (month_lengths ?y)) + (d + 1) - 1 = ?days"
    using f by linarith
  ultimately show "timegm (civil_of ts) = ts" using s(7) unfolding c timegm_def
    by (simp only: civil.select_convs add.assoc)
  have mdr: "1 \<le> m" "m \<le> 12" "1 \<le> d + 1" "d + 1 \<le> month_lengths ?y ! nat (m - 1)" using f len by linarith+
  show "civil_ok (civil_of ts)"
    unfolding c civil_ok_def civil.select_convs by (intro conjI mdr s(1-6))
  show "days_before (c_year (civil_of ts)) \<le> ?days" "?days < days_before (c_year (civil_of ts) + 1)"
    using y by (simp_all add: c)
qed

end
