(* ===== verification/Provenance.thy ===== *)
theory Provenance
  imports Py_Dyn Py_Time Attestation
begin

text \<open>
  \<open>oracle_bridge/provenance.py\<close>: the provenance record, its dictionary form, the checks of
  its hashes and payload, the published JSON schema as data, and the structural validation. The
  fields that \<open>from_dict\<close> copies out of a JSON document hold any JSON value, as they do at
  run time (\<open>None\<close> is \<open>JNull\<close>). The optional third-party jsonschema validator is a
  parameter, \<open>None\<close> when it is not installed.
\<close>

section \<open>The published schema\<close>

definition obj :: "(string \<times> json) list \<Rightarrow> json" where
  "obj kvs = JDict (map (\<lambda>(k, v). (lit k, v)) kvs)"

definition strs :: "string list \<Rightarrow> json" where
  "strs xs = JList (map (\<lambda>s. JStr (lit s)) xs)"

definition js :: "string \<Rightarrow> json" where "js s = JStr (lit s)"

definition closed_object :: "string list \<Rightarrow> (string \<times> json) list \<Rightarrow> json" where
  "closed_object req props = obj [(''type'', js ''object''), (''required'', strs req),
     (''additionalProperties'', JBool False), (''properties'', obj props)]"

definition hex_pattern :: "string \<Rightarrow> json" where
  "hex_pattern n = obj [(''type'', js ''string''), (''pattern'', JStr (lit ''^[0-9a-f]{'' @ lit n @ lit ''}$''))]"

text \<open>A backslash, \<open>d\<close> and the count in braces.\<close>

definition digits :: "string \<Rightarrow> pystr" where
  "digits n = 92 # lit ''d{'' @ lit n @ lit ''}''"

definition iso_field :: json where
  "iso_field = obj [(''type'', js ''string''),
     (''pattern'', JStr (lit ''^'' @ digits ''4'' @ lit ''-'' @ digits ''2'' @ lit ''-'' @ digits ''2'' @
        lit ''T'' @ digits ''2'' @ lit '':'' @ digits ''2'' @ lit '':'' @ digits ''2'' @ lit ''Z$''))]"

definition nonempty_field :: json where
  "nonempty_field = obj [(''type'', js ''string''), (''minLength'', JInt 1)]"

definition PROVENANCE_SCHEMA :: json where
  "PROVENANCE_SCHEMA = obj [
     (''$schema'', js ''https://json-schema.org/draft/2020-12/schema''),
     (''$id'', js ''https://stellarkraal.example.com/schemas/provenance-record/v1.json''),
     (''title'', js ''GEE Oracle Provenance Record''),
     (''description'', js ''Reproducibility record for a GEE oracle submission. Stored on IPFS; CID recorded on-chain.''),
     (''type'', js ''object''),
     (''required'', strs [''schema_version'', ''record_type'', ''gee_script'', ''input_params'',
        ''computation'', ''attestation'', ''submission'']),
     (''additionalProperties'', JBool False),
     (''properties'', obj [
        (''schema_version'', obj [(''type'', js ''integer''), (''const'', JInt 1)]),
        (''record_type'', obj [(''type'', js ''string''), (''enum'', strs [''single'', ''aggregated''])]),
        (''gee_script'', closed_object [''asset_path'', ''version_hash'', ''version_tag'']
          [(''asset_path'', nonempty_field), (''version_hash'', hex_pattern ''64''),
           (''version_tag'', nonempty_field),
           (''source_preview'', obj [(''type'', js ''string''), (''maxLength'', JInt 512)])]),
        (''input_params'', closed_object [''params'', ''params_hash'']
          [(''params'', obj [(''type'', js ''object''), (''additionalProperties'', JBool True)]),
           (''params_hash'', hex_pattern ''64'')]),
        (''computation'', closed_object [''output_value'', ''feed_id'', ''timestamp_utc'', ''timestamp_iso'']
          [(''output_value'', obj [(''type'', js ''integer'')]),
           (''feed_id'', obj [(''type'', js ''string''), (''maxLength'', JInt 32)]),
           (''timestamp_utc'', obj [(''type'', js ''integer''), (''minimum'', JInt 0)]),
           (''timestamp_iso'', iso_field)]),
        (''attestation'', closed_object [''schema_version'', ''public_key'', ''signature'', ''payload_hex'']
          [(''schema_version'', obj [(''type'', js ''integer''), (''const'', JInt 1)]),
           (''public_key'', hex_pattern ''64''), (''signature'', hex_pattern ''128''),
           (''payload_hex'', hex_pattern ''226'')]),
        (''submission'', closed_object [''submitted_at_iso'', ''submitted_at_utc'']
          [(''submitted_at_iso'', iso_field),
           (''submitted_at_utc'', obj [(''type'', js ''integer''), (''minimum'', JInt 0)]),
           (''tx_ref'', obj [(''type'', js ''string'')]),
           (''ipfs_cid'', obj [(''type'', js ''string''), (''minLength'', JInt 10)])]),
        (''aggregation'', closed_object [''method'', ''outlier_method'', ''source_values'',
            ''weights_used'', ''rejected_sources'']
          [(''method'', nonempty_field),
           (''outlier_method'', obj [(''type'', js ''string''), (''enum'', strs [''iqr'', ''mad'', ''none''])]),
           (''source_values'', obj [(''type'', js ''object''),
              (''additionalProperties'', obj [(''type'', js ''integer'')])]),
           (''weights_used'', obj [(''type'', js ''object''),
              (''additionalProperties'', obj [(''type'', js ''number''), (''exclusiveMinimum'', JInt 0)])]),
           (''rejected_sources'', obj [(''type'', js ''array''), (''items'', obj [(''type'', js ''string'')])])])])]"

section \<open>Helpers\<close>

text \<open>A timestamp field that is not an integer is a TypeError here (Python also takes a float).\<close>

definition utc_iso :: "json \<Rightarrow> pystr res" where
  "utc_iso ts = (case ts of
     JInt t \<Rightarrow> bindE (fromtimestamp t) (\<lambda>c. Inr (iso_text c))
   | JBool b \<Rightarrow> bindE (fromtimestamp (if b then 1 else 0)) (\<lambda>c. Inr (iso_text c))
   | _ \<Rightarrow> raise TypeError [T ''an integer is required''])"

definition params_hash_hex :: "json \<Rightarrow> pystr" where
  "params_hash_hex params = hex (sha256 (dumps_bytes params))"

definition build_canonical_payload :: "int \<Rightarrow> bytes \<Rightarrow> bytes \<Rightarrow> int \<Rightarrow> int \<Rightarrow> bytes \<Rightarrow> bytes res" where
  "build_canonical_payload ver sh ph ov ts fid =
     bindE (pack_payload ver sh ph ov ts fid) (\<lambda>buf.
     bindE (guardE (length buf = 113) AssertionError []) (\<lambda>_. Inr buf))"

section \<open>The record\<close>

record prov =
  asset_path :: json
  version_hash :: json
  version_tag :: json
  input_params :: json
  out_value :: json
  feed :: json
  ts_utc :: json
  att_public_key :: json
  att_signature :: json
  payload_bytes :: bytes
  record_type :: json
  source_preview :: json
  agg_meta :: json
  submitted_at :: json
  tx_ref :: json
  ipfs_cid :: json

text \<open>\<open>v[:512]\<close>.\<close>

definition preview512 :: "json \<Rightarrow> json res" where
  "preview512 v = (case v of
     JStr s \<Rightarrow> Inr (JStr (take 512 s)) | JList xs \<Rightarrow> Inr (JList (take 512 xs))
   | _ \<Rightarrow> raise TypeError [T ''object is not subscriptable''])"

definition opt_field :: "string \<Rightarrow> json \<Rightarrow> json dict" where
  "opt_field k v = (if truthy v then [(lit k, v)] else [])"

text \<open>The three dictionaries \<open>to_dict\<close> builds before and around its literal.\<close>

definition gee_script_block :: "prov \<Rightarrow> json dict \<Rightarrow> json" where
  "gee_script_block r preview = JDict ([(lit ''asset_path'', asset_path r),
     (lit ''version_hash'', version_hash r), (lit ''version_tag'', version_tag r)] @ preview)"

definition submission_block :: "prov \<Rightarrow> pystr \<Rightarrow> json" where
  "submission_block r sub_iso = JDict ([(lit ''submitted_at_iso'', JStr sub_iso),
     (lit ''submitted_at_utc'', submitted_at r)] @ opt_field ''tx_ref'' (tx_ref r) @
     opt_field ''ipfs_cid'' (ipfs_cid r))"

definition record_block :: "prov \<Rightarrow> json \<Rightarrow> json \<Rightarrow> pystr \<Rightarrow> pystr \<Rightarrow> json" where
  "record_block r gee submission params_hash ts_iso = JDict ([
     (lit ''schema_version'', JInt 1),
     (lit ''record_type'', record_type r),
     (lit ''gee_script'', gee),
     (lit ''input_params'', JDict [(lit ''params'', input_params r), (lit ''params_hash'', JStr params_hash)]),
     (lit ''computation'', JDict [(lit ''output_value'', out_value r), (lit ''feed_id'', feed r),
        (lit ''timestamp_utc'', ts_utc r), (lit ''timestamp_iso'', JStr ts_iso)]),
     (lit ''attestation'', JDict [(lit ''schema_version'', JInt 1), (lit ''public_key'', att_public_key r),
        (lit ''signature'', att_signature r), (lit ''payload_hex'', JStr (hex (payload_bytes r)))]),
     (lit ''submission'', submission)] @
     (if eq_str (record_type r) (lit ''aggregated'') \<and> truthy (agg_meta r)
      then [(lit ''aggregation'', agg_meta r)] else []))"

definition prov_to_dict :: "prov \<Rightarrow> json res" where
  "prov_to_dict r =
     (let params_hash = params_hash_hex (input_params r) in
      bindE (if truthy (source_preview r)
             then bindE (preview512 (source_preview r)) (\<lambda>p. Inr [(lit ''source_preview'', p)])
             else Inr []) (\<lambda>preview.
      bindE (utc_iso (submitted_at r)) (\<lambda>sub_iso.
      bindE (utc_iso (ts_utc r)) (\<lambda>ts_iso.
      Inr (record_block r (gee_script_block r preview) (submission_block r sub_iso) params_hash ts_iso)))))"

definition prov_from_dict :: "json \<Rightarrow> prov res" where
  "prov_from_dict data =
     bindE (index (lit ''submission'') data) (\<lambda>sub.
     bindE (index (lit ''attestation'') data) (\<lambda>att.
     bindE (index (lit ''computation'') data) (\<lambda>cmp.
     bindE (index (lit ''gee_script'') data) (\<lambda>gs.
     bindE (index (lit ''input_params'') data) (\<lambda>ip.
     bindE (index (lit ''asset_path'') gs) (\<lambda>ap.
     bindE (index (lit ''version_hash'') gs) (\<lambda>vh.
     bindE (index (lit ''version_tag'') gs) (\<lambda>vt.
     bindE (get_or (lit ''source_preview'') JNull gs) (\<lambda>sp.
     bindE (index (lit ''params'') ip) (\<lambda>ps.
     bindE (index (lit ''output_value'') cmp) (\<lambda>ov.
     bindE (index (lit ''feed_id'') cmp) (\<lambda>fid.
     bindE (index (lit ''timestamp_utc'') cmp) (\<lambda>ts.
     bindE (index (lit ''public_key'') att) (\<lambda>pk.
     bindE (index (lit ''signature'') att) (\<lambda>sg.
     bindE (index (lit ''payload_hex'') att) (\<lambda>ph.
     bindE (case ph of JStr s \<Rightarrow> py_fromhex s
            | _ \<Rightarrow> raise TypeError [T ''fromhex() argument must be str'']) (\<lambda>pb.
     bindE (index (lit ''record_type'') data) (\<lambda>rt.
     bindE (get_or (lit ''aggregation'') JNull data) (\<lambda>am.
     bindE (index (lit ''submitted_at_utc'') sub) (\<lambda>sa.
     bindE (get_or (lit ''tx_ref'') JNull sub) (\<lambda>tx.
     bindE (get_or (lit ''ipfs_cid'') JNull sub) (\<lambda>cid.
     Inr \<lparr>asset_path = ap, version_hash = vh, version_tag = vt, input_params = ps, out_value = ov,
          feed = fid, ts_utc = ts, att_public_key = pk, att_signature = sg, payload_bytes = pb,
          record_type = rt, source_preview = sp, agg_meta = am, submitted_at = sa, tx_ref = tx,
          ipfs_cid = cid\<rparr>))))))))))))))))))))))"

text \<open>The messages of \<open>verify_hashes\<close>, one constructor per f-string.\<close>

datatype hash_error =
    ParamsHashMismatch json pystr
  | PayloadLength int
  | OutputValueMismatch int json
  | TimestampMismatch int json

definition verify_hashes :: "prov \<Rightarrow> hash_error list res" where
  "verify_hashes r =
     (let expected = params_hash_hex (input_params r); payload = payload_bytes r in
      bindE (prov_to_dict r) (\<lambda>d.
      bindE (index (lit ''input_params'') d) (\<lambda>ip.
      bindE (index (lit ''params_hash'') ip) (\<lambda>stored.
      Inr ((if stored \<noteq> JStr expected then [ParamsHashMismatch stored expected] else []) @
           (if length payload \<noteq> 113 then [PayloadLength (int (length payload))] else []) @
           (if length payload = 113 then
              (let ov = int_from_bytes (slice 65 73 payload); ts = int_from_bytes (slice 73 81 payload) in
               (if \<not> eq_int (out_value r) ov then [OutputValueMismatch ov (out_value r)] else []) @
               (if \<not> eq_int (ts_utc r) ts then [TimestampMismatch ts (ts_utc r)] else []))
            else []))))))"

section \<open>Validation\<close>

text \<open>\<open>for k in keys: if k not in v: errors.append(prefix + k)\<close>.\<close>

definition missing :: "string \<Rightarrow> string list \<Rightarrow> json \<Rightarrow> pystr list res" where
  "missing prefix keys v =
     bindE (mapE (\<lambda>k. bindE (has_key (lit k) v) (\<lambda>b. Inr (if b then [] else [lit prefix @ lit k]))) keys)
       (\<lambda>es. Inr (concat es))"

text \<open>\<open>if k in v and len(v[k]) != n: errors.append(...)\<close>.\<close>

definition bad_length :: "string \<Rightarrow> int \<Rightarrow> json \<Rightarrow> pystr list res" where
  "bad_length k n v =
     bindE (has_key (lit k) v) (\<lambda>b. if \<not> b then Inr [] else
     bindE (index (lit k) v) (\<lambda>x. bindE (py_len x) (\<lambda>l.
     Inr (if l \<noteq> n then [lit ''attestation.'' @ lit k @ lit '' must be '' @ dec_int n @ lit '' hex chars''] else []))))"

definition aggregation_errors :: "json \<Rightarrow> json \<Rightarrow> pystr list res" where
  "aggregation_errors rt data =
     (if eq_str rt (lit ''aggregated'') then
        bindE (get_or (lit ''aggregation'') JNull data) (\<lambda>agg.
        if agg = JNull then Inr [lit ''aggregation block required for aggregated records'']
        else missing ''Missing aggregation.''
          [''method'', ''outlier_method'', ''source_values'', ''weights_used'', ''rejected_sources''] agg)
      else Inr [])"

definition lightweight_validate :: "json \<Rightarrow> pystr list res" where
  "lightweight_validate data =
     bindE (missing ''Missing required field: '' [''schema_version'', ''record_type'', ''gee_script'',
       ''input_params'', ''computation'', ''attestation'', ''submission''] data) (\<lambda>e1.
     bindE (get_or (lit ''schema_version'') JNull data) (\<lambda>ver.
     bindE (get_or (lit ''record_type'') JNull data) (\<lambda>rt.
     bindE (get_or (lit ''gee_script'') (JDict []) data) (\<lambda>gs.
     bindE (missing ''Missing gee_script.'' [''asset_path'', ''version_hash'', ''version_tag''] gs) (\<lambda>e2.
     bindE (get_or (lit ''input_params'') (JDict []) data) (\<lambda>ip.
     bindE (missing ''Missing input_params.'' [''params'', ''params_hash''] ip) (\<lambda>e3.
     bindE (get_or (lit ''computation'') (JDict []) data) (\<lambda>cmp.
     bindE (missing ''Missing computation.'' [''output_value'', ''feed_id'', ''timestamp_utc'', ''timestamp_iso''] cmp) (\<lambda>e4.
     bindE (get_or (lit ''attestation'') (JDict []) data) (\<lambda>att.
     bindE (missing ''Missing attestation.'' [''schema_version'', ''public_key'', ''signature'', ''payload_hex''] att) (\<lambda>e5.
     bindE (bad_length ''public_key'' 64 att) (\<lambda>e6.
     bindE (bad_length ''signature'' 128 att) (\<lambda>e7.
     bindE (bad_length ''payload_hex'' 226 att) (\<lambda>e8.
     bindE (get_or (lit ''submission'') (JDict []) data) (\<lambda>sub.
     bindE (missing ''Missing submission.'' [''submitted_at_iso'', ''submitted_at_utc''] sub) (\<lambda>e9.
     bindE (aggregation_errors rt data) (\<lambda>e10.
     Inr (e1 @
       (if \<not> eq_int ver 1 then [lit ''schema_version must be 1''] else []) @
       (if \<not> (eq_str rt (lit ''single'') \<or> eq_str rt (lit ''aggregated''))
        then [lit ''record_type must be 'single' or 'aggregated'' @ [39]] else []) @
       e2 @ e3 @ e4 @ e5 @ e6 @ e7 @ e8 @ e9 @ e10))))))))))))))))))"

type_synonym schema_validator = "(json \<Rightarrow> json \<Rightarrow> pystr list res) option"

definition validation_failed :: "pystr list \<Rightarrow> 'a res" where
  "validation_failed errors = raise ProvenanceValidationError
     [T ''Provenance record validation failed: '', Q errors]"

definition validate_provenance_record :: "schema_validator \<Rightarrow> json \<Rightarrow> unit res" where
  "validate_provenance_record V data =
     bindE (lightweight_validate data) (\<lambda>errors.
     if errors \<noteq> [] then validation_failed errors
     else (case V of
       None \<Rightarrow> Inr ()
     | Some iter_errors \<Rightarrow> bindE (iter_errors PROVENANCE_SCHEMA data) (\<lambda>schema_errors.
         if schema_errors \<noteq> [] then validation_failed schema_errors else Inr ())))"

end
