(* ===== verification/Provenance_Properties.thy ===== *)
theory Provenance_Properties
  imports Provenance
begin

text \<open>
  What the provenance component promises: the dictionary form reads back as the record, which
  records pass the structural validation, exactly what the hash check establishes and what it does
  not look at, and the ISO time text, which has the published shape and determines the timestamp.
\<close>

section \<open>The ISO time text\<close>

lemma days_before_mono: "a \<le> b \<Longrightarrow> days_before a \<le> days_before b"
proof (induction b rule: int_ge_induct)
  case (step i)
  then show ?case by (simp add: days_before_Suc)
qed simp

lemma year_range:
  assumes "0 \<le> ts" "ts \<le> MAX_TS"
  shows "1970 \<le> c_year (civil_of ts)" "c_year (civil_of ts) \<le> 9999"
proof -
  have ts: "MIN_TS \<le> ts" using assms(1) by (simp add: MIN_TS_def)
  let ?d = "ts div 86400 + EPOCH_DAYS" and ?y = "c_year (civil_of ts)"
  have y: "days_before ?y \<le> ?d" "?d < days_before (?y + 1)" using civil_of_fields[OF ts] by auto
  have d: "719162 \<le> ?d" using assms(1) by (simp add: EPOCH_DAYS_def)
  have d': "?d \<le> 3652058"
  proof -
    have "ts div 86400 \<le> 253402300799 div 86400" using assms(2) by (intro zdiv_mono1) (auto simp: MAX_TS_def)
    then show ?thesis by (simp add: EPOCH_DAYS_def)
  qed
  show "1970 \<le> ?y"
  proof (rule ccontr)
    assume "\<not> 1970 \<le> ?y"
    then have "days_before (?y + 1) \<le> days_before 1970" by (intro days_before_mono) simp
    then show False using y d by (simp add: days_before_def[of 1970])
  qed
  show "?y \<le> 9999"
  proof (rule ccontr)
    assume "\<not> ?y \<le> 9999"
    then have "days_before 10000 \<le> days_before ?y" by (intro days_before_mono) simp
    then show False using y d' by (simp add: days_before_def[of 10000])
  qed
qed

text \<open>The published pattern on ASCII text: digits and separators, twenty characters.\<close>

definition iso_shape :: "pystr \<Rightarrow> bool" where
  "iso_shape s \<longleftrightarrow> length s = 20 \<and>
     (\<forall>i \<in> {0, 1, 2, 3, 5, 6, 8, 9, 11, 12, 14, 15, 17, 18}. is_digit (s ! i)) \<and>
     s ! 4 = 45 \<and> s ! 7 = 45 \<and> s ! 10 = 84 \<and> s ! 13 = 58 \<and> s ! 16 = 58 \<and> s ! 19 = 90"

lemma dec_nat_digit1: "0 \<le> n \<Longrightarrow> n < 10 \<Longrightarrow> dec_nat n = [48 + nat n]"
  by (simp add: dec_nat.simps[of n])

lemma pad2_digits:
  assumes "0 \<le> n" "n < 100"
  shows "pad2 n = [48 + nat (n div 10), 48 + nat (n mod 10)]"
proof (cases "n < 10")
  case True
  then show ?thesis using assms by (simp add: pad2_def dec_nat_digit1)
next
  case False
  then have "dec_nat n = dec_nat (n div 10) @ [48 + nat (n mod 10)]" by (simp add: dec_nat.simps[of n])
  moreover have "dec_nat (n div 10) = [48 + nat (n div 10)]" using assms by (intro dec_nat_digit1) auto
  ultimately show ?thesis using False by (simp add: pad2_def)
qed

lemma div_twice: "(n :: int) div 10 div 10 = n div 100" "n div 100 div 10 = n div 1000"
  using zdiv_zmult2_eq[of 10 n 10] zdiv_zmult2_eq[of 10 n 100] by simp_all

lemma year_digits:
  assumes "1000 \<le> n" "n \<le> 9999"
  shows "dec_nat n = [48 + nat (n div 1000), 48 + nat (n div 100 mod 10), 48 + nat (n div 10 mod 10), 48 + nat (n mod 10)]"
proof -
  have s: "dec_nat n = dec_nat (n div 10) @ [48 + nat (n mod 10)]" if "10 \<le> n" for n
    using that by (simp add: dec_nat.simps[of n])
  have "10 \<le> n" using assms by simp
  then have 1: "dec_nat n = dec_nat (n div 10) @ [48 + nat (n mod 10)]" by (rule s)
  have "10 \<le> n div 10" using assms(1) zdiv_mono1[of 1000 n 10] by simp
  then have 2: "dec_nat (n div 10) = dec_nat (n div 100) @ [48 + nat (n div 10 mod 10)]"
    using s[of "n div 10"] by (simp only: div_twice)
  have "10 \<le> n div 100" using assms(1) zdiv_mono1[of 1000 n 100] by simp
  then have 3: "dec_nat (n div 100) = dec_nat (n div 1000) @ [48 + nat (n div 100 mod 10)]"
    using s[of "n div 100"] by (simp only: div_twice)
  have "0 \<le> n div 1000" "n div 1000 \<le> 9" using assms zdiv_mono1[of n 9999 1000] by simp_all
  then have 4: "dec_nat (n div 1000) = [48 + nat (n div 1000)]" by (intro dec_nat_digit1) simp_all
  show ?thesis by (simp only: 1 2 3 4 append.simps)
qed

lemma month_day_small: "civil_ok c \<Longrightarrow> c_day c \<le> 31"
proof -
  assume c: "civil_ok c"
  then have "nat (c_month c - 1) < 12" by (auto simp: civil_ok_def)
  then have "month_lengths (c_year c) ! nat (c_month c - 1) \<in> set (month_lengths (c_year c))"
    by (intro nth_mem) (simp add: month_lengths_def)
  then have "month_lengths (c_year c) ! nat (c_month c - 1) \<le> 31" by (auto simp: month_lengths_def)
  with c show ?thesis by (simp add: civil_ok_def)
qed

lemma iso_text_fields:
  assumes "civil_ok c" "1000 \<le> c_year c" "c_year c \<le> 9999"
  shows "iso_text c = [48 + nat (c_year c div 1000), 48 + nat (c_year c div 100 mod 10),
      48 + nat (c_year c div 10 mod 10), 48 + nat (c_year c mod 10), 45,
      48 + nat (c_month c div 10), 48 + nat (c_month c mod 10), 45,
      48 + nat (c_day c div 10), 48 + nat (c_day c mod 10), 84,
      48 + nat (c_hour c div 10), 48 + nat (c_hour c mod 10), 58,
      48 + nat (c_min c div 10), 48 + nat (c_min c mod 10), 58,
      48 + nat (c_sec c div 10), 48 + nat (c_sec c mod 10), 90]"
proof -
  have l: "lit ''-'' = [45]" "lit ''T'' = [84]" "lit '':'' = [58]" "lit ''Z'' = [90]" by (simp_all add: lit_def)
  have p: "pad2 (c_month c) = [48 + nat (c_month c div 10), 48 + nat (c_month c mod 10)]"
    "pad2 (c_day c) = [48 + nat (c_day c div 10), 48 + nat (c_day c mod 10)]"
    "pad2 (c_hour c) = [48 + nat (c_hour c div 10), 48 + nat (c_hour c mod 10)]"
    "pad2 (c_min c) = [48 + nat (c_min c div 10), 48 + nat (c_min c mod 10)]"
    "pad2 (c_sec c) = [48 + nat (c_sec c div 10), 48 + nat (c_sec c mod 10)]"
    by (rule pad2_digits; use assms(1) month_day_small[OF assms(1)] in \<open>simp add: civil_ok_def\<close>)+
  show ?thesis by (simp only: iso_text_def year_digits[OF assms(2,3)] p l append.simps)
qed

lemma digit_ok: "0 \<le> n \<Longrightarrow> n < 10 \<Longrightarrow> is_digit (48 + nat n)"
  by (simp add: is_digit_def)

lemma iso_text_shape:
  assumes "civil_ok c" "1000 \<le> c_year c" "c_year c \<le> 9999"
  shows "iso_shape (iso_text c)"
proof -
  have "is_digit (48 + nat (c_year c div 1000))" using assms by (intro digit_ok) auto
  moreover have "is_digit (48 + nat (n mod 10))" for n by (intro digit_ok) auto
  moreover have "is_digit (48 + nat (n div 10))" if "0 \<le> n" "n < 100" for n
    using that by (intro digit_ok) auto
  ultimately show ?thesis
    using assms month_day_small[OF assms(1)] unfolding iso_text_fields[OF assms] iso_shape_def
    by (simp add: civil_ok_def)
qed

lemma two_digits: "0 \<le> (a :: int) \<Longrightarrow> 0 \<le> b \<Longrightarrow> nat (a div 10) = nat (b div 10) \<Longrightarrow> nat (a mod 10) = nat (b mod 10) \<Longrightarrow> a = b"
  by (metis eq_nat_nat_iff div_mult_mod_eq pos_imp_zdiv_nonneg_iff pos_mod_sign zero_less_numeral)

lemma iso_text_inject:
  assumes "civil_ok c" "1000 \<le> c_year c" "c_year c \<le> 9999" "civil_ok d" "1000 \<le> c_year d" "c_year d \<le> 9999"
    "iso_text c = iso_text d"
  shows "c = d"
proof -
  have e: "nat (c_year c div 1000) = nat (c_year d div 1000)" "nat (c_year c div 100 mod 10) = nat (c_year d div 100 mod 10)"
    "nat (c_year c div 10 mod 10) = nat (c_year d div 10 mod 10)" "nat (c_year c mod 10) = nat (c_year d mod 10)"
    "nat (c_month c div 10) = nat (c_month d div 10)" "nat (c_month c mod 10) = nat (c_month d mod 10)"
    "nat (c_day c div 10) = nat (c_day d div 10)" "nat (c_day c mod 10) = nat (c_day d mod 10)"
    "nat (c_hour c div 10) = nat (c_hour d div 10)" "nat (c_hour c mod 10) = nat (c_hour d mod 10)"
    "nat (c_min c div 10) = nat (c_min d div 10)" "nat (c_min c mod 10) = nat (c_min d mod 10)"
    "nat (c_sec c div 10) = nat (c_sec d div 10)" "nat (c_sec c mod 10) = nat (c_sec d mod 10)"
    using assms(7) unfolding iso_text_fields[OF assms(1-3)] iso_text_fields[OF assms(4-6)]
    by (simp_all only: list.inject add_left_cancel)
  have nn: "0 \<le> c_year c" "0 \<le> c_year d" using assms(2,5) by simp_all
  have pos: "0 \<le> c_year c div k" "0 \<le> c_year d div k" if "0 < k" for k
    using nn that by (simp_all add: pos_imp_zdiv_nonneg_iff)
  have "c_year c div 100 = c_year d div 100"
    by (rule two_digits[OF pos(1) pos(2)]) (simp, simp, simp only: div_twice e, rule e)
  then have "c_year c div 10 = c_year d div 10"
    by (intro two_digits[OF pos(1) pos(2)]) (simp, simp, simp only: div_twice, rule e)
  then have year: "c_year c = c_year d"
    by (intro two_digits[OF nn]) (simp only:, rule e)
  have n: "0 \<le> c_month c" "0 \<le> c_month d" "0 \<le> c_day c" "0 \<le> c_day d" "0 \<le> c_hour c" "0 \<le> c_hour d"
    "0 \<le> c_min c" "0 \<le> c_min d" "0 \<le> c_sec c" "0 \<le> c_sec d"
    using assms(1,4) by (simp_all add: civil_ok_def)
  have "c_month c = c_month d" by (rule two_digits[OF n(1,2) e(5,6)])
  moreover have "c_day c = c_day d" by (rule two_digits[OF n(3,4) e(7,8)])
  moreover have "c_hour c = c_hour d" by (rule two_digits[OF n(5,6) e(9,10)])
  moreover have "c_min c = c_min d" by (rule two_digits[OF n(7,8) e(11,12)])
  moreover have "c_sec c = c_sec d" by (rule two_digits[OF n(9,10) e(13,14)])
  ultimately show ?thesis using year by simp
qed

text \<open>For every timestamp from the epoch to the end of year 9999 the ISO text exists, has the shape
  of the published pattern, and determines the timestamp.\<close>

theorem utc_iso_faithful:
  assumes "0 \<le> s" "s \<le> MAX_TS" "0 \<le> t" "t \<le> MAX_TS"
  shows "\<exists>x y. utc_iso (JInt s) = Inr x \<and> utc_iso (JInt t) = Inr y \<and> iso_shape x \<and> (x = y \<longrightarrow> s = t)"
proof -
  have f: "fromtimestamp u = Inr (civil_of u) \<and> civil_ok (civil_of u) \<and> timegm (civil_of u) = u \<and>
      1000 \<le> c_year (civil_of u) \<and> c_year (civil_of u) \<le> 9999" if "0 \<le> u" "u \<le> MAX_TS" for u
    using that civil_of_fields[of u] year_range[OF that]
    by (auto simp: fromtimestamp_def MIN_TS_def MAX_TS_def)
  note fs = f[OF assms(1,2)] and ft = f[OF assms(3,4)]
  have u: "utc_iso (JInt s) = Inr (iso_text (civil_of s))" "utc_iso (JInt t) = Inr (iso_text (civil_of t))"
    using fs ft by (simp_all add: utc_iso_def)
  have "iso_shape (iso_text (civil_of s))" using fs by (intro iso_text_shape) auto
  moreover have "s = t" if "iso_text (civil_of s) = iso_text (civil_of t)"
  proof -
    have "civil_of s = civil_of t" by (rule iso_text_inject) (use fs ft that in auto)
    then show ?thesis using fs ft by metis
  qed
  ultimately show ?thesis using u by blast
qed

lemma utc_iso_faithful_witness:
  "\<exists>x y. utc_iso (JInt 0) = Inr x \<and> utc_iso (JInt 1720051200) = Inr y \<and> iso_shape x \<and> x \<noteq> y"
  using utc_iso_faithful[of 0 1720051200] by (auto simp: MAX_TS_def)

section \<open>The dictionary form\<close>

text \<open>What a record becomes when it is written and read back: the preview is cut to 512 characters and
  the optional fields that Python takes as false are dropped.\<close>

definition written :: "prov \<Rightarrow> prov" where
  "written r = r\<lparr>
     source_preview := (if truthy (source_preview r) then
        (case preview512 (source_preview r) of Inr p \<Rightarrow> p | Inl _ \<Rightarrow> JNull) else JNull),
     agg_meta := (if eq_str (record_type r) (lit ''aggregated'') \<and> truthy (agg_meta r) then agg_meta r else JNull),
     tx_ref := (if truthy (tx_ref r) then tx_ref r else JNull),
     ipfs_cid := (if truthy (ipfs_cid r) then ipfs_cid r else JNull)\<rparr>"

definition preview_of :: "prov \<Rightarrow> json dict res" where
  "preview_of r = (if truthy (source_preview r)
     then bindE (preview512 (source_preview r)) (\<lambda>p. Inr [(lit ''source_preview'', p)]) else Inr [])"

lemma prov_to_dict_ok: "prov_to_dict r = Inr d \<longleftrightarrow> (\<exists>preview sub_iso ts_iso.
    preview_of r = Inr preview \<and> utc_iso (submitted_at r) = Inr sub_iso \<and> utc_iso (ts_utc r) = Inr ts_iso \<and>
    d = record_block r (gee_script_block r preview) (submission_block r sub_iso)
          (params_hash_hex (input_params r)) ts_iso)"
  unfolding prov_to_dict_def preview_of_def Let_def bindE_ok by (auto simp del: bindE_ok)

lemma prov_to_dict_total: "(\<exists>d. prov_to_dict r = Inr d) \<longleftrightarrow>
    (\<exists>p. preview_of r = Inr p) \<and> (\<exists>t. utc_iso (submitted_at r) = Inr t) \<and> (\<exists>t. utc_iso (ts_utc r) = Inr t)"
  unfolding prov_to_dict_ok by blast

lemma py_fromhex_hex [simp]: "py_fromhex (hex b) = Inr b"
  by (simp add: py_fromhex_def)

lemma dict_at_Cons [simp]: "dict_at k ((k', v) # d) = (if k = k' then Inr v else dict_at k d)"
  by (simp add: dict_at_def)

lemma submission_fields:
  "index (lit ''submitted_at_utc'') (submission_block r sub_iso) = Inr (submitted_at r)"
  "get_or (lit ''tx_ref'') JNull (submission_block r sub_iso) = Inr (if truthy (tx_ref r) then tx_ref r else JNull)"
  "get_or (lit ''ipfs_cid'') JNull (submission_block r sub_iso) = Inr (if truthy (ipfs_cid r) then ipfs_cid r else JNull)"
  by (simp_all add: submission_block_def opt_field_def)

lemma preview_cases:
  assumes "preview_of r = Inr preview"
  shows "(preview = [] \<and> source_preview (written r) = JNull) \<or>
    (preview = [(lit ''source_preview'', source_preview (written r))] \<and>
     truthy (source_preview r) \<and> preview512 (source_preview r) = Inr (source_preview (written r)))"
  using assms by (cases "preview512 (source_preview r)") (auto simp: preview_of_def written_def split: if_splits)

lemma preview_again:
  "truthy v \<Longrightarrow> preview512 v = Inr p \<Longrightarrow> truthy p \<and> preview512 p = Inr p"
  by (cases v) (auto simp: preview512_def truthy_def res_simps)

lemma preview_written:
  assumes "preview_of r = Inr preview"
  shows "preview_of (written r) = Inr preview"
  using preview_cases[OF assms]
proof
  assume "preview = [] \<and> source_preview (written r) = JNull"
  then show ?thesis by (simp add: preview_of_def truthy_def)
next
  assume a: "preview = [(lit ''source_preview'', source_preview (written r))] \<and>
     truthy (source_preview r) \<and> preview512 (source_preview r) = Inr (source_preview (written r))"
  then have "truthy (source_preview (written r)) \<and>
      preview512 (source_preview (written r)) = Inr (source_preview (written r))"
    using preview_again by blast
  with a show ?thesis by (simp add: preview_of_def)
qed

lemma gee_fields:
  assumes "preview_of r = Inr preview"
  shows "index (lit ''asset_path'') (gee_script_block r preview) = Inr (asset_path r)"
    "index (lit ''version_hash'') (gee_script_block r preview) = Inr (version_hash r)"
    "index (lit ''version_tag'') (gee_script_block r preview) = Inr (version_tag r)"
    "get_or (lit ''source_preview'') JNull (gee_script_block r preview) = Inr (source_preview (written r))"
  using preview_cases[OF assms] by (auto simp: gee_script_block_def)

lemma record_fields:
  "index (lit ''submission'') (record_block r g s h t) = Inr s"
  "index (lit ''attestation'') (record_block r g s h t) = Inr (JDict [(lit ''schema_version'', JInt 1),
     (lit ''public_key'', att_public_key r), (lit ''signature'', att_signature r),
     (lit ''payload_hex'', JStr (hex (payload_bytes r)))])"
  "index (lit ''computation'') (record_block r g s h t) = Inr (JDict [(lit ''output_value'', out_value r),
     (lit ''feed_id'', feed r), (lit ''timestamp_utc'', ts_utc r), (lit ''timestamp_iso'', JStr t)])"
  "index (lit ''gee_script'') (record_block r g s h t) = Inr g"
  "index (lit ''input_params'') (record_block r g s h t) = Inr (JDict [(lit ''params'', input_params r),
     (lit ''params_hash'', JStr h)])"
  "index (lit ''record_type'') (record_block r g s h t) = Inr (record_type r)"
  "get_or (lit ''aggregation'') JNull (record_block r g s h t) = Inr (agg_meta (written r))"
  by (simp_all add: record_block_def written_def)

lemma written_reads:
  assumes "prov_to_dict r = Inr d"
  shows "prov_from_dict d = Inr (written r)"
proof -
  from assms obtain preview sub_iso ts_iso where p: "preview_of r = Inr preview" and
    d: "d = record_block r (gee_script_block r preview) (submission_block r sub_iso)
          (params_hash_hex (input_params r)) ts_iso"
    unfolding prov_to_dict_ok by blast
  show ?thesis
    unfolding d prov_from_dict_def record_fields bindE.simps submission_fields gee_fields[OF p]
    by (simp add: written_def)
qed

text \<open>Reading back the dictionary of a record gives the record, with the preview cut to 512
  characters and empty optional fields dropped; writing that again gives the same dictionary.\<close>

theorem prov_roundtrip:
  assumes "prov_to_dict r = Inr d"
  shows "prov_from_dict d = Inr (written r) \<and> prov_to_dict (written r) = Inr d"
proof -
  from assms obtain preview sub_iso ts_iso where p:
    "preview_of r = Inr preview" "utc_iso (submitted_at r) = Inr sub_iso" "utc_iso (ts_utc r) = Inr ts_iso" and
    d: "d = record_block r (gee_script_block r preview) (submission_block r sub_iso)
          (params_hash_hex (input_params r)) ts_iso"
    unfolding prov_to_dict_ok by blast
  have "prov_from_dict d = Inr (written r)" using assms by (rule written_reads)
  moreover have "preview_of (written r) = Inr preview"
    by (rule preview_written[OF p(1)])
  moreover have "submission_block (written r) sub_iso = submission_block r sub_iso"
    by (auto simp: submission_block_def written_def opt_field_def truthy_def)
  moreover have "gee_script_block (written r) preview = gee_script_block r preview"
    by (simp add: gee_script_block_def written_def)
  moreover have "record_block (written r) g s h t = record_block r g s h t" for g s h t
    by (simp add: record_block_def written_def truthy_def)
  moreover have "utc_iso (submitted_at (written r)) = Inr sub_iso" "utc_iso (ts_utc (written r)) = Inr ts_iso"
    "input_params (written r) = input_params r"
    using p by (simp_all add: written_def)
  ultimately show ?thesis unfolding prov_to_dict_ok d by metis
qed


text \<open>A record with a truncated preview and an unset transaction reference.\<close>

definition sample_prov :: prov where
  "sample_prov = \<lparr>asset_path = js ''users/org/carbon_v1'', version_hash = js ''00'', version_tag = js ''v1'',
     input_params = JDict [(lit ''region'', js ''BR'')], out_value = JInt 42, feed = js ''CARBON'',
     ts_utc = JInt 1720051200, att_public_key = JStr (replicate 64 48), att_signature = JStr (replicate 128 49),
     payload_bytes = replicate 113 0, record_type = js ''single'', source_preview = js ''code'',
     agg_meta = JNull, submitted_at = JInt 1720051260, tx_ref = js [], ipfs_cid = JNull\<rparr>"

lemma utc_iso_ok: "0 \<le> t \<Longrightarrow> t \<le> MAX_TS \<Longrightarrow> utc_iso (JInt t) = Inr (iso_text (civil_of t))"
  by (simp add: utc_iso_def fromtimestamp_def MIN_TS_def MAX_TS_def)

lemma sample_to_dict: "\<exists>d. prov_to_dict sample_prov = Inr d"
proof -
  have "\<exists>preview. preview_of sample_prov = Inr preview"
    by (simp add: preview_of_def sample_prov_def preview512_def js_def truthy_def)
  moreover have "\<exists>x. utc_iso (submitted_at sample_prov) = Inr x" "\<exists>x. utc_iso (ts_utc sample_prov) = Inr x"
    by (simp_all add: sample_prov_def utc_iso_ok MAX_TS_def)
  ultimately show ?thesis unfolding prov_to_dict_ok by blast
qed

lemma prov_roundtrip_witness:
  "\<exists>d. prov_to_dict sample_prov = Inr d \<and> prov_from_dict d = Inr (written sample_prov) \<and>
     tx_ref (written sample_prov) = JNull"
proof -
  obtain d where d: "prov_to_dict sample_prov = Inr d" using sample_to_dict by blast
  have "tx_ref (written sample_prov) = JNull" by (simp add: written_def sample_prov_def truthy_def js_def)
  with d prov_roundtrip[OF d] show ?thesis by blast
qed

section \<open>Validation\<close>

lemma missing_dict: "missing p ks (JDict kvs) = Inr (map (\<lambda>k. lit p @ lit k) (filter (\<lambda>k. lit k \<notin> set (dict_keys kvs)) ks))"
proof -
  have "mapE (\<lambda>k. Inr (if lit k \<in> set (dict_keys kvs) then [] else [lit p @ lit k])) ks
      = Inr (map (\<lambda>k. if lit k \<in> set (dict_keys kvs) then [] else [lit p @ lit k]) ks)" by simp
  moreover have "concat (map (\<lambda>k. if lit k \<in> set (dict_keys kvs) then [] else [lit p @ lit k]) ks) =
      map (\<lambda>k. lit p @ lit k) (filter (\<lambda>k. lit k \<notin> set (dict_keys kvs)) ks)"
    by (induction ks) auto
  ultimately show ?thesis by (simp add: missing_def)
qed

lemma block_keys:
  "dict_keys kvs = ks @ rest \<Longrightarrow> set (map lit keys) \<subseteq> set ks \<Longrightarrow> missing p keys (JDict kvs) = Inr []"
  by (auto simp: missing_dict filter_empty_conv)

text \<open>The five blocks of a record, as the validator sees them.\<close>

definition hex_field_ok :: "json \<Rightarrow> nat \<Rightarrow> bool" where
  "hex_field_ok v n \<longleftrightarrow> (\<exists>s. v = JStr s \<and> length s = n)"

definition agg_keys :: "string list" where
  "agg_keys = [''method'', ''outlier_method'', ''source_values'', ''weights_used'', ''rejected_sources'']"

lemma att_block_errors:
  assumes "att_public_key r = JStr pk" "att_signature r = JStr sg"
  defines "att \<equiv> JDict [(lit ''schema_version'', JInt 1), (lit ''public_key'', att_public_key r),
     (lit ''signature'', att_signature r), (lit ''payload_hex'', JStr (hex (payload_bytes r)))]"
  shows "missing p [''schema_version'', ''public_key'', ''signature'', ''payload_hex''] att = Inr []"
    "\<exists>es. bad_length ''public_key'' 64 att = Inr es \<and> (es = [] \<longleftrightarrow> length pk = 64)"
    "\<exists>es. bad_length ''signature'' 128 att = Inr es \<and> (es = [] \<longleftrightarrow> length sg = 128)"
    "\<exists>es. bad_length ''payload_hex'' 226 att = Inr es \<and> (es = [] \<longleftrightarrow> length (payload_bytes r) = 113)"
  using assms(1,2) by (simp_all add: att_def missing_dict bad_length_def)

lemma record_gets:
  "get_or (lit ''schema_version'') x (record_block r g s h t) = Inr (JInt 1)"
  "get_or (lit ''record_type'') x (record_block r g s h t) = Inr (record_type r)"
  "get_or (lit ''gee_script'') x (record_block r g s h t) = Inr g"
  "get_or (lit ''input_params'') x (record_block r g s h t) = Inr (JDict [(lit ''params'', input_params r),
     (lit ''params_hash'', JStr h)])"
  "get_or (lit ''computation'') x (record_block r g s h t) = Inr (JDict [(lit ''output_value'', out_value r),
     (lit ''feed_id'', feed r), (lit ''timestamp_utc'', ts_utc r), (lit ''timestamp_iso'', JStr t)])"
  "get_or (lit ''attestation'') x (record_block r g s h t) = Inr (JDict [(lit ''schema_version'', JInt 1),
     (lit ''public_key'', att_public_key r), (lit ''signature'', att_signature r),
     (lit ''payload_hex'', JStr (hex (payload_bytes r)))])"
  "get_or (lit ''submission'') x (record_block r g s h t) = Inr s"
  by (simp_all add: record_block_def)

lemma record_missing:
  "missing p [''schema_version'', ''record_type'', ''gee_script'', ''input_params'', ''computation'',
     ''attestation'', ''submission''] (record_block r g s h t) = Inr []"
  "missing p [''asset_path'', ''version_hash'', ''version_tag''] (gee_script_block r preview) = Inr []"
  "missing p [''params'', ''params_hash''] (JDict [(lit ''params'', a), (lit ''params_hash'', b)]) = Inr []"
  "missing p [''output_value'', ''feed_id'', ''timestamp_utc'', ''timestamp_iso'']
     (JDict [(lit ''output_value'', c), (lit ''feed_id'', d), (lit ''timestamp_utc'', e), (lit ''timestamp_iso'', f)]) = Inr []"
  "missing p [''submitted_at_iso'', ''submitted_at_utc''] (submission_block r u) = Inr []"
  by (simp_all add: record_block_def gee_script_block_def submission_block_def missing_dict)

lemma record_aggregation:
  assumes "agg_meta r = JNull \<or> agg_meta r = JDict kvs"
  shows "\<exists>es. aggregation_errors (record_type r) (record_block r g s h t) = Inr es \<and>
    (es = [] \<longleftrightarrow> record_type r \<noteq> JStr (lit ''aggregated'') \<or>
      (agg_meta r = JDict kvs \<and> set (map lit agg_keys) \<subseteq> set (dict_keys kvs)))"
proof (cases "record_type r = JStr (lit ''aggregated'')")
  case False
  then show ?thesis by (simp add: aggregation_errors_def eq_str_def)
next
  case True
  then have a: "get_or (lit ''aggregation'') JNull (record_block r g s h t)
      = Inr (if truthy (agg_meta r) then agg_meta r else JNull)"
    using record_fields(7)[of r g s h t] by (simp add: written_def eq_str_def)
  show ?thesis
  proof (cases "truthy (agg_meta r)")
    case False
    then have "\<not> (agg_meta r = JDict kvs \<and> set (map lit agg_keys) \<subseteq> set (dict_keys kvs))"
      by (auto simp: truthy_def agg_keys_def)
    with a True False show ?thesis by (simp add: aggregation_errors_def eq_str_def)
  next
    case t: True
    then have k: "agg_meta r = JDict kvs" using assms by (auto simp: truthy_def)
    have "aggregation_errors (record_type r) (record_block r g s h t) = missing ''Missing aggregation.'' agg_keys (JDict kvs)"
      using True t a k by (simp add: aggregation_errors_def eq_str_def agg_keys_def)
    then show ?thesis using True k by (auto simp: missing_dict filter_empty_conv image_iff)
  qed
qed

lemma own_record_validates:
  assumes "prov_to_dict r = Inr d" "att_public_key r = JStr pk" "att_signature r = JStr sg"
    "agg_meta r = JNull \<or> agg_meta r = JDict kvs"
  shows "lightweight_validate d = Inr [] \<longleftrightarrow>
    length pk = 64 \<and> length sg = 128 \<and> length (payload_bytes r) = 113 \<and>
    (record_type r = JStr (lit ''single'') \<or>
     (record_type r = JStr (lit ''aggregated'') \<and> agg_meta r = JDict kvs \<and>
      set (map lit agg_keys) \<subseteq> set (dict_keys kvs)))"
proof -
  from assms(1) obtain preview sub_iso ts_iso where
    d: "d = record_block r (gee_script_block r preview) (submission_block r sub_iso)
          (params_hash_hex (input_params r)) ts_iso"
    unfolding prov_to_dict_ok by blast
  let ?att = "JDict [(lit ''schema_version'', JInt 1), (lit ''public_key'', att_public_key r),
     (lit ''signature'', att_signature r), (lit ''payload_hex'', JStr (hex (payload_bytes r)))]"
  obtain e6 where e6: "bad_length ''public_key'' 64 ?att = Inr e6" "e6 = [] \<longleftrightarrow> length pk = 64"
    using att_block_errors(2)[OF assms(2,3)] by blast
  obtain e7 where e7: "bad_length ''signature'' 128 ?att = Inr e7" "e7 = [] \<longleftrightarrow> length sg = 128"
    using att_block_errors(3)[OF assms(2,3)] by blast
  obtain e8 where e8: "bad_length ''payload_hex'' 226 ?att = Inr e8" "e8 = [] \<longleftrightarrow> length (payload_bytes r) = 113"
    using att_block_errors(4)[OF assms(2,3)] by blast
  obtain e10 where e10: "aggregation_errors (record_type r) d = Inr e10"
    "e10 = [] \<longleftrightarrow> record_type r \<noteq> JStr (lit ''aggregated'') \<or>
      (agg_meta r = JDict kvs \<and> set (map lit agg_keys) \<subseteq> set (dict_keys kvs))"
    using record_aggregation[OF assms(4)] unfolding d by blast
  have "lightweight_validate d = Inr ((if \<not> (eq_str (record_type r) (lit ''single'') \<or> eq_str (record_type r) (lit ''aggregated''))
        then [lit ''record_type must be 'single' or 'aggregated'' @ [39]] else []) @ e6 @ e7 @ e8 @ e10)"
    unfolding lightweight_validate_def
    by (simp only: d record_gets record_missing bindE.simps att_block_errors(1)[OF assms(2,3)] e6(1) e7(1) e8(1)
        e10(1)[unfolded d] eq_int_JInt simp_thms if_False if_True append_Nil)
  then show ?thesis using e6(2) e7(2) e8(2) e10(2) by (auto simp: eq_str_def)
qed

text \<open>The dictionary of a record whose key and signature are strings passes the structural
  validation exactly when the key has 64 characters, the signature 128 and the payload 113 bytes, and
  the record type is "single", or "aggregated" with a block that has the five aggregation keys.\<close>

theorem prov_validates_iff:
  assumes "prov_to_dict r = Inr d" "att_public_key r = JStr pk" "att_signature r = JStr sg"
    "agg_meta r = JNull \<or> agg_meta r = JDict kvs"
  shows "lightweight_validate d = Inr [] \<longleftrightarrow>
    length pk = 64 \<and> length sg = 128 \<and> length (payload_bytes r) = 113 \<and>
    (record_type r = JStr (lit ''single'') \<or>
     (record_type r = JStr (lit ''aggregated'') \<and> agg_meta r = JDict kvs \<and>
      set (map lit agg_keys) \<subseteq> set (dict_keys kvs)))"
  using own_record_validates[OF assms] .

lemma prov_validates_iff_witness:
  "\<exists>d. prov_to_dict sample_prov = Inr d \<and> lightweight_validate d = Inr []"
proof -
  obtain d where d: "prov_to_dict sample_prov = Inr d" using sample_to_dict by blast
  have "lightweight_validate d = Inr []"
    by (subst prov_validates_iff[OF d, of "replicate 64 48" "replicate 128 49" "[]"])
      (simp_all add: sample_prov_def js_def)
  with d show ?thesis by blast
qed

lemma has_all:
  assumes "missing p keys (JDict kvs) = Inr []" "k \<in> set keys"
  shows "\<exists>v. map_of kvs (lit k) = Some v"
proof -
  have "lit k \<in> set (dict_keys kvs)" using assms by (auto simp: missing_dict filter_empty_conv)
  then show ?thesis by (metis map_of_eq_None_iff not_None_eq set_map)
qed

lemma validate_missing:
  assumes "lightweight_validate data = Inr []"
  shows "missing ''Missing required field: '' [''schema_version'', ''record_type'', ''gee_script'',
       ''input_params'', ''computation'', ''attestation'', ''submission''] data = Inr []"
    "get_or (lit ''gee_script'') (JDict []) data = Inr gs \<Longrightarrow>
       missing ''Missing gee_script.'' [''asset_path'', ''version_hash'', ''version_tag''] gs = Inr []"
    "get_or (lit ''input_params'') (JDict []) data = Inr ip \<Longrightarrow>
       missing ''Missing input_params.'' [''params'', ''params_hash''] ip = Inr []"
    "get_or (lit ''computation'') (JDict []) data = Inr cmp \<Longrightarrow>
       missing ''Missing computation.'' [''output_value'', ''feed_id'', ''timestamp_utc'', ''timestamp_iso''] cmp = Inr []"
    "get_or (lit ''attestation'') (JDict []) data = Inr att \<Longrightarrow>
       missing ''Missing attestation.'' [''schema_version'', ''public_key'', ''signature'', ''payload_hex''] att = Inr []"
    "get_or (lit ''submission'') (JDict []) data = Inr sub \<Longrightarrow>
       missing ''Missing submission.'' [''submitted_at_iso'', ''submitted_at_utc''] sub = Inr []"
  using assms unfolding lightweight_validate_def bindE_ok by auto

text \<open>C31: a document that passes the structural validation and whose five blocks are objects is read
  back into a record exactly when its payload text is a string of hexadecimal digits.\<close>

theorem validated_reads_back:
  assumes "lightweight_validate (JDict kvs) = Inr []"
    "map_of kvs (lit ''gee_script'') = Some (JDict gs)" "map_of kvs (lit ''input_params'') = Some (JDict ip)"
    "map_of kvs (lit ''computation'') = Some (JDict cmp)" "map_of kvs (lit ''attestation'') = Some (JDict att)"
    "map_of kvs (lit ''submission'') = Some (JDict sub)"
  shows "(\<exists>r. prov_from_dict (JDict kvs) = Inr r) \<longleftrightarrow>
    (\<exists>s b. map_of att (lit ''payload_hex'') = Some (JStr s) \<and> fromhex s = Some b)"
proof -
  note m = validate_missing[OF assms(1)]
  have m1: "missing ''Missing gee_script.'' [''asset_path'', ''version_hash'', ''version_tag''] (JDict gs) = Inr []"
    "missing ''Missing input_params.'' [''params'', ''params_hash''] (JDict ip) = Inr []"
    "missing ''Missing computation.'' [''output_value'', ''feed_id'', ''timestamp_utc'', ''timestamp_iso''] (JDict cmp) = Inr []"
    "missing ''Missing attestation.'' [''schema_version'', ''public_key'', ''signature'', ''payload_hex''] (JDict att) = Inr []"
    "missing ''Missing submission.'' [''submitted_at_iso'', ''submitted_at_utc''] (JDict sub) = Inr []"
    by (rule m(2-6); simp add: assms)+
  obtain rt where rt: "map_of kvs (lit ''record_type'') = Some rt" using has_all[OF m(1), of "''record_type''"] by auto
  obtain ap vh vt where gs: "map_of gs (lit ''asset_path'') = Some ap" "map_of gs (lit ''version_hash'') = Some vh"
    "map_of gs (lit ''version_tag'') = Some vt"
    using has_all[OF m1(1), of "''asset_path''"] has_all[OF m1(1), of "''version_hash''"]
      has_all[OF m1(1), of "''version_tag''"] by auto
  obtain ps where ip: "map_of ip (lit ''params'') = Some ps" using has_all[OF m1(2), of "''params''"] by auto
  obtain ov fid ts where cmp: "map_of cmp (lit ''output_value'') = Some ov" "map_of cmp (lit ''feed_id'') = Some fid"
    "map_of cmp (lit ''timestamp_utc'') = Some ts"
    using has_all[OF m1(3), of "''output_value''"] has_all[OF m1(3), of "''feed_id''"]
      has_all[OF m1(3), of "''timestamp_utc''"] by auto
  obtain pk sg ph where att: "map_of att (lit ''public_key'') = Some pk" "map_of att (lit ''signature'') = Some sg"
    "map_of att (lit ''payload_hex'') = Some ph"
    using has_all[OF m1(4), of "''public_key''"] has_all[OF m1(4), of "''signature''"]
      has_all[OF m1(4), of "''payload_hex''"] by auto
  obtain sa where sub: "map_of sub (lit ''submitted_at_utc'') = Some sa"
    using has_all[OF m1(5), of "''submitted_at_utc''"] by auto
  have "(\<exists>r. prov_from_dict (JDict kvs) = Inr r) \<longleftrightarrow>
    (\<exists>b. (case ph of JStr s \<Rightarrow> py_fromhex s | _ \<Rightarrow> raise TypeError [T ''fromhex() argument must be str'']) = Inr b)"
    unfolding prov_from_dict_def index_dict dict_at_def get_or_dict assms(2-6) rt gs ip cmp att sub
      option.case bindE.simps bindE_ok by auto
  also have "\<dots> \<longleftrightarrow> (\<exists>s b. ph = JStr s \<and> fromhex s = Some b)"
    by (cases ph) (auto simp: py_fromhex_def res_simps split: option.splits)
  finally show ?thesis using att(3) by auto
qed

definition bare_doc :: "json dict" where
  "bare_doc = [(lit ''schema_version'', JInt 1), (lit ''record_type'', js ''single''),
     (lit ''gee_script'', JDict [(lit ''asset_path'', JNull), (lit ''version_hash'', JNull), (lit ''version_tag'', JNull)]),
     (lit ''input_params'', JDict [(lit ''params'', JNull), (lit ''params_hash'', JNull)]),
     (lit ''computation'', JDict [(lit ''output_value'', JNull), (lit ''feed_id'', JNull),
        (lit ''timestamp_utc'', JNull), (lit ''timestamp_iso'', JNull)]),
     (lit ''attestation'', JDict [(lit ''schema_version'', JInt 1), (lit ''public_key'', JStr (replicate 64 48)),
        (lit ''signature'', JStr (replicate 128 48)), (lit ''payload_hex'', JStr (hex (replicate 113 0)))]),
     (lit ''submission'', JDict [(lit ''submitted_at_iso'', JNull), (lit ''submitted_at_utc'', JNull)])]"

lemma validated_reads_back_witness:
  "lightweight_validate (JDict bare_doc) = Inr [] \<and> (\<exists>r. prov_from_dict (JDict bare_doc) = Inr r)"
proof -
  have v: "lightweight_validate (JDict bare_doc) = Inr []"
    by (simp add: lightweight_validate_def bare_doc_def missing_dict bad_length_def aggregation_errors_def
        eq_str_def js_def)
  have "\<exists>r. prov_from_dict (JDict bare_doc) = Inr r"
    by (rule iffD2[OF validated_reads_back[OF v]]) (simp add: bare_doc_def)+
  with v show ?thesis by blast
qed

section \<open>The hash check\<close>

lemma verify_hashes_eq:
  assumes "prov_to_dict r = Inr d"
  shows "verify_hashes r = Inr (
    (if length (payload_bytes r) \<noteq> 113 then [PayloadLength (int (length (payload_bytes r)))] else []) @
    (if length (payload_bytes r) = 113 then
       (if \<not> eq_int (out_value r) (int_from_bytes (slice 65 73 (payload_bytes r)))
        then [OutputValueMismatch (int_from_bytes (slice 65 73 (payload_bytes r))) (out_value r)] else []) @
       (if \<not> eq_int (ts_utc r) (int_from_bytes (slice 73 81 (payload_bytes r)))
        then [TimestampMismatch (int_from_bytes (slice 73 81 (payload_bytes r))) (ts_utc r)] else []) else []))"
proof -
  from assms obtain g s t where "d = record_block r g s (params_hash_hex (input_params r)) t"
    unfolding prov_to_dict_ok by blast
  then have "index (lit ''input_params'') d = Inr (JDict [(lit ''params'', input_params r),
      (lit ''params_hash'', JStr (params_hash_hex (input_params r)))])" by (simp only: record_fields)
  then show ?thesis by (simp only: verify_hashes_def assms Let_def bindE.simps) simp
qed

lemma from_bytes_fields:
  assumes "from_bytes b = Inr p"
  shows "length b = 113" "output_value p = int_from_bytes (slice 65 73 b)"
    "timestamp_utc p = int_from_bytes (slice 73 81 b)"
  using assms by (auto simp: from_bytes_def PAYLOAD_LENGTH_def res_simps split: if_splits)

lemma verify_hashes_none:
  assumes "prov_to_dict r = Inr d"
  shows "verify_hashes r = Inr [] \<longleftrightarrow> (\<exists>p. from_bytes (payload_bytes r) = Inr p \<and>
    eq_int (out_value r) (output_value p) \<and> eq_int (ts_utc r) (timestamp_utc p))"
proof (cases "length (payload_bytes r) = 113")
  case True
  then obtain p where p: "from_bytes (payload_bytes r) = Inr p" using from_bytes_ok by blast
  with True from_bytes_fields[OF p] show ?thesis by (auto simp: verify_hashes_eq[OF assms])
next
  case False
  then show ?thesis using from_bytes_fields(1) by (auto simp: verify_hashes_eq[OF assms])
qed

text \<open>The hash check of a record that can be written reports nothing exactly when the payload is the
  canonical bytes of a payload with the record's value and time. It never reports a parameter hash,
  and it looks at neither the script hash, the feed, the key nor the signature.\<close>

theorem verify_hashes_iff:
  assumes "prov_to_dict r = Inr d"
  shows "\<exists>es. verify_hashes r = Inr es \<and>
    (es = [] \<longleftrightarrow> (\<exists>p. from_bytes (payload_bytes r) = Inr p \<and> eq_int (out_value r) (output_value p) \<and>
      eq_int (ts_utc r) (timestamp_utc p))) \<and>
    (\<forall>a b. ParamsHashMismatch a b \<notin> set es) \<and>
    verify_hashes (r\<lparr>version_hash := vh, feed := fid, att_public_key := pk, att_signature := sg\<rparr>) = Inr es"
proof -
  let ?r = "r\<lparr>version_hash := vh, feed := fid, att_public_key := pk, att_signature := sg\<rparr>"
  have "\<exists>d. prov_to_dict r = Inr d" using assms by blast
  then have "\<exists>d'. prov_to_dict ?r = Inr d'" unfolding prov_to_dict_total by (auto simp: preview_of_def split: if_splits)
  then obtain d' where d': "prov_to_dict ?r = Inr d'" ..
  have "verify_hashes ?r = verify_hashes r"
    unfolding verify_hashes_eq[OF d'] verify_hashes_eq[OF assms] by simp
  then show ?thesis using verify_hashes_eq[OF assms] verify_hashes_none[OF assms] by auto
qed

lemma verify_hashes_iff_witness:
  "\<exists>es. verify_hashes sample_prov = Inr es \<and> (\<forall>a b. ParamsHashMismatch a b \<notin> set es)"
  using sample_to_dict verify_hashes_iff by blast

end
