(* ===== verification/Ipfs_Properties.thy ===== *)
theory Ipfs_Properties
  imports Ipfs Provenance_Properties
begin

text \<open>
  What the storage component promises: a simulated store is content addressed, a provenance record
  that is pinned and fetched reads back as the record up to the order of keys, and the Kubo client
  reports an unreachable node as a RuntimeError.
\<close>

section \<open>The simulated store\<close>

text \<open>After any sequence of pins on an empty simulated store, what a CID retrieves is a content that
  was pinned and has that CID, every pinned content is retrieved unless another one has its CID, and
  a CID has 46 characters.\<close>

theorem store_content_addressed:
  "(\<forall>c b. sim_get c (foldl (\<lambda>s b. snd (sim_pin b s)) [] bs) = Inr b \<longrightarrow> b \<in> set bs \<and> simulated_cid b = c) \<and>
   (\<forall>b \<in> set bs. (\<forall>x \<in> set bs. simulated_cid x = simulated_cid b \<longrightarrow> x = b) \<longrightarrow>
      sim_get (simulated_cid b) (foldl (\<lambda>s b. snd (sim_pin b s)) [] bs) = Inr b) \<and>
   (\<forall>b. length (simulated_cid b) = 46)"
  using sim.get_sound[of _ bs] sim.get_complete[of _ bs] by (simp add: sim.pins_def)

lemma store_content_addressed_witness:
  "sim_get (simulated_cid [1]) (snd (sim_pin [1] [])) = Inr [1]"
  using store_content_addressed[of "[[1]]"] by simp

section \<open>Pinning and fetching a record\<close>

text \<open>The fields with the dictionaries inside them in key order.\<close>

definition canon_prov :: "prov \<Rightarrow> prov" where
  "canon_prov r = \<lparr>asset_path = canon (asset_path r), version_hash = canon (version_hash r),
     version_tag = canon (version_tag r), input_params = canon (input_params r), out_value = canon (out_value r),
     feed = canon (feed r), ts_utc = canon (ts_utc r), att_public_key = canon (att_public_key r),
     att_signature = canon (att_signature r), payload_bytes = payload_bytes r, record_type = canon (record_type r),
     source_preview = canon (source_preview r), agg_meta = canon (agg_meta r), submitted_at = canon (submitted_at r),
     tx_ref = canon (tx_ref r), ipfs_cid = canon (ipfs_cid r)\<rparr>"

lemma map_of_canon:
  assumes "distinct (dict_keys kvs)"
  shows "map_of (sort_key fst (map (\<lambda>(k, v). (k, canon v)) kvs)) k = map_option canon (map_of kvs k)"
proof -
  let ?l = "map (\<lambda>(k, v). (k, canon v)) kvs"
  have d: "distinct (dict_keys ?l)" using assms by (simp add: comp_def split_beta)
  have "mset (dict_keys (sort_key fst ?l)) = mset (dict_keys ?l)" by (metis mset_map mset_sort)
  then have "distinct (dict_keys (sort_key fst ?l))" using d mset_eq_imp_distinct_iff by blast
  then have e: "map_of (sort_key fst ?l) = map_of ?l" using map_of_inject_set[OF _ d] by simp
  have "map_of ?l k = map_option canon (map_of kvs k)" by (simp add: map_of_map)
  with e show ?thesis by (simp only:)
qed

lemma index_canon:
  assumes "json_ok v" "index k v = Inr x"
  shows "index k (canon v) = Inr (canon x) \<and> json_ok x"
proof -
  obtain kvs where v: "v = JDict kvs" "map_of kvs k = Some x"
    using assms(2) by (auto simp: index_def res_simps split: json.splits)
  then have "json_ok x" using assms(1) by (auto simp: list_all_iff dest: map_of_SomeD)
  then show ?thesis using v assms(1) by (simp add: map_of_canon dict_at_def)
qed

lemma get_or_canon:
  assumes "json_ok v" "get_or k JNull v = Inr x"
  shows "get_or k JNull (canon v) = Inr (canon x)"
proof -
  obtain kvs where v: "v = JDict kvs" using assms(2) by (auto simp: get_or_def res_simps split: json.splits)
  have "distinct (dict_keys kvs)" using assms(1) v by simp
  with assms(2) v show ?thesis by (cases "map_of kvs k") (simp_all add: map_of_canon del: map_of_eq_Some_iff)
qed

lemma canon_str: "canon v = JStr s \<longleftrightarrow> v = JStr s"
  by (cases v) auto

lemma from_dict_canon:
  assumes "json_ok d" "prov_from_dict d = Inr r"
  shows "prov_from_dict (canon d) = Inr (canon_prov r)"
proof -
  from assms(2) obtain sub att cmp gs ip ap vh vt sp ps ov fid ts pk sg ph pb rt am sa tx cid where
    b: "index (lit ''submission'') d = Inr sub" "index (lit ''attestation'') d = Inr att"
      "index (lit ''computation'') d = Inr cmp" "index (lit ''gee_script'') d = Inr gs"
      "index (lit ''input_params'') d = Inr ip" and
    f: "index (lit ''asset_path'') gs = Inr ap" "index (lit ''version_hash'') gs = Inr vh"
      "index (lit ''version_tag'') gs = Inr vt" "index (lit ''params'') ip = Inr ps"
      "index (lit ''output_value'') cmp = Inr ov" "index (lit ''feed_id'') cmp = Inr fid"
      "index (lit ''timestamp_utc'') cmp = Inr ts" "index (lit ''public_key'') att = Inr pk"
      "index (lit ''signature'') att = Inr sg" "index (lit ''payload_hex'') att = Inr ph"
      "index (lit ''record_type'') d = Inr rt" "index (lit ''submitted_at_utc'') sub = Inr sa" and
    g: "get_or (lit ''source_preview'') JNull gs = Inr sp" "get_or (lit ''aggregation'') JNull d = Inr am"
      "get_or (lit ''tx_ref'') JNull sub = Inr tx" "get_or (lit ''ipfs_cid'') JNull sub = Inr cid" and
    h: "(case ph of JStr s \<Rightarrow> py_fromhex s | _ \<Rightarrow> raise TypeError [T ''fromhex() argument must be str'']) = Inr pb" and
    r: "r = \<lparr>asset_path = ap, version_hash = vh, version_tag = vt, input_params = ps, out_value = ov,
          feed = fid, ts_utc = ts, att_public_key = pk, att_signature = sg, payload_bytes = pb,
          record_type = rt, source_preview = sp, agg_meta = am, submitted_at = sa, tx_ref = tx, ipfs_cid = cid\<rparr>"
    unfolding prov_from_dict_def bindE_ok by (elim exE conjE) (simp only: sum.inject)
  note ok = b[THEN index_canon[OF assms(1), THEN conjunct2]]
  have ph: "canon ph = ph" using h by (cases ph) (auto simp: res_simps)
  note cs = b[THEN index_canon[OF assms(1), THEN conjunct1]]
    f(1-3)[THEN index_canon[OF ok(4), THEN conjunct1]] f(4)[THEN index_canon[OF ok(5), THEN conjunct1]]
    f(5-7)[THEN index_canon[OF ok(3), THEN conjunct1]] f(8-10)[THEN index_canon[OF ok(2), THEN conjunct1]]
    f(11)[THEN index_canon[OF assms(1), THEN conjunct1]] f(12)[THEN index_canon[OF ok(1), THEN conjunct1]]
    g(1)[THEN get_or_canon[OF ok(4)]] g(2)[THEN get_or_canon[OF assms(1)]] g(3,4)[THEN get_or_canon[OF ok(1)]]
  show ?thesis unfolding prov_from_dict_def cs bindE.simps ph h canon_prov_def r prov.select_convs ..
qed

lemma valid_hex: "valid_text (hex b)"
  by (auto simp: valid_text_def scalar_def is_surrogate_def lower_hex_def list_all_iff dest!: hex_lower)

lemma valid_replicate: "c < 128 \<Longrightarrow> valid_text (replicate n c)"
  by (intro ascii_valid ascii_replicate)

lemma valid_iso: "valid_text (iso_text c)"
proof -
  have "ascii_text (pad2 n)" for n by (simp add: pad2_def ascii_dec_nat)
  then have "ascii_text (iso_text c)" by (simp add: iso_text_def ascii_dec_nat ascii_lit)
  then show ?thesis by (rule ascii_valid)
qed

lemma sample_json_ok: "\<exists>d. prov_to_dict sample_prov = Inr d \<and> json_ok d"
proof -
  let ?d = "record_block sample_prov (gee_script_block sample_prov [(lit ''source_preview'', js ''code'')])
    (submission_block sample_prov (iso_text (civil_of 1720051260))) (params_hash_hex (input_params sample_prov))
    (iso_text (civil_of 1720051200))"
  have "prov_to_dict sample_prov = Inr ?d"
    unfolding prov_to_dict_ok
    by (intro exI[of _ "[(lit ''source_preview'', js ''code'')]"] exI[of _ "iso_text (civil_of 1720051260)"]
        exI[of _ "iso_text (civil_of 1720051200)"])
      (simp add: preview_of_def sample_prov_def preview512_def js_def truthy_def utc_iso_ok MAX_TS_def lit_def)
  moreover have "json_ok ?d"
    by (simp add: record_block_def gee_script_block_def submission_block_def sample_prov_def js_def opt_field_def
        truthy_def eq_str_def valid_literal valid_hex valid_replicate valid_iso params_hash_hex_def)
  ultimately show ?thesis by blast
qed

text \<open>C32: a record that is written, pinned and fetched reads back as the record, with the dictionaries
  inside its fields in key order, and the store returns the same document for the CID.\<close>

theorem record_survives_storage:
  assumes "prov_to_dict r = Inr d" "json_ok d"
  shows "\<exists>st' d'. pin_provenance_record sim_client d st = (Inr (simulated_cid (dumps_bytes d)), st') \<and>
    fetch_provenance_record sim_client (simulated_cid (dumps_bytes d)) st' = (Inr d', st') \<and>
    prov_from_dict d' = Inr (canon_prov (written r))"
proof -
  have "prov_from_dict d = Inr (written r)" using written_reads[OF assms(1)] .
  then have "prov_from_dict (canon d) = Inr (canon_prov (written r))" by (rule from_dict_canon[OF assms(2)])
  with pin_then_fetch[OF assms(2), of st] show ?thesis by blast
qed

lemma record_survives_storage_witness:
  "\<exists>d st' d'. prov_to_dict sample_prov = Inr d \<and>
     fetch_provenance_record sim_client (simulated_cid (dumps_bytes d)) st' = (Inr d', st') \<and>
     prov_from_dict d' = Inr (canon_prov (written sample_prov))"
proof -
  obtain d where d: "prov_to_dict sample_prov = Inr d" "json_ok d" using sample_json_ok by blast
  from record_survives_storage[OF d, of "[]"] d(1) show ?thesis by blast
qed

section \<open>The Kubo client\<close>

lemma on_URLError_kind: "on_URLError m x = Inl e \<Longrightarrow> ekind e \<noteq> URLError"
  by (auto simp: on_URLError_def res_simps split: sum.splits if_splits)

lemma on_URLError_ok: "on_URLError m x = Inr y \<longleftrightarrow> x = Inr y"
  by (auto simp: on_URLError_def res_simps split: sum.splits if_splits)

text \<open>The Kubo client never lets the transport's URLError out: an unreachable gateway is a RuntimeError
  that names the CID, the gateway and the cause. A reply to a pin is a CID only when it is a JSON
  object with a Hash member.\<close>

theorem local_ipfs_errors:
  "(\<forall>e. fst (local_pin rep http c content w) = Inl e \<or> fst (local_get http c cid w) = Inl e \<longrightarrow> ekind e \<noteq> URLError) \<and>
   (\<forall>x. fst (local_pin rep http c content w) = Inr x \<longrightarrow> (\<exists>req body kvs h. fst (http req w) = Inr body \<and>
      req_body req = Some (form_body content) \<and>
      loads_bytes body = Inr (JDict kvs) \<and> map_of kvs (lit ''Hash'') = Some h \<and> x = str_of rep h)) \<and>
   (\<forall>e. fst (http \<lparr>req_method = lit ''GET'', req_url = gateway_url c @ lit ''/ipfs/'' @ cid, req_headers = [],
        req_body = None\<rparr> w) = Inl e \<and> ekind e = URLError \<longrightarrow>
      fst (local_get http c cid w) = raise RuntimeError ([T ''Cannot retrieve CID '', Q [cid],
        T '' from gateway '', S (gateway_url c)] @ [T '': ''] @ emsg e))"
proof (intro conjI allI impI)
  fix e
  assume "fst (local_pin rep http c content w) = Inl e \<or> fst (local_get http c cid w) = Inl e"
  then show "ekind e \<noteq> URLError"
    by (auto simp: local_pin_def local_get_def Let_def split_beta dest: on_URLError_kind)
next
  fix x
  assume "fst (local_pin rep http c content w) = Inr x"
  then obtain req body result h where *: "fst (http req w) = Inr body" "req_body req = Some (form_body content)"
    "loads_bytes body = Inr result" "index (lit ''Hash'') result = Inr h" "x = str_of rep h"
    by (auto simp: local_pin_def Let_def split_beta on_URLError_ok bindE_ok)
  then obtain kvs where "result = JDict kvs" "map_of kvs (lit ''Hash'') = Some h"
    by (auto simp: index_def res_simps split: json.splits)
  with * show "\<exists>req body kvs h. fst (http req w) = Inr body \<and> req_body req = Some (form_body content) \<and>
      loads_bytes body = Inr (JDict kvs) \<and> map_of kvs (lit ''Hash'') = Some h \<and> x = str_of rep h"
    by blast
next
  fix e
  assume "fst (http \<lparr>req_method = lit ''GET'', req_url = gateway_url c @ lit ''/ipfs/'' @ cid, req_headers = [],
        req_body = None\<rparr> w) = Inl e \<and> ekind e = URLError"
  then show "fst (local_get http c cid w) = raise RuntimeError ([T ''Cannot retrieve CID '', Q [cid],
        T '' from gateway '', S (gateway_url c)] @ [T '': ''] @ emsg e)"
    by (simp add: local_get_def Let_def split_beta on_URLError_def)
qed

text \<open>A node that answers every pin with a fixed hash, and one that cannot be reached.\<close>

definition down :: "unit transport" where
  "down req w = (raise URLError [T ''refused''], w)"

lemma local_ipfs_errors_witness:
  "fst (local_get down (mk_local_ipfs (lit ''http://a/'') (lit ''http://b//'')) (lit ''cid'') ()) =
     raise RuntimeError ([T ''Cannot retrieve CID '', Q [lit ''cid''], T '' from gateway '', S (lit ''http://b'')] @
       [T '': ''] @ [T ''refused''])"
proof -
  have g: "gateway_url (mk_local_ipfs (lit ''http://a/'') (lit ''http://b//'')) = lit ''http://b''"
    by (simp add: mk_local_ipfs_def rstrip_slash_def lit_def)
  show ?thesis
    using local_ipfs_errors[of "\<lambda>_. []" down "mk_local_ipfs (lit ''http://a/'') (lit ''http://b//'')" "[]" "()" "lit ''cid''"]
    by (simp add: down_def raise_def g)
qed

end
