(* ===== verification/Resilience.thy ===== *)
theory Resilience
  imports Py_Num Py_Time "HOL-Library.Multiset"
begin

text \<open>
  \<open>oracle_bridge/resilience.py\<close>: retry with exponential backoff, the degraded-mode state
  machine and the dead-letter queue. The clock, the random source and sleeping are operations on
  an explicit world \<open>'w\<close>; logging is left out. The SQLite table is the list of its rows in
  row-id order with the AUTOINCREMENT counter. The locale \<open>dead_letters\<close> is the contract of
  the queue.
\<close>

section \<open>The system interface\<close>

text \<open>\<open>time.time\<close>, \<open>random.random\<close>, \<open>time.sleep\<close> and
  \<open>datetime.now(utc).isoformat()\<close>.\<close>

record 'w sys =
  sys_time :: "'w \<Rightarrow> pyfloat \<times> 'w"
  sys_random :: "'w \<Rightarrow> pyfloat \<times> 'w"
  sys_sleep :: "pyfloat \<Rightarrow> 'w \<Rightarrow> unit res \<times> 'w"
  sys_iso_now :: "'w \<Rightarrow> pystr \<times> 'w"

section \<open>Retry\<close>

record retry_config =
  max_retries :: int
  base_delay :: pyfloat
  max_delay :: pyfloat
  jitter_factor :: pyfloat

text \<open>The defaults: three retries, 1 s base, 60 s cap, a tenth of jitter.\<close>

definition default_retry :: retry_config where
  "default_retry = \<lparr>max_retries = 3, base_delay = Fin 1, max_delay = Fin 60, jitter_factor = fl (1/10)\<rparr>"

text \<open>\<open>random.uniform(a, b)\<close> from the reading \<open>r\<close> of the random source.\<close>

definition uniform :: "pyfloat \<Rightarrow> pyfloat \<Rightarrow> pyfloat \<Rightarrow> pyfloat" where
  "uniform a b r = f_add a (f_mul (f_sub b a) r)"

definition compute_backoff :: "nat \<Rightarrow> retry_config \<Rightarrow> pyfloat \<Rightarrow> pyfloat res" where
  "compute_backoff attempt config r =
     bindE (float_of_int (2 ^ attempt)) (\<lambda>p.
     let delay = f_min (f_mul (base_delay config) p) (max_delay config);
         jitter = f_mul delay (jitter_factor config) in
     Inr (f_max (Fin 0) (f_add delay (uniform (f_neg jitter) jitter r))))"

text \<open>
  The loop over \<open>range(max_retries + 1)\<close>. An error in the backoff or in the sleep leaves
  the handler; after the loop the last exception is raised again (\<open>None\<close> is a TypeError).
\<close>

fun retry_loop :: "'w sys \<Rightarrow> ('w \<Rightarrow> 'a res \<times> 'w) \<Rightarrow> retry_config \<Rightarrow> (exn \<Rightarrow> bool) \<Rightarrow> nat list \<Rightarrow>
    exn option \<Rightarrow> 'w \<Rightarrow> 'a res \<times> 'w" where
  "retry_loop Y fn config catches [] last_exc w = (case last_exc of
     None \<Rightarrow> (raise TypeError [T ''exceptions must derive from BaseException''], w)
   | Some e \<Rightarrow> (Inl e, w))"
| "retry_loop Y fn config catches (attempt # rest) last_exc w = (case fn w of
     (Inr x, w1) \<Rightarrow> (Inr x, w1)
   | (Inl e, w1) \<Rightarrow>
       if \<not> catches e then (Inl e, w1)
       else if int attempt < max_retries config then
         (case sys_random Y w1 of (r, w2) \<Rightarrow>
          (case compute_backoff attempt config r of
             Inl e2 \<Rightarrow> (Inl e2, w2)
           | Inr delay \<Rightarrow> (case sys_sleep Y delay w2 of
               (Inl e3, w3) \<Rightarrow> (Inl e3, w3)
             | (Inr _, w3) \<Rightarrow> retry_loop Y fn config catches rest (Some e) w3)))
       else retry_loop Y fn config catches rest (Some e) w1)"

definition retry :: "'w sys \<Rightarrow> ('w \<Rightarrow> 'a res \<times> 'w) \<Rightarrow> retry_config \<Rightarrow> (exn \<Rightarrow> bool) \<Rightarrow> 'w \<Rightarrow> 'a res \<times> 'w" where
  "retry Y fn config catches w = retry_loop Y fn config catches [0 ..< nat (max_retries config + 1)] None w"

section \<open>Degraded mode\<close>

record degraded_state =
  threshold :: int
  staleness :: pyfloat
  dg_feed :: pystr
  consecutive_failures :: int
  degraded :: bool
  lkg_price :: "int option"
  lkg_time :: pyfloat

definition mk_degraded :: "int \<Rightarrow> pyfloat \<Rightarrow> pystr \<Rightarrow> degraded_state" where
  "mk_degraded th st fid = \<lparr>threshold = th, staleness = st, dg_feed = fid, consecutive_failures = 0,
     degraded = False, lkg_price = None, lkg_time = Fin 0\<rparr>"

text \<open>\<open>last_known_good_price\<close> at a reading of the clock.\<close>

definition last_known_good :: "pyfloat \<Rightarrow> degraded_state \<Rightarrow> int option" where
  "last_known_good now s = (case lkg_price s of
     None \<Rightarrow> None
   | Some p \<Rightarrow> if staleness s < f_sub now (lkg_time s) then None else Some p)"

definition dg_success :: "int \<Rightarrow> pyfloat \<Rightarrow> degraded_state \<Rightarrow> degraded_state" where
  "dg_success price now s = s\<lparr>consecutive_failures := 0, degraded := False, lkg_price := Some price,
     lkg_time := now\<rparr>"

definition dg_failure :: "degraded_state \<Rightarrow> degraded_state" where
  "dg_failure s = (let n = consecutive_failures s + 1; s' = s\<lparr>consecutive_failures := n\<rparr> in
     if threshold s \<le> n then s'\<lparr>degraded := True\<rparr> else s')"

definition dg_exit :: "degraded_state \<Rightarrow> degraded_state" where
  "dg_exit s = s\<lparr>degraded := False, consecutive_failures := 0\<rparr>"

text \<open>One step of the machine, and the states it reaches from its start.\<close>

inductive dg_step :: "degraded_state \<Rightarrow> degraded_state \<Rightarrow> bool" where
  success: "dg_step s (dg_success price now s)"
| failure: "dg_step s (dg_failure s)"
| exit: "dg_step s (dg_exit s)"

inductive dg_reachable :: "degraded_state \<Rightarrow> bool" where
  start: "dg_reachable (mk_degraded th st fid)"
| step: "dg_reachable s \<Longrightarrow> dg_step s s' \<Longrightarrow> dg_reachable s'"

inductive_cases dg_stepE: "dg_step s s'"

text \<open>\<open>state_info\<close>; the \<open>isoformat\<close> of a float time is a parameter.\<close>

record state_info =
  si_feed :: pystr
  si_degraded :: bool
  si_failures :: int
  si_price :: "int option"
  si_time :: "pystr option"
  si_staleness :: pyfloat

definition state_info_of :: "(pyfloat \<Rightarrow> pystr res) \<Rightarrow> degraded_state \<Rightarrow> state_info res" where
  "state_info_of isoformat s =
     bindE (if Fin 0 < lkg_time s then bindE (isoformat (lkg_time s)) (\<lambda>t. Inr (Some t)) else Inr None) (\<lambda>t.
     Inr \<lparr>si_feed = dg_feed s, si_degraded = degraded s, si_failures = consecutive_failures s,
          si_price = lkg_price s, si_time = t, si_staleness = staleness s\<rparr>)"

section \<open>The dead-letter queue\<close>

record dlq_entry =
  e_id :: int
  e_feed :: pystr
  e_payload :: pystr
  e_error :: pystr
  e_attempts :: int
  e_created :: pystr
  e_replayed :: bool
  e_replayed_at :: "pystr option"

record dlq =
  rows :: "dlq_entry list"
  seq :: int

text \<open>\<open>CREATE TABLE IF NOT EXISTS\<close> on a fresh file.\<close>

definition dlq_empty :: dlq where
  "dlq_empty = \<lparr>rows = [], seq = 0\<rparr>"

definition enqueue :: "pystr \<Rightarrow> pystr \<Rightarrow> pystr \<Rightarrow> int \<Rightarrow> pystr \<Rightarrow> dlq \<Rightarrow> int \<times> dlq" where
  "enqueue fid payload err attempts now q = (let i = seq q + 1 in
     (i, \<lparr>rows = rows q @ [\<lparr>e_id = i, e_feed = fid, e_payload = payload, e_error = err,
            e_attempts = attempts, e_created = now, e_replayed = False, e_replayed_at = None\<rparr>],
          seq = i\<rparr>))"

definition list_unreplayed :: "dlq \<Rightarrow> dlq_entry list" where
  "list_unreplayed q = sort_key e_created (filter (\<lambda>e. \<not> e_replayed e) (rows q))"

definition mark_replayed :: "int \<Rightarrow> pystr \<Rightarrow> dlq \<Rightarrow> dlq" where
  "mark_replayed i now q = q\<lparr>rows := map (\<lambda>e. if e_id e = i
     then e\<lparr>e_replayed := True, e_replayed_at := Some now\<rparr> else e) (rows q)\<rparr>"

definition dlq_count :: "dlq \<Rightarrow> int" where
  "dlq_count q = int (length (rows q))"

definition count_unreplayed :: "dlq \<Rightarrow> int" where
  "count_unreplayed q = int (length (filter (\<lambda>e. \<not> e_replayed e) (rows q)))"

section \<open>The contract of the queue\<close>

text \<open>Row ids are distinct and the counter bounds them.\<close>

definition dlq_ok :: "dlq \<Rightarrow> bool" where
  "dlq_ok q \<longleftrightarrow> distinct (map e_id (rows q)) \<and> (\<forall>e \<in> set (rows q). e_id e \<le> seq q)"

locale dead_letters =
  fixes ok :: "'q \<Rightarrow> bool" and put :: "'e \<Rightarrow> 'q \<Rightarrow> int \<times> 'q" and mark :: "int \<Rightarrow> 'q \<Rightarrow> 'q"
    and pending :: "'q \<Rightarrow> int list" and known :: "'q \<Rightarrow> int set"
  assumes ok_put: "ok q \<Longrightarrow> put e q = (i, q') \<Longrightarrow> ok q'"
    and ok_mark: "ok q \<Longrightarrow> ok (mark i q)"
    and put_new: "ok q \<Longrightarrow> put e q = (i, q') \<Longrightarrow> i \<notin> known q"
    and known_put: "ok q \<Longrightarrow> put e q = (i, q') \<Longrightarrow> known q' = insert i (known q)"
    and known_mark: "known (mark i q) = known q"
    and pending_put: "ok q \<Longrightarrow> put e q = (i, q') \<Longrightarrow> mset (pending q') = mset (pending q) + {#i#}"
    and pending_mark: "ok q \<Longrightarrow> mset (pending (mark i q)) = filter_mset (\<lambda>j. j \<noteq> i) (mset (pending q))"
    and pending_known: "set (pending q) \<subseteq> known q"
begin

text \<open>A history of operations, and what it leaves pending.\<close>

fun history :: "('e + int) list \<Rightarrow> 'q \<Rightarrow> int list \<times> 'q" where
  "history [] q = ([], q)"
| "history (Inl e # ops) q = (case put e q of (i, q1) \<Rightarrow> (i # fst (history ops q1), snd (history ops q1)))"
| "history (Inr i # ops) q = history ops (mark i q)"

lemma history_ok: "ok q \<Longrightarrow> ok (snd (history ops q))"
proof (induction ops q rule: history.induct)
  case (2 e ops q)
  obtain i q1 where p: "put e q = (i, q1)" by fastforce
  from "2.IH"[OF p[symmetric]] ok_put[OF "2.prems" p] p show ?case by simp
qed (auto intro: ok_mark)

lemma history_known: "ok q \<Longrightarrow> known (snd (history ops q)) = known q \<union> set (fst (history ops q))"
proof (induction ops q rule: history.induct)
  case (2 e ops q)
  obtain i q1 where p: "put e q = (i, q1)" by fastforce
  from "2.IH"[OF p[symmetric]] ok_put[OF "2.prems" p] known_put[OF "2.prems" p] p show ?case by auto
qed (auto simp: known_mark intro: ok_mark)

lemma history_fresh:
  "ok q \<Longrightarrow> distinct (fst (history ops q)) \<and> set (fst (history ops q)) \<inter> known q = {}"
proof (induction ops q rule: history.induct)
  case (2 e ops q)
  obtain i q1 where p: "put e q = (i, q1)" by fastforce
  from "2.IH"[OF p[symmetric] ok_put[OF "2.prems" p]] known_put[OF "2.prems" p] put_new[OF "2.prems" p] p
  show ?case by auto
qed (auto simp: known_mark intro: ok_mark)

text \<open>An entry that was pending or is put stays pending unless a mark names it.\<close>

lemma history_keeps:
  "ok q \<Longrightarrow> j \<in> set (pending q) \<union> set (fst (history ops q)) \<Longrightarrow> Inr j \<notin> set ops \<Longrightarrow>
     j \<in> set (pending (snd (history ops q)))"
proof (induction ops q rule: history.induct)
  case (2 e ops q)
  obtain i q1 where p: "put e q = (i, q1)" by fastforce
  have "set (pending q1) = insert i (set (pending q))"
    using arg_cong[OF pending_put[OF "2.prems"(1) p], of set_mset] by simp
  with "2.IH"[OF p[symmetric] ok_put[OF "2.prems"(1) p]] "2.prems" p show ?case by auto
next
  case (3 i ops q)
  have "set (pending (mark i q)) = {j \<in> set (pending q). j \<noteq> i}"
    using arg_cong[OF pending_mark[OF "3.prems"(1), of i], of set_mset] by simp
  with 3 show ?case using ok_mark by auto
qed auto

end

lemma mark_ids: "map e_id (rows (mark_replayed i now q)) = map e_id (rows q)"
  by (simp add: mark_replayed_def comp_def if_distrib cong: if_cong)

lemma mset_pending: "mset (map e_id (list_unreplayed q)) = mset (map e_id (filter (\<lambda>e. \<not> e_replayed e) (rows q)))"
  unfolding list_unreplayed_def by (metis mset_map mset_sort)

lemma unreplayed_mark:
  "filter (\<lambda>e. \<not> e_replayed e) (rows (mark_replayed i now q)) = filter (\<lambda>e. \<not> e_replayed e \<and> e_id e \<noteq> i) (rows q)"
proof -
  have "filter (\<lambda>e. \<not> e_replayed e) (map (\<lambda>e. if e_id e = i
     then e\<lparr>e_replayed := True, e_replayed_at := Some now\<rparr> else e) es) = filter (\<lambda>e. \<not> e_replayed e \<and> e_id e \<noteq> i) es" for es
    by (induction es) auto
  then show ?thesis by (simp add: mark_replayed_def)
qed

type_synonym letter = "pystr \<times> pystr \<times> pystr \<times> int \<times> pystr"

definition put_letter :: "letter \<Rightarrow> dlq \<Rightarrow> int \<times> dlq" where
  "put_letter = (\<lambda>(fid, payload, err, attempts, now). enqueue fid payload err attempts now)"

interpretation dlq: dead_letters dlq_ok put_letter "\<lambda>i. mark_replayed i now"
  "\<lambda>q. map e_id (list_unreplayed q)" "\<lambda>q. e_id ` set (rows q)" for now
proof unfold_locales
  fix q :: dlq and i
  assume "dlq_ok q"
  then show "dlq_ok (mark_replayed i now q)"
    unfolding dlq_ok_def mark_ids by (auto simp: mark_replayed_def)
next
  fix q i
  show "e_id ` set (rows (mark_replayed i now q)) = e_id ` set (rows q)"
    by (metis list.set_map mark_ids)
next
  fix q e i q'
  assume "dlq_ok q" "put_letter e q = (i, q')"
  then show "mset (map e_id (list_unreplayed q')) = mset (map e_id (list_unreplayed q)) + {#i#}"
    unfolding mset_pending by (auto simp: put_letter_def enqueue_def Let_def split: prod.splits)
next
  fix q :: dlq and i
  have "mset (map e_id (filter (\<lambda>e. \<not> e_replayed e \<and> e_id e \<noteq> i) es)) =
      filter_mset (\<lambda>j. j \<noteq> i) (mset (map e_id (filter (\<lambda>e. \<not> e_replayed e) es)))" for es
    by (induction es) auto
  then show "mset (map e_id (list_unreplayed (mark_replayed i now q))) =
      filter_mset (\<lambda>j. j \<noteq> i) (mset (map e_id (list_unreplayed q)))"
    unfolding mset_pending unreplayed_mark .
next
  fix q
  show "set (map e_id (list_unreplayed q)) \<subseteq> e_id ` set (rows q)" by (auto simp: list_unreplayed_def)
qed (auto simp: put_letter_def enqueue_def Let_def dlq_ok_def split: prod.splits)

text \<open>A history of enqueues and replays at one time, on the queue itself.\<close>

fun dlq_run :: "pystr \<Rightarrow> (letter + int) list \<Rightarrow> dlq \<Rightarrow> int list \<times> dlq" where
  "dlq_run now [] q = ([], q)"
| "dlq_run now (Inl (fid, payload, err, attempts, created) # ops) q =
     (case enqueue fid payload err attempts created q of
        (i, q1) \<Rightarrow> (i # fst (dlq_run now ops q1), snd (dlq_run now ops q1)))"
| "dlq_run now (Inr i # ops) q = dlq_run now ops (mark_replayed i now q)"

lemma put_letter_tuple: "put_letter (fid, payload, err, attempts, created) = enqueue fid payload err attempts created"
  by (simp add: put_letter_def)

lemma dlq_run_history: "dlq_run now ops q = dlq.history now ops q"
  by (induction now ops q rule: dlq_run.induct) (auto simp: dlq.history.simps put_letter_tuple split: prod.splits)

end
