(* ===== verification/Resilience_Properties.thy ===== *)
theory Resilience_Properties
  imports Resilience
begin

text \<open>
  What the resilience component promises: the exact outcome of a retried call in terms of the calls
  made, the bounds of the backoff delay, the degraded-mode machine as a function of the history of
  successes and failures, and a dead-letter queue that loses no entry.
\<close>

section \<open>Retry\<close>

text \<open>The call with a log of its results, and the system interface beside the log.\<close>

definition logged :: "('w \<Rightarrow> 'a res \<times> 'w) \<Rightarrow> 'a res list \<times> 'w \<Rightarrow> 'a res \<times> ('a res list \<times> 'w)" where
  "logged fn = (\<lambda>(rs, w). case fn w of (r, w') \<Rightarrow> (r, (rs @ [r], w')))"

definition beside :: "'w sys \<Rightarrow> ('l \<times> 'w) sys" where
  "beside Y = \<lparr>sys_time = (\<lambda>(l, w). case sys_time Y w of (t, w') \<Rightarrow> (t, (l, w'))),
     sys_random = (\<lambda>(l, w). case sys_random Y w of (r, w') \<Rightarrow> (r, (l, w'))),
     sys_sleep = (\<lambda>d (l, w). case sys_sleep Y d w of (u, w') \<Rightarrow> (u, (l, w'))),
     sys_iso_now = (\<lambda>(l, w). case sys_iso_now Y w of (s, w') \<Rightarrow> (s, (l, w')))\<rparr>"

definition caught :: "(exn \<Rightarrow> bool) \<Rightarrow> 'a res \<Rightarrow> bool" where
  "caught catches r \<longleftrightarrow> (\<exists>e. r = Inl e \<and> catches e)"

lemma caught_simps [simp]: "caught c (Inl e) = c e" "\<not> caught c (Inr x)"
  by (auto simp: caught_def)

text \<open>The log does not change what the loop does.\<close>

lemma retry_loop_logged:
  "retry_loop (beside Y) (logged fn) cfg c ats le (rs, w) = (r, (rs', w')) \<Longrightarrow>
     retry_loop Y fn cfg c ats le w = (r, w')"
  by (induction Y fn cfg c ats le w arbitrary: rs rule: retry_loop.induct)
    (auto simp: logged_def beside_def split: prod.splits sum.splits if_splits option.splits)

lemma backoff_total: "attempt \<le> 1023 \<Longrightarrow> \<exists>d. compute_backoff attempt cfg r = Inr d"
proof -
  assume a: "attempt \<le> 1023"
  have r: "representable (2 ^ attempt)" using representable_pow2[of "int attempt"] by (simp add: pow2_def)
  have "(2 :: rat) ^ attempt < 2 ^ 1024" using a by (intro power_strict_increasing) auto
  then have "fl (2 ^ attempt) = Fin (2 ^ attempt)" using r by (intro fl_exact) (auto simp: f_max_bound_def)
  then show ?thesis by (simp add: compute_backoff_def float_of_int_def Let_def)
qed

lemma retry_loop_outcome:
  assumes "retry_loop (beside Y) (logged fn) cfg c ats le (rs, w) = (r, (rs', w'))"
    "\<forall>d w. fst (sys_sleep Y d w) = Inr ()" "\<forall>a \<in> set ats. a \<le> 1024" "max_retries cfg \<le> 1024"
    "ats \<noteq> []" "int (last ats) = max_retries cfg" "sorted_wrt (<) ats"
  shows "\<exists>new. rs' = rs @ new \<and> new \<noteq> [] \<and> length new \<le> length ats \<and> r = last new \<and>
    (\<forall>x \<in> set (butlast new). caught c x) \<and> (caught c r \<longrightarrow> length new = length ats)"
  using assms
proof (induction ats arbitrary: rs le w)
  case (Cons a ats)
  obtain x w1 where x: "fn w = (x, w1)" by fastforce
  show ?case
  proof (cases "caught c x")
    case False
    then have "r = x \<and> rs' = rs @ [x]"
      using Cons.prems(1) x by (cases x) (auto simp: logged_def)
    then show ?thesis using False by auto
  next
    case True
    then obtain e where e: "x = Inl e" "c e" by (auto simp: caught_def)
    show ?thesis
    proof (cases "ats = []")
      case last: True
      then have "\<not> int a < max_retries cfg" using Cons.prems(6) by simp
      then have "r = x \<and> rs' = rs @ [x]" using Cons.prems(1) x e last by (auto simp: logged_def)
      then show ?thesis using last by auto
    next
      case more: False
      then have "a < last ats" using Cons.prems(7) by auto
      then have lt: "int a < max_retries cfg" using Cons.prems(6) more by auto
      then have "a \<le> 1023" using Cons.prems(4) by simp
      obtain u w2 where u: "sys_random Y w1 = (u, w2)" by fastforce
      obtain d where d: "compute_backoff a cfg u = Inr d" using backoff_total[OF \<open>a \<le> 1023\<close>] by blast
      obtain w3 where w3: "sys_sleep Y d w2 = (Inr (), w3)"
        using Cons.prems(2) by (metis prod.collapse)
      have "retry_loop (beside Y) (logged fn) cfg c ats (Some e) (rs @ [x], w3) = (r, (rs', w'))"
        using Cons.prems(1) x e lt u d w3 by (simp add: logged_def beside_def)
      from Cons.IH[OF this] Cons.prems more obtain new where
        new: "rs' = rs @ [x] @ new" "new \<noteq> []" "length new \<le> length ats" "r = last new"
          "\<forall>x \<in> set (butlast new). caught c x" "caught c r \<longrightarrow> length new = length ats"
        by auto
      then show ?thesis using True by (intro exI[of _ "x # new"]) auto
    qed
  qed
qed simp

text \<open>C22: with up to 1024 retries and a sleep that does not raise, a retried call makes between one and
  one more than that many calls; all but the last failed with an exception that is retried; its result
  is the result of the last call; and it gives up with such an exception only after all of them. With
  a negative number of retries no call is made and the result is a TypeError.\<close>

theorem retry_outcome:
  assumes "max_retries cfg \<le> 1024" "\<forall>d w. fst (sys_sleep Y d w) = Inr ()"
    "retry (beside Y) (logged fn) cfg c ([], w) = (r, (calls, w'))"
  shows "retry Y fn cfg c w = (r, w') \<and>
    (if max_retries cfg < 0 then calls = [] \<and> r = raise TypeError [T ''exceptions must derive from BaseException'']
     else calls \<noteq> [] \<and> int (length calls) \<le> max_retries cfg + 1 \<and> r = last calls \<and>
       (\<forall>x \<in> set (butlast calls). caught c x) \<and>
       (caught c r \<longrightarrow> int (length calls) = max_retries cfg + 1))"
proof (cases "max_retries cfg < 0")
  case True
  then show ?thesis using assms(3) by (auto simp: retry_def)
next
  case False
  let ?ats = "[0 ..< nat (max_retries cfg + 1)]"
  have n: "nat (max_retries cfg + 1) = Suc (nat (max_retries cfg))" using False by simp
  have l: "retry_loop (beside Y) (logged fn) cfg c ?ats None ([], w) = (r, (calls, w'))"
    using assms(3) by (simp only: retry_def)
  have a: "\<forall>a \<in> set ?ats. a \<le> 1024" "?ats \<noteq> []" "int (last ?ats) = max_retries cfg" "sorted_wrt (<) ?ats"
    using assms(1) False by (auto simp: n simp del: upt_Suc)
  from retry_loop_outcome[OF l assms(2) a(1) assms(1) a(2-4)]
  have "calls \<noteq> []" "length calls \<le> length ?ats" "r = last calls" "\<forall>x \<in> set (butlast calls). caught c x"
    "caught c r \<longrightarrow> length calls = length ?ats" by auto
  with False retry_loop_logged[OF l] show ?thesis by (simp add: retry_def)
qed

text \<open>A clock that stands still, a random source at one half and a sleep that does nothing.\<close>

definition still :: "'w sys" where
  "still = \<lparr>sys_time = (\<lambda>w. (Fin 0, w)), sys_random = (\<lambda>w. (Fin (1/2), w)),
     sys_sleep = (\<lambda>d w. (Inr (), w)), sys_iso_now = (\<lambda>w. (lit ''2024-07-04T00:00:00+00:00'', w))\<rparr>"

text \<open>A call that fails twice and then succeeds.\<close>

definition flaky :: "nat \<Rightarrow> int res \<times> nat" where
  "flaky n = (if n < 2 then raise RuntimeError [] else Inr 7, n + 1)"

lemma retry_outcome_witness:
  "\<exists>r calls w'. retry (beside still) (logged flaky) default_retry is_Exception ([], 0) = (r, (calls, w')) \<and>
     calls \<noteq> [] \<and> length calls \<le> 4 \<and> r = last calls"
proof -
  obtain r calls w' where e:
    "retry (beside still) (logged flaky) default_retry is_Exception ([], 0) = (r, (calls, w'))"
    by (metis prod.exhaust)
  have "max_retries default_retry \<le> 1024" "\<forall>d w. fst (sys_sleep still d w) = Inr ()"
    by (simp_all add: default_retry_def still_def)
  from retry_outcome[OF this e] have "calls \<noteq> [] \<and> length calls \<le> 4 \<and> r = last calls"
    by (simp add: default_retry_def)
  with e show ?thesis by blast
qed

section \<open>The backoff delay\<close>

lemma fl_between:
  assumes "representable a" "representable b" "a \<le> x" "x \<le> b" "- f_max_bound < a" "b < f_max_bound"
  shows "fl x = Fin (rnd x)" "a \<le> rnd x" "rnd x \<le> b"
proof -
  show b: "a \<le> rnd x" "rnd x \<le> b" using dbl.between[OF assms(1-4)] by auto
  then show "fl x = Fin (rnd x)" using assms(5,6) by (auto simp: fl_def Let_def)
qed

text \<open>C35: for finite settings with a cap of at most \<open>2 ^ 1000\<close> and a jitter factor between 0 and 1, and
  for every reading of the random source in the unit interval, the delay of an attempt up to 1023 is
  a finite number, not negative, that differs from the capped exponential delay by at most the jitter
  factor's share of it (the bounds rounded as the code rounds); so it is at most twice the cap, and
  without jitter it is the capped exponential delay.\<close>

theorem backoff_bounds:
  assumes "base_delay cfg = Fin b" "max_delay cfg = Fin m" "jitter_factor cfg = Fin j"
    "is_double (Fin m)" "0 \<le> b" "0 \<le> m" "m \<le> 2 ^ 1000" "0 \<le> j" "j \<le> 1" "0 \<le> u" "u \<le> 1" "attempt \<le> 1023"
  shows "\<exists>q d share. compute_backoff attempt cfg (Fin u) = Inr (Fin q) \<and>
    Fin d = f_min (fl (b * 2 ^ attempt)) (Fin m) \<and> 0 \<le> d \<and> d \<le> m \<and> 0 \<le> q \<and> q \<le> 2 * d \<and> (j = 0 \<longrightarrow> q = d) \<and>
    Fin share = f_mul (Fin d) (Fin j) \<and> 0 \<le> share \<and> share \<le> d \<and>
    f_sub (Fin d) (Fin share) \<le> Fin q \<and> Fin q \<le> f_add (Fin d) (Fin share)"
proof -
  have p: "float_of_int (2 ^ attempt) = Inr (Fin (2 ^ attempt))"
  proof -
    have "representable (2 ^ attempt)" using representable_pow2[of "int attempt"] by (simp add: pow2_def)
    moreover have "(2 :: rat) ^ attempt < 2 ^ 1024" using assms(12) by (intro power_strict_increasing) auto
    ultimately have "fl (2 ^ attempt) = Fin (2 ^ attempt)" by (intro fl_exact) (auto simp: f_max_bound_def)
    then show ?thesis by (simp add: float_of_int_def)
  qed
  have pos: "0 \<le> b * 2 ^ attempt" using assms(5) by simp
  have rm: "representable m" using assms(4) by (simp add: is_double_Fin)
  obtain d where d: "Fin d = f_min (fl (b * 2 ^ attempt)) (Fin m)" "0 \<le> d" "d \<le> m" "representable d"
  proof (cases "Fin m < fl (b * 2 ^ attempt)")
    case True
    then show ?thesis using that[of m] rm assms(6) by (simp add: f_min_def)
  next
    case False
    then obtain x where x: "fl (b * 2 ^ attempt) = Fin x" "x \<le> m"
      using fl_cases[of "b * 2 ^ attempt"] fl_mono[OF pos] by auto
    then have "0 \<le> x" "representable x" using rnd_nonneg[OF pos] by (auto simp: fl_Fin)
    then show ?thesis using that[of x] x False by (simp add: f_min_def)
  qed
  have big: "2 * m < f_max_bound"
  proof -
    have "(2 :: rat) * 2 ^ 1000 < 2 ^ 1024" by simp
    then show ?thesis using assms(7) unfolding f_max_bound_def by linarith
  qed
  have d2: "representable (2 * d)" using d(4) by (rule representable_double)
  define J where "J = rnd (d * j)"
  have "d * j \<le> d" using d(2) assms(9) mult_left_mono[of j 1 d] by simp
  then have J: "fl (d * j) = Fin J" "0 \<le> J" "J \<le> d"
    using fl_between[of 0 d "d * j"] d big assms(8) unfolding J_def by auto
  have rJ: "representable J" "representable (2 * J)" unfolding J_def by (simp_all add: representable_double)
  have "fl (2 * J) = Fin (2 * J)" by (rule fl_exact) (use rJ J d big in auto)
  then have w: "f_sub (Fin J) (Fin (- J)) = Fin (2 * J)" by simp
  define X where "X = rnd (2 * J * u)"
  have "2 * J * u \<le> 2 * J" using J(2) assms(11) mult_left_mono[of u 1 "2 * J"] by simp
  then have X: "fl (2 * J * u) = Fin X" "0 \<le> X" "X \<le> 2 * J"
    using fl_between[of 0 "2 * J" "2 * J * u"] rJ J d big assms(10) unfolding X_def by auto
  define U where "U = rnd (- J + X)"
  have U: "fl (- J + X) = Fin U" "- J \<le> U" "U \<le> J"
    using fl_between[of "- J" J "- J + X"] rJ J d big X unfolding U_def by auto
  define V where "V = rnd (d + U)"
  have V: "fl (d + U) = Fin V" "0 \<le> V" "V \<le> 2 * d"
    using fl_between[of 0 "2 * d" "d + U"] d2 J d big U unfolding V_def by auto
  have "uniform (f_neg (Fin J)) (Fin J) (Fin u) = Fin U"
    by (simp only: uniform_def f_neg.simps w f_mul.simps f_add.simps X U)
  then have "compute_backoff attempt cfg (Fin u) = Inr (Fin V)"
    using V by (simp add: compute_backoff_def p Let_def assms(1-3) d(1)[symmetric] J f_max_def del: f_neg.simps)
  moreover have "V = d" if "j = 0"
  proof -
    have "J = 0" "U = 0" using that U J_def by (auto simp: J_def)
    then show ?thesis unfolding V_def using d(4) by (simp add: dbl.exact)
  qed
  moreover have "f_sub (Fin d) (Fin J) \<le> Fin V" "Fin V \<le> f_add (Fin d) (Fin J)"
  proof -
    have r: "fl (d - J) = Fin (rnd (d - J))" "fl (d + J) = Fin (rnd (d + J))"
      using fl_between[of 0 "2 * d" "d - J"] fl_between[of 0 "2 * d" "d + J"] d2 J d big by auto
    have "rnd (d - J) \<le> V" "V \<le> rnd (d + J)" unfolding V_def using U by (auto intro!: dbl.mono)
    then show "f_sub (Fin d) (Fin J) \<le> Fin V" "Fin V \<le> f_add (Fin d) (Fin J)" using r by (simp_all add: f_sub_def)
  qed
  moreover have "Fin J = f_mul (Fin d) (Fin j)" using J(1) by simp
  ultimately show ?thesis using d V J(2,3) by blast
qed

lemma backoff_bounds_witness:
  "\<exists>q. compute_backoff 2 \<lparr>max_retries = 3, base_delay = Fin 1, max_delay = Fin 60, jitter_factor = Fin 0\<rparr> (Fin (1/2))
     = Inr (Fin q) \<and> 0 \<le> q \<and> q \<le> 120"
proof -
  have "is_double (Fin 60)" using fl_exact_int[of 60] by (simp add: is_double_def)
  from backoff_bounds[OF _ _ _ this, of "\<lparr>max_retries = 3, base_delay = Fin 1, max_delay = Fin 60, jitter_factor = Fin 0\<rparr>"
      1 0 "1/2" 2] show ?thesis by force
qed

text \<open>The cap does not help from attempt 1024 on: the power is converted to a float before it is
  capped, and the conversion raises OverflowError whatever the settings.\<close>

theorem backoff_overflow:
  assumes "1024 \<le> attempt"
  shows "compute_backoff attempt cfg r = raise OverflowError [T ''int too large to convert to float'']"
proof -
  have "(2 :: rat) ^ 1024 \<le> 2 ^ attempt" using assms by (intro power_increasing) auto
  moreover have "representable (2 ^ attempt)" using representable_pow2[of "int attempt"] by (simp add: pow2_def)
  ultimately have "fl (2 ^ attempt) = PInf" by (simp add: fl_def dbl.exact f_max_bound_def)
  then show ?thesis by (simp add: compute_backoff_def float_of_int_def)
qed

lemma backoff_overflow_witness:
  "compute_backoff 1024 default_retry (Fin 0) = raise OverflowError [T ''int too large to convert to float'']"
  by (rule backoff_overflow) simp

section \<open>Degraded mode\<close>

text \<open>The abstract machine: what a history of events says, without counters or flags.\<close>

datatype dg_event = Succeeded int pyfloat | Failed | Exited

fun apply_event :: "dg_event \<Rightarrow> degraded_state \<Rightarrow> degraded_state" where
  "apply_event (Succeeded p t) s = dg_success p t s"
| "apply_event Failed s = dg_failure s"
| "apply_event Exited s = dg_exit s"

definition run_events :: "dg_event list \<Rightarrow> degraded_state \<Rightarrow> degraded_state" where
  "run_events es s = foldl (\<lambda>s e. apply_event e s) s es"

definition failure_streak :: "dg_event list \<Rightarrow> int" where
  "failure_streak es = int (length (takeWhile (\<lambda>e. e = Failed) (rev es)))"

fun last_success :: "dg_event list \<Rightarrow> (int \<times> pyfloat) option" where
  "last_success [] = None"
| "last_success (Succeeded p t # es) = (case last_success es of None \<Rightarrow> Some (p, t) | x \<Rightarrow> x)"
| "last_success (_ # es) = last_success es"

lemma last_success_snoc: "last_success (es @ [e]) = (case e of Succeeded p t \<Rightarrow> Some (p, t) | _ \<Rightarrow> last_success es)"
  by (induction es rule: last_success.induct) (auto split: dg_event.splits option.splits)

lemma streak_snoc: "failure_streak (es @ [e]) = (if e = Failed then failure_streak es + 1 else 0)"
  by (simp add: failure_streak_def)

lemma run_snoc: "run_events (es @ [e]) s = apply_event e (run_events es s)"
  by (simp add: run_events_def)

lemmas dg_defs = mk_degraded_def dg_success_def dg_failure_def dg_exit_def

lemma run_facts:
  assumes "1 \<le> th"
  shows "threshold (run_events es (mk_degraded th st fid)) = th \<and>
    staleness (run_events es (mk_degraded th st fid)) = st \<and>
    consecutive_failures (run_events es (mk_degraded th st fid)) = failure_streak es \<and>
    (degraded (run_events es (mk_degraded th st fid)) \<longleftrightarrow> th \<le> failure_streak es) \<and>
    lkg_price (run_events es (mk_degraded th st fid)) = map_option fst (last_success es) \<and>
    (\<forall>p t. last_success es = Some (p, t) \<longrightarrow> lkg_time (run_events es (mk_degraded th st fid)) = t)"
proof (induction es rule: rev_induct)
  case Nil
  then show ?case using assms by (simp add: run_events_def dg_defs failure_streak_def)
next
  case (snoc e es)
  have "0 \<le> failure_streak es" by (simp add: failure_streak_def)
  with snoc assms show ?case
    by (cases e) (auto simp: run_snoc streak_snoc last_success_snoc dg_defs Let_def)
qed

text \<open>C20: with a threshold of at least one, the machine implements its history: it is degraded exactly
  when the events since the last success or manual exit are at least that many failures, and the
  price it would serve at a time is that of the last success, if its age is not beyond the window.\<close>

theorem degraded_refines_history:
  assumes "1 \<le> th"
  shows "degraded (run_events es (mk_degraded th st fid)) = (th \<le> failure_streak es) \<and>
    consecutive_failures (run_events es (mk_degraded th st fid)) = failure_streak es \<and>
    last_known_good now (run_events es (mk_degraded th st fid)) =
      (case last_success es of None \<Rightarrow> None
       | Some (p, t) \<Rightarrow> if st < f_sub now t then None else Some p)"
  using run_facts[OF assms, of es st fid]
  by (auto simp: last_known_good_def split: option.splits)

lemma degraded_refines_history_witness:
  "degraded (run_events [Succeeded 5 (Fin 10), Failed, Failed] (mk_degraded 2 (Fin 300) []))"
  using degraded_refines_history[of 2 "[Succeeded 5 (Fin 10), Failed, Failed]" "Fin 300" "[]"]
  by (simp add: failure_streak_def)

text \<open>In every reachable state of the machine the failure count is not negative, degraded mode
  means that the threshold was reached, and a state at or above it is degraded unless the threshold
  is zero or less.\<close>

theorem degraded_invariant:
  assumes "dg_reachable s"
  shows "0 \<le> consecutive_failures s \<and> (degraded s \<longrightarrow> threshold s \<le> consecutive_failures s) \<and>
    (1 \<le> threshold s \<and> threshold s \<le> consecutive_failures s \<longrightarrow> degraded s)"
  using assms
proof (induction rule: dg_reachable.induct)
  case (start th st fid)
  then show ?case by (simp add: mk_degraded_def)
next
  case (step s s')
  from step.hyps(2) show ?case
    by (rule dg_stepE) (use step.IH in \<open>auto simp: dg_defs Let_def\<close>)
qed

lemma degraded_invariant_witness:
  "0 \<le> consecutive_failures (dg_failure (mk_degraded 1 (Fin 0) [])) \<and> degraded (dg_failure (mk_degraded 1 (Fin 0) []))"
proof -
  have "dg_reachable (dg_failure (mk_degraded 1 (Fin 0) []))"
    by (rule dg_reachable.step[OF dg_reachable.start dg_step.failure])
  from degraded_invariant[OF this] show ?thesis by (simp add: dg_defs)
qed

section \<open>The dead-letter queue\<close>

text \<open>C19: over any sequence of enqueues and replays on a fresh queue, the entries get distinct ids, an
  entry stays listed as unreplayed until its own id is marked, and the list is in order of
  creation and agrees with the count.\<close>

theorem dlq_keeps_entries:
  "distinct (fst (dlq_run now ops dlq_empty)) \<and>
   (\<forall>i \<in> set (fst (dlq_run now ops dlq_empty)). Inr i \<notin> set ops \<longrightarrow>
      i \<in> set (map e_id (list_unreplayed (snd (dlq_run now ops dlq_empty))))) \<and>
   sorted (map e_created (list_unreplayed q)) \<and> count_unreplayed q = int (length (list_unreplayed q)) \<and>
   (\<forall>e \<in> set (list_unreplayed (mark_replayed i now q)). e_id e \<noteq> i)"
proof -
  have ok: "dlq_ok dlq_empty" by (simp add: dlq_ok_def dlq_empty_def)
  have "\<forall>e \<in> set (list_unreplayed (mark_replayed i now q)). e_id e \<noteq> i"
    by (simp add: list_unreplayed_def unreplayed_mark)
  then show ?thesis
    using dlq.history_fresh[OF ok, of now ops] dlq.history_keeps[OF ok, of _ now ops]
    by (auto simp: list_unreplayed_def count_unreplayed_def dlq_run_history)
qed

lemma dlq_keeps_entries_witness:
  "2 \<in> set (map e_id (list_unreplayed (snd (dlq_run [] [Inl ([], [], [], 1, []), Inl ([], [], [], 1, []), Inr 1] dlq_empty))))"
proof -
  let ?ops = "[Inl ([], [], [], 1, []), Inl ([], [], [], 1, []), Inr 1] :: (letter + int) list"
  have "2 \<in> set (fst (dlq_run [] ?ops dlq_empty))" "Inr 2 \<notin> set ?ops"
    by (simp_all add: enqueue_def dlq_empty_def Let_def)
  with dlq_keeps_entries[of "[]" ?ops] show ?thesis by blast
qed

end
