(* ===== verification/Metrics.thy ===== *)
theory Metrics
  imports Py_Num
begin

text \<open>
  \<open>oracle_bridge/metrics.py\<close>: which counter or gauge each recording function touches, and
  with which labels. The Prometheus client is a parameter: its \<open>inc\<close>, \<open>set\<close> and
  server start on the world \<open>'w\<close>. The stub the module defines when the client is missing
  does nothing.
\<close>

type_synonym labels = "pystr dict"

record 'w prom =
  prom_inc :: "pystr \<Rightarrow> labels \<Rightarrow> 'w \<Rightarrow> 'w"
  prom_set :: "pystr \<Rightarrow> labels \<Rightarrow> pyfloat \<Rightarrow> 'w \<Rightarrow> 'w"
  prom_serve :: "(int \<Rightarrow> pystr \<Rightarrow> 'w \<Rightarrow> unit res \<times> 'w) option"

definition fake_prom :: "'w prom" where
  "fake_prom = \<lparr>prom_inc = (\<lambda>n l w. w), prom_set = (\<lambda>n l v w. w), prom_serve = None\<rparr>"

definition feed_labels :: "pystr \<Rightarrow> pystr \<Rightarrow> labels" where
  "feed_labels fid adapter = [(lit ''feed_id'', fid), (lit ''adapter'', adapter)]"

definition record_success :: "'w prom \<Rightarrow> pystr \<Rightarrow> pystr \<Rightarrow> 'w \<Rightarrow> 'w" where
  "record_success P fid adapter = prom_inc P (lit ''oracle_feed_success_total'') (feed_labels fid adapter)"

definition record_failure :: "'w prom \<Rightarrow> pystr \<Rightarrow> pystr \<Rightarrow> pystr \<Rightarrow> 'w \<Rightarrow> 'w" where
  "record_failure P fid adapter reason = prom_inc P (lit ''oracle_feed_failure_total'')
     (feed_labels fid adapter @ [(lit ''failure_reason'', reason)])"

definition set_degraded :: "'w prom \<Rightarrow> pystr \<Rightarrow> pystr \<Rightarrow> bool \<Rightarrow> 'w \<Rightarrow> 'w" where
  "set_degraded P fid adapter deg = prom_set P (lit ''oracle_degraded_mode'') (feed_labels fid adapter)
     (if deg then Fin 1 else Fin 0)"

definition record_retry :: "'w prom \<Rightarrow> pystr \<Rightarrow> pystr \<Rightarrow> 'w \<Rightarrow> 'w" where
  "record_retry P fid adapter = prom_inc P (lit ''oracle_retry_attempts_total'') (feed_labels fid adapter)"

definition record_dlq_entry :: "'w prom \<Rightarrow> pystr \<Rightarrow> pystr \<Rightarrow> 'w \<Rightarrow> 'w" where
  "record_dlq_entry P fid adapter = prom_inc P (lit ''oracle_dlq_entries_total'') (feed_labels fid adapter)"

definition record_fetch_duration :: "'w prom \<Rightarrow> pystr \<Rightarrow> pystr \<Rightarrow> pyfloat \<Rightarrow> 'w \<Rightarrow> 'w" where
  "record_fetch_duration P fid adapter duration =
     prom_set P (lit ''oracle_fetch_duration_seconds'') (feed_labels fid adapter) duration"

definition start_metrics_server :: "'w prom \<Rightarrow> int \<Rightarrow> pystr \<Rightarrow> 'w \<Rightarrow> unit res \<times> 'w" where
  "start_metrics_server P port addr w = (case prom_serve P of
     Some start \<Rightarrow> start port addr w | None \<Rightarrow> (Inr (), w))"

section \<open>The declared metrics\<close>

datatype metric_kind = Counter | Gauge

record metric =
  m_kind :: metric_kind
  m_name :: string
  m_doc :: string
  m_labels :: "string list"

definition oracle_feed_success_total :: metric where
  "oracle_feed_success_total = \<lparr>m_kind = Counter, m_name = ''oracle_feed_success_total'',
     m_doc = ''Total number of successful oracle feed submissions'', m_labels = [''feed_id'', ''adapter'']\<rparr>"

definition oracle_feed_failure_total :: metric where
  "oracle_feed_failure_total = \<lparr>m_kind = Counter, m_name = ''oracle_feed_failure_total'',
     m_doc = ''Total number of failed oracle feed submissions'', m_labels = [''feed_id'', ''adapter'', ''failure_reason'']\<rparr>"

definition oracle_degraded_mode :: metric where
  "oracle_degraded_mode = \<lparr>m_kind = Gauge, m_name = ''oracle_degraded_mode'',
     m_doc = ''Whether a feed adapter is in degraded mode (1 = degraded, 0 = normal)'', m_labels = [''feed_id'', ''adapter'']\<rparr>"

definition oracle_retry_attempts_total :: metric where
  "oracle_retry_attempts_total = \<lparr>m_kind = Counter, m_name = ''oracle_retry_attempts_total'',
     m_doc = ''Total number of retry attempts across all feeds'', m_labels = [''feed_id'', ''adapter'']\<rparr>"

definition oracle_dlq_entries_total :: metric where
  "oracle_dlq_entries_total = \<lparr>m_kind = Counter, m_name = ''oracle_dlq_entries_total'',
     m_doc = ''Total number of dead-letter queue entries created'', m_labels = [''feed_id'', ''adapter'']\<rparr>"

definition oracle_fetch_duration_seconds :: metric where
  "oracle_fetch_duration_seconds = \<lparr>m_kind = Gauge, m_name = ''oracle_fetch_duration_seconds'',
     m_doc = ''Duration of the most recent feed fetch in seconds'', m_labels = [''feed_id'', ''adapter'']\<rparr>"

text \<open>The client raises for labels other than the declared ones, and counters cannot be set. Every
  recording function calls a declared metric as it was declared, whatever its arguments are.\<close>

definition as_declared :: "metric \<Rightarrow> metric_kind \<Rightarrow> pystr \<Rightarrow> labels \<Rightarrow> bool" where
  "as_declared m kind name ls \<longleftrightarrow> m_kind m = kind \<and> lit (m_name m) = name \<and> dict_keys ls = map lit (m_labels m)"

definition against :: "metric \<Rightarrow> bool prom" where
  "against m = \<lparr>prom_inc = (\<lambda>name ls okay. okay \<and> as_declared m Counter name ls),
     prom_set = (\<lambda>name ls x okay. okay \<and> as_declared m Gauge name ls), prom_serve = None\<rparr>"

lemma metrics_as_declared:
  "record_success (against oracle_feed_success_total) fid adapter True"
  "record_failure (against oracle_feed_failure_total) fid adapter reason True"
  "set_degraded (against oracle_degraded_mode) fid adapter deg True"
  "record_retry (against oracle_retry_attempts_total) fid adapter True"
  "record_dlq_entry (against oracle_dlq_entries_total) fid adapter True"
  "record_fetch_duration (against oracle_fetch_duration_seconds) fid adapter duration True"
  by (simp_all add: record_success_def record_failure_def set_degraded_def record_retry_def record_dlq_entry_def
      record_fetch_duration_def against_def as_declared_def feed_labels_def oracle_feed_success_total_def
      oracle_feed_failure_total_def oracle_degraded_mode_def oracle_retry_attempts_total_def oracle_dlq_entries_total_def
      oracle_fetch_duration_seconds_def)

end
