(* ===== verification/Adapters.thy ===== *)
theory Adapters
  imports Resilience Metrics Ipfs
begin

text \<open>
  \<open>oracle_bridge/adapters/\<close>: the abstract feed adapter with its retry, degraded-mode
  fallback and dead-letter queue (\<open>base.py\<close>), and the Toucan and Xpansiv price feeds. An
  adapter is its degraded-mode state, its queue and the world; \<open>_fetch_price\<close> is an
  argument of \<open>fetch\<close>. Network replies, the clock and the local time zone are parameters.
\<close>

section \<open>Data\<close>

record feed_result =
  fr_price :: int
  fr_feed :: pystr
  fr_time :: int
  fr_meta :: "json dict"
  fr_degraded :: bool

record adapter_config =
  ac_feed :: pystr
  ac_retry :: "retry_config option"
  ac_threshold :: int
  ac_staleness :: pyfloat

definition default_config :: "pystr \<Rightarrow> adapter_config" where
  "default_config fid = \<lparr>ac_feed = fid, ac_retry = None, ac_threshold = 3, ac_staleness = Fin 300\<rparr>"

record 'w adapter =
  a_config :: adapter_config
  a_retry :: retry_config
  a_degraded :: degraded_state
  a_dlq :: "dlq option"
  a_world :: 'w

text \<open>\<open>__init__\<close>; the queue is the opened database, when a path is configured.\<close>

definition mk_adapter :: "adapter_config \<Rightarrow> dlq option \<Rightarrow> 'w \<Rightarrow> 'w adapter" where
  "mk_adapter config q w = \<lparr>a_config = config,
     a_retry = (case ac_retry config of Some r \<Rightarrow> r | None \<Rightarrow> default_retry),
     a_degraded = mk_degraded (ac_threshold config) (ac_staleness config) (ac_feed config),
     a_dlq = q, a_world = w\<rparr>"

text \<open>\<open>type(exc).__name__\<close>.\<close>

fun kind_name :: "exn_kind \<Rightarrow> pystr" where
  "kind_name ValueError = lit ''ValueError''"
| "kind_name TypeError = lit ''TypeError''"
| "kind_name KeyError = lit ''KeyError''"
| "kind_name IndexError = lit ''IndexError''"
| "kind_name AttributeError = lit ''AttributeError''"
| "kind_name OverflowError = lit ''OverflowError''"
| "kind_name AssertionError = lit ''AssertionError''"
| "kind_name RuntimeError = lit ''RuntimeError''"
| "kind_name StructError = lit ''error''"
| "kind_name UnicodeEncodeError = lit ''UnicodeEncodeError''"
| "kind_name UnicodeDecodeError = lit ''UnicodeDecodeError''"
| "kind_name JSONDecodeError = lit ''JSONDecodeError''"
| "kind_name ProvenanceValidationError = lit ''ProvenanceValidationError''"
| "kind_name URLError = lit ''URLError''"
| "kind_name KeyboardInterrupt = lit ''KeyboardInterrupt''"
| "kind_name (OtherException n) = n"

section \<open>Fetching with resilience\<close>

text \<open>The f-string of the queue's payload: the two texts between quotes, without escaping.\<close>

definition dlq_payload :: "pystr \<Rightarrow> pystr \<Rightarrow> pystr" where
  "dlq_payload fid err = lit ''{'' @ [34] @ lit ''feed_id'' @ [34] @ lit '': '' @ [34] @ fid @ [34] @ lit '', '' @
     [34] @ lit ''error'' @ [34] @ lit '': '' @ [34] @ err @ [34] @ lit ''}''"

text \<open>The successful branch, after \<open>retry\<close> returned.\<close>

definition fetch_success ::
    "'w sys \<Rightarrow> 'w prom \<Rightarrow> pystr \<Rightarrow> pyfloat \<Rightarrow> feed_result \<Rightarrow> 'w adapter \<Rightarrow> feed_result res \<times> 'w adapter" where
  "fetch_success Y P name start result a =
     (let fid = ac_feed (a_config a);
          (now, w1) = sys_time Y (a_world a);
          w2 = set_degraded P fid name False (record_success P fid name w1);
          (t, w3) = sys_time Y w2;
          w4 = record_fetch_duration P fid name (f_sub t start) w3 in
      (Inr result, a\<lparr>a_degraded := dg_success (fr_price result) now (a_degraded a), a_world := w4\<rparr>))"

text \<open>\<open>last_known_good_price\<close> reads the clock only when there is a price.\<close>

definition read_fallback :: "'w sys \<Rightarrow> degraded_state \<Rightarrow> 'w \<Rightarrow> int option \<times> 'w" where
  "read_fallback Y s w = (if lkg_price s = None then (None, w)
     else case sys_time Y w of (now, w') \<Rightarrow> (last_known_good now s, w'))"

definition enqueue_failure ::
    "'w sys \<Rightarrow> 'w prom \<Rightarrow> pystr \<Rightarrow> pystr \<Rightarrow> 'w adapter \<Rightarrow> 'w adapter" where
  "enqueue_failure Y P name err a = (case a_dlq a of
     None \<Rightarrow> a
   | Some q \<Rightarrow>
       (let fid = ac_feed (a_config a);
            (now, w1) = sys_iso_now Y (a_world a);
            (i, q') = enqueue fid (dlq_payload fid err) err (max_retries (a_retry a) + 1) now q in
        a\<lparr>a_dlq := Some q', a_world := record_dlq_entry P fid name w1\<rparr>))"

text \<open>The handler of \<open>except Exception\<close>.\<close>

definition fetch_failure ::
    "'w sys \<Rightarrow> 'w prom \<Rightarrow> (pystr list \<Rightarrow> pystr) \<Rightarrow> pystr \<Rightarrow> pyfloat \<Rightarrow> exn \<Rightarrow> 'w adapter \<Rightarrow>
     feed_result res \<times> 'w adapter" where
  "fetch_failure Y P rep name start exc a =
     (let fid = ac_feed (a_config a);
          dg = dg_failure (a_degraded a);
          w1 = set_degraded P fid name (degraded dg) (record_failure P fid name (kind_name (ekind exc)) (a_world a));
          (t, w2) = sys_time Y w1;
          w3 = record_fetch_duration P fid name (f_sub t start) w2;
          (fallback, w4) = (if degraded dg then read_fallback Y dg w3 else (None, w3));
          a' = a\<lparr>a_degraded := dg, a_world := w4\<rparr> in
      case fallback of
        Some price \<Rightarrow>
          (let (now, w5) = sys_time Y w4 in
           (bindE (int_of_float now) (\<lambda>ts. Inr \<lparr>fr_price = price, fr_feed = fid, fr_time = ts,
              fr_meta = [(lit ''degraded_fallback'', JBool True), (lit ''original_error'', JStr (exn_str rep exc))],
              fr_degraded = True\<rparr>), a'\<lparr>a_world := w5\<rparr>))
      | None \<Rightarrow> (Inl exc, enqueue_failure Y P name (exn_str rep exc) a'))"

definition fetch ::
    "'w sys \<Rightarrow> 'w prom \<Rightarrow> (pystr list \<Rightarrow> pystr) \<Rightarrow> pystr \<Rightarrow> ('w \<Rightarrow> feed_result res \<times> 'w) \<Rightarrow> 'w adapter \<Rightarrow>
     feed_result res \<times> 'w adapter" where
  "fetch Y P rep name fetch_price a =
     (let (start, w1) = sys_time Y (a_world a);
          (r, w2) = retry Y fetch_price (a_retry a) is_Exception w1;
          a' = a\<lparr>a_world := w2\<rparr> in
      case r of
        Inr result \<Rightarrow> fetch_success Y P name start result a'
      | Inl exc \<Rightarrow> if is_Exception exc then fetch_failure Y P rep name start exc a' else (Inl exc, a'))"

text \<open>\<open>replay_dlq_entry\<close>: true exactly when the fetch returned and the entry was marked.\<close>

definition replay_dlq_entry ::
    "'w sys \<Rightarrow> 'w prom \<Rightarrow> (pystr list \<Rightarrow> pystr) \<Rightarrow> pystr \<Rightarrow> ('w \<Rightarrow> feed_result res \<times> 'w) \<Rightarrow> int \<Rightarrow> 'w adapter \<Rightarrow>
     bool res \<times> 'w adapter" where
  "replay_dlq_entry Y P rep name fetch_price entry_id a = (case a_dlq a of
     None \<Rightarrow> (Inr False, a)
   | Some q \<Rightarrow>
       if filter (\<lambda>e. e_id e = entry_id) (list_unreplayed q) = [] then (Inr False, a)
       else (case fetch Y P rep name fetch_price a of
         (Inr _, a1) \<Rightarrow>
           (let (now, w) = sys_iso_now Y (a_world a1) in
            (Inr True, a1\<lparr>a_dlq := map_option (mark_replayed entry_id now) (a_dlq a1), a_world := w\<rparr>))
       | (Inl exc, a1) \<Rightarrow> if is_Exception exc then (Inr False, a1) else (Inl exc, a1)))"

section \<open>The market feeds\<close>

text \<open>What \<open>urlopen\<close> and \<open>read\<close> give: a body, an HTTP error with its code and reason, a
  connection failure, or another exception.\<close>

datatype http_reply = Reply bytes | HttpFailed int pystr | ConnFailed pystr | Raised exn

type_synonym 'w api = "http_request \<Rightarrow> 'w \<Rightarrow> http_reply \<times> 'w"

definition json_body :: "string \<Rightarrow> pystr \<Rightarrow> http_reply \<Rightarrow> json res" where
  "json_body api url reply = (case reply of
     HttpFailed code reason \<Rightarrow> raise RuntimeError
       [T api, T '' API HTTP '', I code, T '' for '', S url, T '': '', S reason]
   | ConnFailed reason \<Rightarrow> raise RuntimeError
       [T api, T '' API connection failed for '', S url, T '': '', S reason]
   | Raised e \<Rightarrow> Inl e
   | Reply body \<Rightarrow> bindE (utf8_decode body) (\<lambda>text. case loads text of
       Inl e \<Rightarrow> raise RuntimeError ([T api, T '' API returned invalid JSON: ''] @ emsg e)
     | Inr v \<Rightarrow> Inr v))"

definition type_name :: "json \<Rightarrow> string" where
  "type_name v = (case v of JNull \<Rightarrow> ''NoneType'' | JBool b \<Rightarrow> ''bool'' | JInt i \<Rightarrow> ''int'' | JFloat f \<Rightarrow> ''float''
     | JStr s \<Rightarrow> ''str'' | JList xs \<Rightarrow> ''list'' | JDict d \<Rightarrow> ''dict'')"

text \<open>\<open>int(round(price_raw * 1_000_000))\<close>; a bool is a number in Python.\<close>

definition scale_price :: "string \<Rightarrow> json \<Rightarrow> json \<Rightarrow> int res" where
  "scale_price api body price_raw = (case price_raw of
     JNull \<Rightarrow> raise RuntimeError [T api, T '' API response missing 'price' field: '', Q [dumps body]]
   | JInt n \<Rightarrow> Inr (n * 1000000)
   | JBool b \<Rightarrow> Inr (if b then 1000000 else 0)
   | JFloat f \<Rightarrow> round_float (f_mul f (Fin 1000000))
   | v \<Rightarrow> raise RuntimeError [T ''Unexpected price type from '', T api, T '' API: '', T (type_name v)])"

text \<open>The timestamp: \<open>local_epoch\<close> is \<open>int(mktime(strptime(text, format)))\<close> in the
  local zone; a text it refuses, or a value that is not text, is replaced by the present time.\<close>

definition read_timestamp :: "'w sys \<Rightarrow> (pystr \<Rightarrow> int res) \<Rightarrow> json \<Rightarrow> 'w \<Rightarrow> int res \<times> 'w" where
  "read_timestamp Y local_epoch ts_raw w =
     (let parsed = (case ts_raw of JStr s \<Rightarrow> local_epoch (take 19 s) | _ \<Rightarrow> raise TypeError []) in
      if truthy ts_raw \<and> (case parsed of Inl e \<Rightarrow> ekind e \<notin> {ValueError, TypeError} | Inr _ \<Rightarrow> True)
      then (parsed, w)
      else (case sys_time Y w of (now, w') \<Rightarrow> (int_of_float now, w')))"

record feed_api =
  api_key :: pystr
  base_url :: pystr
  product :: pystr

definition api_headers :: "pystr dict \<Rightarrow> pystr dict" where
  "api_headers auth = [(lit ''Accept'', lit ''application/json''),
     (lit ''User-Agent'', lit ''stellar-kraal-oracle-bridge/0.1.0'')] @ auth"

definition get_request :: "pystr \<Rightarrow> pystr dict \<Rightarrow> http_request" where
  "get_request url headers = \<lparr>req_method = lit ''GET'', req_url = url, req_headers = headers, req_body = None\<rparr>"

definition TOUCAN_POOL_MAP :: "pystr dict" where
  "TOUCAN_POOL_MAP = [(lit ''BCT'', lit ''bct''), (lit ''NCT'', lit ''nct'')]"

definition mk_toucan :: "pystr \<Rightarrow> pystr \<Rightarrow> pystr \<Rightarrow> feed_api" where
  "mk_toucan key url pool = \<lparr>api_key = key, base_url = rstrip_slash url, product = pool\<rparr>"

definition default_toucan :: feed_api where
  "default_toucan = mk_toucan [] (lit ''https://api.toucan.earth/carbon/v1'') (lit ''BCT'')"

definition toucan_fetch_price ::
    "'w sys \<Rightarrow> (pystr \<Rightarrow> int res) \<Rightarrow> 'w api \<Rightarrow> feed_api \<Rightarrow> pystr \<Rightarrow> 'w \<Rightarrow> feed_result res \<times> 'w" where
  "toucan_fetch_price Y local_epoch http A fid w =
     (let pool_code = (case map_of TOUCAN_POOL_MAP (product A) of Some c \<Rightarrow> c | None \<Rightarrow> lit ''bct'');
          url = base_url A @ lit ''/pools/'' @ pool_code @ lit ''/price'';
          headers = api_headers (if api_key A \<noteq> []
            then [(lit ''Authorization'', lit ''Bearer '' @ api_key A)] else []);
          (reply, w1) = http (get_request url headers) w in
      case bindE (json_body ''Toucan'' url reply) (\<lambda>body.
             bindE (get_or (lit ''usdPrice'') JNull body) (\<lambda>p3.
             bindE (get_or (lit ''lastPrice'') p3 body) (\<lambda>p2.
             bindE (get_or (lit ''price'') p2 body) (\<lambda>price_raw.
             bindE (scale_price ''Toucan'' body price_raw) (\<lambda>price.
             bindE (get_or (lit ''updatedAt'') JNull body) (\<lambda>t2.
             bindE (get_or (lit ''timestamp'') t2 body) (\<lambda>ts_raw.
             Inr (price_raw, price, ts_raw)))))))) of
        Inl e \<Rightarrow> (Inl e, w1)
      | Inr (price_raw, price, ts_raw) \<Rightarrow>
          (let (ts, w2) = read_timestamp Y local_epoch ts_raw w1 in
           (bindE ts (\<lambda>t. Inr \<lparr>fr_price = price, fr_feed = fid, fr_time = t,
              fr_meta = [(lit ''source'', JStr (lit ''toucan'')), (lit ''pool'', JStr (product A)),
                (lit ''raw_price'', price_raw), (lit ''url'', JStr url)], fr_degraded = False\<rparr>), w2)))"

definition XPANSIV_PRODUCT_MAP :: "pystr dict" where
  "XPANSIV_PRODUCT_MAP = [(lit ''CBL-EUA'', lit ''EUA''), (lit ''CBL-CFD'', lit ''CFD'')]"

definition mk_xpansiv :: "pystr \<Rightarrow> pystr \<Rightarrow> pystr \<Rightarrow> feed_api" where
  "mk_xpansiv key url item = \<lparr>api_key = key, base_url = rstrip_slash url, product = item\<rparr>"

definition default_xpansiv :: feed_api where
  "default_xpansiv = mk_xpansiv [] (lit ''https://api.xpansiv.com/market-data/v1'') (lit ''CBL-EUA'')"

definition xpansiv_fetch_price ::
    "'w sys \<Rightarrow> (pystr \<Rightarrow> int res) \<Rightarrow> 'w api \<Rightarrow> feed_api \<Rightarrow> pystr \<Rightarrow> 'w \<Rightarrow> feed_result res \<times> 'w" where
  "xpansiv_fetch_price Y local_epoch http A fid w =
     (let product_code = (case map_of XPANSIV_PRODUCT_MAP (product A) of Some c \<Rightarrow> c | None \<Rightarrow> lit ''EUA'');
          url = base_url A @ lit ''/prices/'' @ product_code @ lit ''/latest'';
          headers = api_headers (if api_key A \<noteq> []
            then [(lit ''X-API-Key'', api_key A)] else []);
          (reply, w1) = http (get_request url headers) w in
      case bindE (json_body ''Xpansiv'' url reply) (\<lambda>body.
             bindE (get_or (lit ''lastPrice'') JNull body) (\<lambda>p2.
             bindE (get_or (lit ''price'') p2 body) (\<lambda>price_raw.
             bindE (scale_price ''Xpansiv'' body price_raw) (\<lambda>price.
             bindE (get_or (lit ''asOf'') JNull body) (\<lambda>t2.
             bindE (get_or (lit ''timestamp'') t2 body) (\<lambda>ts_raw.
             Inr (price_raw, price, ts_raw))))))) of
        Inl e \<Rightarrow> (Inl e, w1)
      | Inr (price_raw, price, ts_raw) \<Rightarrow>
          (let (ts, w2) = read_timestamp Y local_epoch ts_raw w1 in
           (bindE ts (\<lambda>t. Inr \<lparr>fr_price = price, fr_feed = fid, fr_time = t,
              fr_meta = [(lit ''source'', JStr (lit ''xpansiv'')), (lit ''product'', JStr (product A)),
                (lit ''raw_price'', price_raw), (lit ''url'', JStr url)], fr_degraded = False\<rparr>), w2)))"

end
