(* ===== verification/Adapters_Properties.thy ===== *)
theory Adapters_Properties
  imports Adapters
begin

text \<open>
  What a feed adapter promises: the exact outcome of a fetch in terms of the retried call, the clock and
  the degraded state, that a replay marks the entry it was asked for or keeps it, and that the scaled
  price keeps the order of the quotes.
\<close>

section \<open>Fetching\<close>

lemma read_fallback_price:
  "fst (read_fallback Y s w) = last_known_good (fst (sys_time Y w)) s"
  by (simp add: read_fallback_def last_known_good_def split_beta)

lemma fetch_success_facts:
  "fetch_success Y P name start result a = (r, a') \<Longrightarrow>
     r = Inr result \<and> a_dlq a' = a_dlq a \<and>
     a_degraded a' = dg_success (fr_price result) (fst (sys_time Y (a_world a))) (a_degraded a)"
  by (auto simp: fetch_success_def Let_def split: prod.splits)

lemma enqueue_failure_facts:
  "a_degraded (enqueue_failure Y P name err a) = a_degraded a"
  "a_dlq a = None \<Longrightarrow> a_dlq (enqueue_failure Y P name err a) = None"
  "a_dlq a = Some q \<Longrightarrow> \<exists>now. a_dlq (enqueue_failure Y P name err a) =
     Some (snd (enqueue (ac_feed (a_config a)) (dlq_payload (ac_feed (a_config a)) err) err
       (max_retries (a_retry a) + 1) now q))"
  by (auto simp: enqueue_failure_def Let_def split_beta intro!: exI split: option.split)

text \<open>A degraded-mode answer, and a failure with its queue entry.\<close>

definition served_fallback ::
    "(pystr list \<Rightarrow> pystr) \<Rightarrow> exn \<Rightarrow> 'w adapter \<Rightarrow> feed_result res \<Rightarrow> 'w adapter \<Rightarrow> bool" where
  "served_fallback rep e a r a' \<longleftrightarrow> (\<exists>fr. r = Inr fr \<and> fr_degraded fr \<and> fr_feed fr = ac_feed (a_config a) \<and>
     lkg_price (a_degraded a) = Some (fr_price fr) \<and> a_dlq a' = a_dlq a \<and>
     fr_meta fr = [(lit ''degraded_fallback'', JBool True), (lit ''original_error'', JStr (exn_str rep e))])"

definition gave_up :: "(pystr list \<Rightarrow> pystr) \<Rightarrow> exn \<Rightarrow> 'w adapter \<Rightarrow> feed_result res \<Rightarrow> 'w adapter \<Rightarrow> bool" where
  "gave_up rep e a r a' \<longleftrightarrow> r = Inl e \<and> (case a_dlq a of
     None \<Rightarrow> a_dlq a' = None
   | Some q \<Rightarrow> \<exists>now. a_dlq a' = Some (snd (enqueue (ac_feed (a_config a))
       (dlq_payload (ac_feed (a_config a)) (exn_str rep e)) (exn_str rep e) (max_retries (a_retry a) + 1) now q)))"

text \<open>What the clock reads when the handler of a failure asks for the last good price: after the metrics
  of the failure, in a world \<open>w\<close> that the retried call left.\<close>

definition handler_clock ::
    "'w sys \<Rightarrow> 'w prom \<Rightarrow> pystr \<Rightarrow> exn \<Rightarrow> pyfloat \<Rightarrow> 'w adapter \<Rightarrow> 'w \<Rightarrow> pyfloat" where
  "handler_clock Y P name e start a w =
     (let fid = ac_feed (a_config a);
          (t, w') = sys_time Y (set_degraded P fid name (degraded (dg_failure (a_degraded a)))
            (record_failure P fid name (kind_name (ekind e)) w)) in
      fst (sys_time Y (record_fetch_duration P fid name (f_sub t start) w')))"

lemma fetch_failure_facts:
  assumes "fetch_failure Y P rep name start e a = (r, a')" "\<forall>w. \<exists>q. fst (sys_time Y w) = Fin q"
  shows "a_degraded a' = dg_failure (a_degraded a) \<and>
    (if degraded (dg_failure (a_degraded a)) \<and>
       last_known_good (handler_clock Y P name e start a (a_world a)) (dg_failure (a_degraded a)) \<noteq> None
     then served_fallback rep e a r a' else gave_up rep e a r a')"
proof -
  let ?fid = "ac_feed (a_config a)" and ?dg = "dg_failure (a_degraded a)"
  let ?w1 = "set_degraded P ?fid name (degraded ?dg) (record_failure P ?fid name (kind_name (ekind e)) (a_world a))"
  obtain t w2 where t: "sys_time Y ?w1 = (t, w2)" by fastforce
  let ?w3 = "record_fetch_duration P ?fid name (f_sub t start) w2"
  have c: "handler_clock Y P name e start a (a_world a) = fst (sys_time Y ?w3)"
    using t by (simp add: handler_clock_def)
  obtain fb w4 where fb: "(if degraded ?dg then read_fallback Y ?dg ?w3 else (None, ?w3)) = (fb, w4)" by fastforce
  let ?a = "a\<lparr>a_degraded := ?dg, a_world := w4\<rparr>"
  have lkg: "lkg_price ?dg = lkg_price (a_degraded a)" by (simp add: dg_failure_def Let_def)
  have f: "fb = (if degraded ?dg then last_known_good (fst (sys_time Y ?w3)) ?dg else None)"
    using fb read_fallback_price[of Y ?dg ?w3] by (auto split: if_splits)
  show ?thesis
  proof (cases fb)
    case None
    then have ra: "r = Inl e" "a' = enqueue_failure Y P name (exn_str rep e) ?a"
      using assms(1) t fb by (auto simp: fetch_failure_def Let_def)
    have "gave_up rep e a r a'"
    proof (cases "a_dlq a")
      case n: None
      then show ?thesis using enqueue_failure_facts(2)[of ?a] ra by (simp add: gave_up_def)
    next
      case (Some q)
      then show ?thesis using enqueue_failure_facts(3)[of ?a q Y P name "exn_str rep e"] ra by (simp add: gave_up_def)
    qed
    then show ?thesis using enqueue_failure_facts(1)[of Y P name "exn_str rep e" ?a] ra f None c by (simp split: if_splits)
  next
    case (Some price)
    obtain now w5 where now: "sys_time Y w4 = (now, w5)" by fastforce
    then obtain x where "now = Fin x" using assms(2) by (metis fst_conv)
    with Some have ra: "r = Inr \<lparr>fr_price = price, fr_feed = ?fid, fr_time = rat_trunc x,
        fr_meta = [(lit ''degraded_fallback'', JBool True), (lit ''original_error'', JStr (exn_str rep e))],
        fr_degraded = True\<rparr>" "a' = ?a\<lparr>a_world := w5\<rparr>"
      using assms(1) t fb now
      by (auto simp: fetch_failure_def Let_def)
    have d: "degraded ?dg" "last_known_good (fst (sys_time Y ?w3)) ?dg = Some price"
      using f Some by (auto split: if_splits)
    then have "lkg_price (a_degraded a) = Some price"
      using lkg by (auto simp: last_known_good_def split: option.splits if_splits)
    then show ?thesis using ra d c by (simp add: served_fallback_def)
  qed
qed

text \<open>C10: with a clock that reads finite times, a fetch returns what the retried call returns and resets
  the degraded state with that price and the clock's reading. If the call fails, the failure is counted,
  and the outcome is decided: when the feed is degraded already or this failure reaches the threshold,
  there is a last good price, and its age at the clock's next reading is not beyond the staleness
  window, that price is served, marked degraded, with the error in its metadata, and nothing is queued;
  in every other case the call's exception is raised after adding one entry to the queue, if there is
  one. What is not an Exception passes through and changes neither.\<close>

theorem fetch_outcome:
  assumes "\<forall>w. \<exists>q. fst (sys_time Y w) = Fin q" "sys_time Y (a_world a) = (start, w1)"
    "retry Y fetch_price (a_retry a) is_Exception w1 = (x, w2)"
    "fetch Y P rep name fetch_price a = (r, a')" "d = a_degraded a"
  shows "case x of
      Inr fr \<Rightarrow> r = Inr fr \<and> a_dlq a' = a_dlq a \<and> \<not> degraded (a_degraded a') \<and>
        consecutive_failures (a_degraded a') = 0 \<and> lkg_price (a_degraded a') = Some (fr_price fr) \<and>
        lkg_time (a_degraded a') = fst (sys_time Y w2)
    | Inl e \<Rightarrow> if is_Exception e
        then a_degraded a' = dg_failure d \<and>
          (if (degraded d \<or> threshold d \<le> consecutive_failures d + 1) \<and> lkg_price d \<noteq> None \<and>
              \<not> staleness d < f_sub (handler_clock Y P name e start a w2) (lkg_time d)
           then served_fallback rep e a r a' else gave_up rep e a r a')
        else r = Inl e \<and> a_degraded a' = d \<and> a_dlq a' = a_dlq a"
proof -
  note s = assms(2) and r = assms(3)
  let ?a = "a\<lparr>a_world := w2\<rparr>"
  have sel: "served_fallback rep e ?a r a' = served_fallback rep e a r a'" "gave_up rep e ?a r a' = gave_up rep e a r a'"
    "handler_clock Y P name e start ?a w2 = handler_clock Y P name e start a w2" for e
    by (simp_all add: served_fallback_def gave_up_def handler_clock_def split: option.split)
  have due: "degraded (dg_failure d) \<and> last_known_good now (dg_failure d) \<noteq> None \<longleftrightarrow>
      (degraded d \<or> threshold d \<le> consecutive_failures d + 1) \<and> lkg_price d \<noteq> None \<and>
      \<not> staleness d < f_sub now (lkg_time d)" for now
    by (auto simp: dg_failure_def Let_def last_known_good_def split: option.splits)
  show ?thesis
  proof (cases x)
    case (Inr fr)
    then have "fetch_success Y P name start fr ?a = (r, a')" using assms(4) s r by (simp add: fetch_def)
    from fetch_success_facts[OF this] Inr show ?thesis by (simp add: dg_success_def)
  next
    case (Inl e)
    show ?thesis
    proof (cases "is_Exception e")
      case True
      then have "fetch_failure Y P rep name start e ?a = (r, a')" using assms(4) s r Inl by (simp add: fetch_def)
      from fetch_failure_facts[OF this assms(1)]
      have "a_degraded a' = dg_failure d \<and> (if degraded (dg_failure d) \<and>
          last_known_good (handler_clock Y P name e start a w2) (dg_failure d) \<noteq> None
        then served_fallback rep e a r a' else gave_up rep e a r a')"
        by (simp add: assms(5) sel cong: if_cong)
      then show ?thesis using Inl True unfolding due by simp
    next
      case False
      then show ?thesis using assms(4,5) s r Inl by (auto simp: fetch_def)
    qed
  qed
qed

text \<open>A stopped clock and a call that always fails.\<close>

definition stopped :: "unit sys" where
  "stopped = \<lparr>sys_time = (\<lambda>w. (Fin 1000, w)), sys_random = (\<lambda>w. (Fin 0, w)),
     sys_sleep = (\<lambda>d w. (Inr (), w)), sys_iso_now = (\<lambda>w. ([], w))\<rparr>"

definition failing :: "unit \<Rightarrow> feed_result res \<times> unit" where
  "failing w = (raise RuntimeError [T ''down''], w)"

definition once :: retry_config where
  "once = \<lparr>max_retries = 0, base_delay = Fin 1, max_delay = Fin 60, jitter_factor = Fin 0\<rparr>"

definition lonely :: "unit adapter" where
  "lonely = mk_adapter \<lparr>ac_feed = lit ''BCT'', ac_retry = Some once, ac_threshold = 3, ac_staleness = Fin 300\<rparr>
     (Some dlq_empty) ()"

lemma failing_retry: "retry stopped failing once is_Exception w = (raise RuntimeError [T ''down''], w)"
  by (simp add: retry_def once_def failing_def raise_def is_Exception_def)

text \<open>Two failures in a row and a price of 15 seconds ago, or of 301 seconds ago, at the third one.\<close>

definition shaken :: "rat \<Rightarrow> unit adapter" where
  "shaken t = lonely\<lparr>a_degraded := (a_degraded lonely)\<lparr>consecutive_failures := 2,
     lkg_price := Some 1550000, lkg_time := Fin t\<rparr>\<rparr>"

lemma fetch_outcome_witness:
  "\<exists>fr a' e b'. fetch stopped fake_prom (\<lambda>_. []) (lit ''ToucanProtocolAdapter'') failing (shaken 985) = (Inr fr, a') \<and>
     fr_price fr = 1550000 \<and> fr_degraded fr \<and>
     fetch stopped fake_prom (\<lambda>_. []) (lit ''ToucanProtocolAdapter'') failing (shaken 699) = (Inl e, b') \<and>
     (\<exists>q. a_dlq b' = Some q \<and> length (rows q) = 1)"
proof -
  have t: "\<forall>w. \<exists>q. fst (sys_time stopped w) = Fin q" by (simp add: stopped_def)
  have s: "sys_time stopped (a_world (shaken t)) = (Fin 1000, ())" for t by (simp add: stopped_def)
  have x: "retry stopped failing (a_retry (shaken t)) is_Exception () = (raise RuntimeError [T ''down''], ())" for t
    by (simp add: shaken_def lonely_def mk_adapter_def failing_retry)
  have c: "handler_clock stopped fake_prom name e start a w = Fin 1000" for name e start a w
    by (simp add: handler_clock_def stopped_def)
  have d: "threshold (a_degraded (shaken t)) = 3" "consecutive_failures (a_degraded (shaken t)) = 2"
    "lkg_price (a_degraded (shaken t)) = Some 1550000" "lkg_time (a_degraded (shaken t)) = Fin t"
    "staleness (a_degraded (shaken t)) = Fin 300" "a_dlq (shaken t) = Some dlq_empty" for t
    by (simp_all add: shaken_def lonely_def mk_adapter_def mk_degraded_def)
  obtain r a' where f: "fetch stopped fake_prom (\<lambda>_. []) (lit ''ToucanProtocolAdapter'') failing (shaken 985) = (r, a')"
    by fastforce
  have near: "\<not> Fin 300 < f_sub (Fin 1000) (Fin 985)"
    using fl_exact_int[of 15] by (simp add: f_sub_def)
  have far: "Fin 300 < f_sub (Fin 1000) (Fin 699)"
    using fl_exact_int[of 301] by (simp add: f_sub_def)
  from fetch_outcome[OF t s x f refl] d near have 1: "served_fallback (\<lambda>_. []) (Exn RuntimeError [T ''down'']) (shaken 985) r a'"
    by (simp add: raise_def is_Exception_def c)
  obtain r' b' where g: "fetch stopped fake_prom (\<lambda>_. []) (lit ''ToucanProtocolAdapter'') failing (shaken 699) = (r', b')"
    by fastforce
  from fetch_outcome[OF t s x g refl] d far have 2: "gave_up (\<lambda>_. []) (Exn RuntimeError [T ''down'']) (shaken 699) r' b'"
    by (simp add: raise_def is_Exception_def c)
  show ?thesis using 1 2 f g d
    by (auto simp: served_fallback_def gave_up_def enqueue_def Let_def dlq_empty_def)
qed

section \<open>Replay\<close>

lemma fetch_facts:
  assumes "\<forall>w. \<exists>q. fst (sys_time Y w) = Fin q" "fetch Y P rep name fetch_price a = (r, a')" "a_dlq a = Some q"
  shows "(\<exists>fr. r = Inr fr \<and> a_dlq a' = Some q) \<or>
    (\<exists>e. r = Inl e \<and> (a_dlq a' = Some q \<or> (\<exists>fid p err n now. a_dlq a' = Some (snd (enqueue fid p err n now q)))))"
proof -
  obtain start w1 where s: "sys_time Y (a_world a) = (start, w1)" by fastforce
  obtain x w2 where r: "retry Y fetch_price (a_retry a) is_Exception w1 = (x, w2)" by fastforce
  let ?a = "a\<lparr>a_world := w2\<rparr>"
  show ?thesis
  proof (cases x)
    case (Inr fr)
    then have "fetch_success Y P name start fr ?a = (r, a')" using assms(2) s r by (simp add: fetch_def)
    from fetch_success_facts[OF this] assms(3) show ?thesis by simp
  next
    case (Inl e)
    show ?thesis
    proof (cases "is_Exception e")
      case True
      then have "fetch_failure Y P rep name start e ?a = (r, a')" using assms(2) s r Inl by (simp add: fetch_def)
      from fetch_failure_facts[OF this assms(1)]
      have "served_fallback rep e ?a r a' \<or> gave_up rep e ?a r a'" by (auto split: if_splits)
      then show ?thesis using assms(3) by (fastforce simp: served_fallback_def gave_up_def)
    next
      case False
      then show ?thesis using assms(2,3) s r Inl by (auto simp: fetch_def)
    qed
  qed
qed

lemma unreplayed_enqueue:
  "set (list_unreplayed q) \<subseteq> set (list_unreplayed (snd (enqueue fid p err n now q)))"
  by (auto simp: list_unreplayed_def enqueue_def Let_def)

lemma replay_cases:
  assumes "\<forall>w. \<exists>q. fst (sys_time Y w) = Fin q" "a_dlq a = Some q"
    "replay_dlq_entry Y P rep name fetch_price i a = (r, a')"
  shows "(r = Inr True \<and> (\<exists>now. a_dlq a' = Some (mark_replayed i now q)) \<and>
      i \<in> set (map e_id (list_unreplayed q))) \<or>
    (r \<noteq> Inr True \<and> (\<exists>q'. a_dlq a' = Some q' \<and> set (list_unreplayed q) \<subseteq> set (list_unreplayed q')))"
proof (cases "filter (\<lambda>e. e_id e = i) (list_unreplayed q) = []")
  case True
  then show ?thesis using assms(2,3) by (auto simp: replay_dlq_entry_def)
next
  case False
  then have mem: "i \<in> set (map e_id (list_unreplayed q))" by (auto simp: filter_empty_conv)
  obtain x a1 where f: "fetch Y P rep name fetch_price a = (x, a1)" by fastforce
  from fetch_facts[OF assms(1) f assms(2)] show ?thesis
  proof (elim disjE exE conjE)
    fix fr assume "x = Inr fr" "a_dlq a1 = Some q"
    then show ?thesis using assms(2,3) False f mem
      by (auto simp: replay_dlq_entry_def Let_def split: prod.splits)
  next
    fix e assume "x = Inl e" "a_dlq a1 = Some q"
    then show ?thesis using assms(2,3) False f by (auto simp: replay_dlq_entry_def split: if_splits)
  next
    fix e fid p err n now assume "x = Inl e" "a_dlq a1 = Some (snd (enqueue fid p err n now q))"
    then show ?thesis using assms(2,3) False f unreplayed_enqueue[of q fid p err n now]
      by (auto simp: replay_dlq_entry_def split: if_splits)
  qed
qed

text \<open>C36: a replay that reports success leaves the queue with exactly the named entry marked; one that
  reports failure, or raises, keeps every unreplayed entry, the named one included.\<close>

theorem replay_marks_or_keeps:
  assumes "\<forall>w. \<exists>q. fst (sys_time Y w) = Fin q" "a_dlq a = Some q"
    "replay_dlq_entry Y P rep name fetch_price i a = (r, a')"
  shows "(r = Inr True \<and> (\<exists>now. a_dlq a' = Some (mark_replayed i now q)) \<and>
      i \<in> set (map e_id (list_unreplayed q))) \<or>
    (r \<noteq> Inr True \<and> (\<exists>q'. a_dlq a' = Some q' \<and> set (list_unreplayed q) \<subseteq> set (list_unreplayed q')))"
  using replay_cases[OF assms] .

definition letter_box :: dlq where
  "letter_box = snd (enqueue (lit ''BCT'') [] [] 1 [] dlq_empty)"

definition working :: "unit \<Rightarrow> feed_result res \<times> unit" where
  "working w = (Inr \<lparr>fr_price = 250000, fr_feed = lit ''BCT'', fr_time = 1000, fr_meta = [], fr_degraded = False\<rparr>, w)"

lemma replay_marks_or_keeps_witness:
  "\<exists>a' now. replay_dlq_entry stopped fake_prom (\<lambda>_. []) [] working 1 (lonely\<lparr>a_dlq := Some letter_box\<rparr>) = (Inr True, a') \<and>
     a_dlq a' = Some (mark_replayed 1 now letter_box) \<and> list_unreplayed letter_box \<noteq> []"
proof -
  let ?a = "lonely\<lparr>a_dlq := Some letter_box\<rparr>"
  have "retry stopped working once is_Exception () = (Inr (the (case working () of (Inr x, _) \<Rightarrow> Some x)), ())"
    by (simp add: retry_def once_def working_def)
  then have "\<exists>fr a1. fetch stopped fake_prom (\<lambda>_. []) [] working ?a = (Inr fr, a1)"
    by (simp add: fetch_def lonely_def mk_adapter_def stopped_def fetch_success_def Let_def)
  moreover have n: "map e_id (list_unreplayed letter_box) = [1]"
    by (simp add: letter_box_def list_unreplayed_def enqueue_def dlq_empty_def Let_def)
  then have "filter (\<lambda>e. e_id e = 1) (list_unreplayed letter_box) \<noteq> []" by (auto simp: filter_empty_conv)
  ultimately obtain a' where f: "replay_dlq_entry stopped fake_prom (\<lambda>_. []) [] working 1 ?a = (Inr True, a')"
    by (auto simp: replay_dlq_entry_def stopped_def)
  have "\<forall>w. \<exists>q. fst (sys_time stopped w) = Fin q" "a_dlq ?a = Some letter_box" by (simp_all add: stopped_def)
  from replay_marks_or_keeps[OF this f] f n show ?thesis by auto
qed

section \<open>Prices\<close>

text \<open>The number a JSON value is to Python, for integers that stay exact when scaled.\<close>

definition quote :: "json \<Rightarrow> rat option" where
  "quote v = (case v of
     JInt n \<Rightarrow> if \<bar>n\<bar> \<le> 9000000000 then Some (of_int n) else None
   | JBool b \<Rightarrow> Some (if b then 1 else 0)
   | JFloat (Fin q) \<Rightarrow> Some q
   | _ \<Rightarrow> None)"

lemma scale_price_rhe:
  assumes "quote v = Some q" "scale_price api body v = Inr p"
  shows "p = rhe (rnd (q * 1000000))"
proof (cases v)
  case (JInt n)
  then have n: "\<bar>n * 1000000\<bar> \<le> 2 ^ 53" "q = of_int n" "p = n * 1000000"
    using assms by (auto simp: quote_def scale_price_def abs_mult split: if_splits)
  have "rnd (of_int m) = of_int m" if "m = n * 1000000" for m
    using that n(1) by (intro rnd_exact representable_int) simp
  then have "rhe (rnd (of_int (n * 1000000))) = n * 1000000" using rhe_of_int by metis
  then show ?thesis using n(2,3) by simp
next
  case (JBool b)
  have "rnd (of_int m) = of_int m" if "m = 0 \<or> m = 1000000" for m
    using that by (intro rnd_exact representable_int) auto
  from this[of 0] this[of 1000000] have "rhe (rnd 0) = 0" "rhe (rnd 1000000) = 1000000"
    using rhe_of_int[of 0] rhe_of_int[of 1000000] by simp_all
  then show ?thesis using assms JBool by (auto simp: quote_def scale_price_def)
next
  case (JFloat f)
  then obtain "f = Fin q" using assms(1) by (auto simp: quote_def split: pyfloat.splits)
  then show ?thesis using assms(2) JFloat fl_cases[of "q * 1000000"]
    by (auto simp: scale_price_def raise_def)
qed (use assms in \<open>auto simp: quote_def\<close>)

text \<open>The scaled price keeps the order of the quotes, whether they come as integers or floats, and an
  integer quote is multiplied exactly.\<close>

theorem scale_price_monotone:
  assumes "quote u = Some x" "quote v = Some y" "x \<le> y"
    "scale_price api bu u = Inr p" "scale_price api bv v = Inr q"
  shows "p \<le> q \<and> (\<forall>n. u = JInt n \<longrightarrow> p = n * 1000000)"
proof -
  have "rnd (x * 1000000) \<le> rnd (y * 1000000)" using assms(3) by (intro rnd_mono) simp
  then have "p \<le> q"
    using scale_price_rhe[OF assms(1,4)] scale_price_rhe[OF assms(2,5)] rhe_mono by simp
  moreover have "\<forall>n. u = JInt n \<longrightarrow> p = n * 1000000" using assms(4) by (auto simp: scale_price_def)
  ultimately show ?thesis by simp
qed

lemma scale_price_monotone_witness:
  "\<exists>q. scale_price ''Toucan'' JNull (JFloat (Fin (5/2))) = Inr q \<and> 2000000 \<le> q"
proof -
  have f: "fl (5 / 2 * 1000000) = Fin 2500000" using fl_exact_int[of 2500000] by simp
  then obtain q where q: "scale_price ''Toucan'' JNull (JFloat (Fin (5/2))) = Inr q"
    by (simp add: scale_price_def)
  have "quote (JInt 2) = Some 2" "quote (JFloat (Fin (5/2))) = Some (5/2)" "(2 :: rat) \<le> 5/2"
    "scale_price ''Toucan'' JNull (JInt 2) = Inr 2000000"
    by (simp_all add: quote_def scale_price_def)
  from scale_price_monotone[OF this q] q show ?thesis by blast
qed

end
