(* ===== verification/Py_World.thy ===== *)
theory Py_World
  imports Py_Prelude
begin

text \<open>
  Code that acts on the world and may raise: a function of the world that returns a result and the
  world after it. \<open>bindW\<close> is sequencing, \<open>liftW\<close> a computation that does not
  touch the world, \<open>tryW\<close> an exception handler.
\<close>

type_synonym ('a, 'w) act = "'w \<Rightarrow> 'a res \<times> 'w"

definition liftW :: "'a res \<Rightarrow> ('a, 'w) act" where
  "liftW x w = (x, w)"

definition bindW :: "('a, 'w) act \<Rightarrow> ('a \<Rightarrow> ('b, 'w) act) \<Rightarrow> ('b, 'w) act" where
  "bindW m f w = (case m w of (Inl e, w') \<Rightarrow> (Inl e, w') | (Inr x, w') \<Rightarrow> f x w')"

definition tryW :: "('a, 'w) act \<Rightarrow> (exn \<Rightarrow> ('a, 'w) act) \<Rightarrow> ('a, 'w) act" where
  "tryW m h w = (case m w of (Inl e, w') \<Rightarrow> h e w' | (Inr x, w') \<Rightarrow> (Inr x, w'))"

text \<open>A read that cannot fail, and an update of the world.\<close>

definition readW :: "('w \<Rightarrow> 'a \<times> 'w) \<Rightarrow> ('a, 'w) act" where
  "readW g w = (case g w of (x, w') \<Rightarrow> (Inr x, w'))"

definition updateW :: "('w \<Rightarrow> 'w) \<Rightarrow> (unit, 'w) act" where
  "updateW g w = (Inr (), g w)"

lemma liftW_simps [simp]: "liftW x w = (x, w)"
  by (simp add: liftW_def)

lemma bindW_ok [res_simps]:
  "bindW m f w = (Inr y, w') \<longleftrightarrow> (\<exists>x w1. m w = (Inr x, w1) \<and> f x w1 = (Inr y, w'))"
  by (auto simp: bindW_def split: prod.splits sum.splits)

lemma bindW_err [res_simps]:
  "bindW m f w = (Inl e, w') \<longleftrightarrow> m w = (Inl e, w') \<or> (\<exists>x w1. m w = (Inr x, w1) \<and> f x w1 = (Inl e, w'))"
  by (auto simp: bindW_def split: prod.splits sum.splits)

lemma bindW_lift [simp]:
  "bindW (liftW (Inr x)) f = f x" "bindW (liftW (Inl e)) f = liftW (Inl e)"
  by (simp_all add: bindW_def fun_eq_iff)

lemma bindW_lift_bindE: "bindW (liftW (bindE x g)) f = bindW (liftW x) (\<lambda>a. bindW (liftW (g a)) f)"
  by (cases x) simp_all

lemma bindW_assoc: "bindW (bindW m f) g w = bindW m (\<lambda>x. bindW (f x) g) w"
  by (simp add: bindW_def split: prod.split sum.split)

lemma bindW_step: "m w = (Inr x, w1) \<Longrightarrow> bindW m f w = f x w1"
  by (simp add: bindW_def)

lemma bindW_stop: "m w = (Inl e, w1) \<Longrightarrow> bindW m f w = (Inl e, w1)"
  by (simp add: bindW_def)

lemma readW_ok [res_simps]: "readW g w = (Inr x, w') \<longleftrightarrow> g w = (x, w')"
  by (auto simp: readW_def split: prod.splits)

lemma readW_err [res_simps]: "readW g w = (Inl e, w') \<longleftrightarrow> False"
  by (auto simp: readW_def split: prod.splits)

lemma updateW_simps [simp]: "updateW g w = (Inr (), g w)"
  by (simp add: updateW_def)

text \<open>
  A view of the world that an action leaves as it is. Actions that only read the clock, say, keep
  every view that the clock keeps.
\<close>

definition keeps :: "('w \<Rightarrow> 'v) \<Rightarrow> ('a, 'w) act \<Rightarrow> bool" where
  "keeps view m \<longleftrightarrow> (\<forall>w. view (snd (m w)) = view w)"

lemma keeps_lift [intro]: "keeps view (liftW x)"
  by (simp add: keeps_def)

lemma keeps_bind [intro]: "keeps view m \<Longrightarrow> (\<And>x. keeps view (f x)) \<Longrightarrow> keeps view (bindW m f)"
  by (auto simp: keeps_def bindW_def split: prod.splits sum.splits) (metis snd_conv)+

lemma keeps_try [intro]: "keeps view m \<Longrightarrow> (\<And>e. keeps view (h e)) \<Longrightarrow> keeps view (tryW m h)"
  by (auto simp: keeps_def tryW_def split: prod.splits sum.splits) (metis snd_conv)+

lemma keeps_read: "keeps view (readW g) \<longleftrightarrow> (\<forall>w. view (snd (g w)) = view w)"
  by (simp add: keeps_def readW_def split_beta)

lemma keepsD: "keeps view m \<Longrightarrow> m w = (x, w') \<Longrightarrow> view w' = view w"
  by (metis keeps_def snd_conv)

end
