(* ===== verification/Bridge.thy ===== *)
theory Bridge
  imports Attestation Aggregation Provenance Ipfs Resilience Py_World
begin

text \<open>
  \<open>oracle_bridge/bridge.py\<close>: from a GEE result to a signed attestation, a pinned
  provenance record and an on-chain submission, for one result and for an aggregation; and the
  commit/reveal scheme. The submission client is a record of its four operations on the world; a
  client without one of them raises AttributeError. The locale \<open>bridge_world\<close> separates
  what the bridge submits from everything else it does to the world.
\<close>

section \<open>Data\<close>

record 'w sub_client =
  sc_price :: "attestation \<Rightarrow> (pystr, 'w) act"
  sc_price_cid :: "attestation \<Rightarrow> pystr \<Rightarrow> (pystr, 'w) act"
  sc_commit :: "feed \<Rightarrow> bytes \<Rightarrow> (pystr, 'w) act"
  sc_reveal :: "attestation \<Rightarrow> bytes \<Rightarrow> (pystr, 'w) act"

record gee_result =
  g_source :: pystr
  g_params :: params
  g_output :: int
  g_feed :: feed
  g_time :: int
  g_asset :: pystr
  g_tag :: pystr

definition default_asset :: pystr where
  "default_asset = lit ''users/oracle/scripts/carbon_sequestration''"

text \<open>\<open>__init__\<close>: a missing timestamp is the present time.\<close>

definition mk_gee_result ::
    "'w sys \<Rightarrow> pystr \<Rightarrow> params \<Rightarrow> int \<Rightarrow> feed \<Rightarrow> int option \<Rightarrow> pystr \<Rightarrow> pystr \<Rightarrow> (gee_result, 'w) act" where
  "mk_gee_result Y source ps out fid ts asset tag =
     bindW (case ts of Some t \<Rightarrow> liftW (Inr t)
            | None \<Rightarrow> bindW (readW (sys_time Y)) (\<lambda>now. liftW (int_of_float now))) (\<lambda>t.
     liftW (Inr \<lparr>g_source = source, g_params = ps, g_output = out, g_feed = fid, g_time = t,
       g_asset = asset, g_tag = tag\<rparr>))"

definition script_hash_of :: "gee_result \<Rightarrow> bytes res" where
  "script_hash_of result = bindE (utf8_encode (g_source result)) (\<lambda>b. Inr (sha256 b))"

record aggregated =
  ag_value :: int
  ag_source_values :: "int dict"
  ag_weights :: "pyfloat dict"
  ag_rejected :: "pystr list"
  ag_feed :: feed
  ag_time :: int
  ag_outlier :: pystr
  ag_cid :: "pystr option"

text \<open>What the circuit-breaker alert logs.\<close>

record alert =
  al_feed :: pystr
  al_time :: int
  al_output :: int
  al_reason :: pystr

text \<open>The libraries around the bridge, and the bridge itself.\<close>

record ('k, 'w) deps =
  d_crypto :: "'k ed25519"
  d_sys :: "'w sys"
  d_schema :: schema_validator
  d_rep :: "pystr list \<Rightarrow> pystr"
  d_urandom :: "nat \<Rightarrow> 'w \<Rightarrow> bytes \<times> 'w"
  d_alert :: "alert \<Rightarrow> 'w \<Rightarrow> 'w"

record ('k, 'w) bridge =
  b_signer :: 'k
  b_client :: "'w sub_client"
  b_ipfs :: "'w ipfs_client"
  b_agg :: "agg_config option"

text \<open>\<open>default_ipfs\<close> is what \<open>get_ipfs_client()\<close> returns.\<close>

definition mk_bridge ::
    "'w ipfs_client \<Rightarrow> 'k \<Rightarrow> 'w sub_client \<Rightarrow> 'w ipfs_client option \<Rightarrow> agg_config option \<Rightarrow> ('k, 'w) bridge" where
  "mk_bridge default_ipfs signer client ipfs cfg = \<lparr>b_signer = signer, b_client = client,
     b_ipfs = (case ipfs of Some c \<Rightarrow> c | None \<Rightarrow> default_ipfs), b_agg = cfg\<rparr>"

section \<open>Submission\<close>

definition breaker_message :: "pystr \<Rightarrow> bool" where
  "breaker_message m \<longleftrightarrow> py_in (lit ''CircuitBreaker'') m \<or> py_in (lit ''#13'') m \<or> py_in (lit ''#14'') m \<or>
     py_in (lit ''#15'') m"

definition submit_with_circuit_breaker_alert ::
    "('k, 'w) deps \<Rightarrow> ('k, 'w) bridge \<Rightarrow> attestation \<Rightarrow> (pystr, 'w) act" where
  "submit_with_circuit_breaker_alert D B att = tryW (sc_price (b_client B) att) (\<lambda>exc.
     let message = exn_str (d_rep D) exc in
     if is_Exception exc \<and> breaker_message message
     then bindW (updateW (d_alert D \<lparr>al_feed = hex (feed_id (att_payload att)),
            al_time = timestamp_utc (att_payload att), al_output = output_value (att_payload att),
            al_reason = message\<rparr>)) (\<lambda>_. liftW (Inl exc))
     else liftW (Inl exc))"

definition MAX_CID_LEN :: nat where "MAX_CID_LEN = 64"

text \<open>The identifier is a string here; \<open>len\<close> counts characters.\<close>

definition validate_cid :: "pystr \<Rightarrow> unit res" where
  "validate_cid cid =
     bindE (guardE (cid \<noteq> []) ValueError [T ''ipfs_cid must be a non-empty string, got '', Q [cid]]) (\<lambda>_.
     guardE (length cid \<le> MAX_CID_LEN) ValueError [T ''ipfs_cid length '', I (int (length cid)),
       T '' exceeds MAX_CID_LEN ('', I (int MAX_CID_LEN), T ''): '', Q [cid]])"

definition submit_with_cid :: "('k, 'w) deps \<Rightarrow> ('k, 'w) bridge \<Rightarrow> attestation \<Rightarrow> pystr \<Rightarrow> (pystr, 'w) act" where
  "submit_with_cid D B att cid =
     bindW (liftW (validate_cid cid)) (\<lambda>_.
     tryW (sc_price_cid (b_client B) att cid) (\<lambda>exc.
       if ekind exc = AttributeError then submit_with_circuit_breaker_alert D B att
       else liftW (Inl exc)))"

section \<open>One result\<close>

text \<open>\<open>feed_id.decode("utf-8").rstrip("\x00")\<close> for raw bytes.\<close>

definition feed_text :: "feed \<Rightarrow> pystr res" where
  "feed_text f = (case f of FStr s \<Rightarrow> Inr s
     | FBytes b \<Rightarrow> bindE (utf8_decode b) (\<lambda>s. Inr (rev (dropWhile (\<lambda>c. c = 0) (rev s)))))"

definition int_now :: "'w sys \<Rightarrow> (int, 'w) act" where
  "int_now Y = bindW (readW (sys_time Y)) (\<lambda>now. liftW (int_of_float now))"

text \<open>The record of a signed result, before it is pinned.\<close>

definition single_record :: "gee_result \<Rightarrow> bytes \<Rightarrow> attestation \<Rightarrow> int \<Rightarrow> prov res" where
  "single_record result sh att submitted =
     bindE (feed_text (g_feed result)) (\<lambda>ft.
     bindE (to_bytes (att_payload att)) (\<lambda>pb.
     Inr \<lparr>asset_path = JStr (g_asset result), version_hash = JStr (hex sh), version_tag = JStr (g_tag result),
          input_params = JDict (g_params result), out_value = JInt (g_output result), feed = JStr ft,
          ts_utc = JInt (g_time result), att_public_key = JStr (hex (public_key att)),
          att_signature = JStr (hex (signature att)), payload_bytes = pb, record_type = JStr (lit ''single''),
          source_preview = JStr (take 512 (g_source result)), agg_meta = JNull, submitted_at = JInt submitted,
          tx_ref = JNull, ipfs_cid = JNull\<rparr>))"

text \<open>The steps both submissions end with: validate, pin, submit, and note the references.\<close>

definition publish ::
    "('k, 'w) deps \<Rightarrow> ('k, 'w) bridge \<Rightarrow> attestation \<Rightarrow> prov \<Rightarrow> (pystr \<times> pystr \<times> prov, 'w) act" where
  "publish D B att r =
     bindW (liftW (prov_to_dict r)) (\<lambda>d.
     bindW (liftW (validate_provenance_record (d_schema D) d)) (\<lambda>_.
     bindW (pin_provenance_record (b_ipfs B) d) (\<lambda>cid.
     bindW (submit_with_cid D B att cid) (\<lambda>tx.
     liftW (Inr (cid, tx, r\<lparr>ipfs_cid := JStr cid, tx_ref := JStr tx\<rparr>))))))"

definition record_and_publish ::
    "('k, 'w) deps \<Rightarrow> ('k, 'w) bridge \<Rightarrow> attestation \<Rightarrow> (int \<Rightarrow> prov res) \<Rightarrow> (pystr \<times> pystr \<times> prov, 'w) act" where
  "record_and_publish D B att make_record =
     bindW (int_now (d_sys D)) (\<lambda>submitted.
     bindW (liftW (make_record submitted)) (publish D B att))"

definition process ::
    "('k, 'w) deps \<Rightarrow> ('k, 'w) bridge \<Rightarrow> gee_result \<Rightarrow> (attestation \<times> pystr \<times> prov, 'w) act" where
  "process D B result =
     bindW (liftW (script_hash_of result)) (\<lambda>sh.
     bindW (liftW (attest (d_crypto D) (b_signer B) sh (ParamsDict (g_params result)) (g_output result)
       (g_time result) (g_feed result))) (\<lambda>att.
     bindW (record_and_publish D B att (single_record result sh att)) (\<lambda>(cid, tx, r').
     liftW (Inr (att, tx, r')))))"

section \<open>Commit and reveal\<close>

definition commit :: "('k, 'w) deps \<Rightarrow> ('k, 'w) bridge \<Rightarrow> gee_result \<Rightarrow> (bytes \<times> pystr, 'w) act" where
  "commit D B result =
     bindW (readW (d_urandom D 32)) (\<lambda>salt.
     bindW (liftW (pad_feed_id (g_feed result))) (\<lambda>padded.
     bindW (liftW (script_hash_of result)) (\<lambda>sh.
     bindW (liftW (int_to_bytes 8 (g_output result))) (\<lambda>ov.
     bindW (liftW (int_to_bytes 8 (g_time result))) (\<lambda>ts.
     bindW (sc_commit (b_client B) (g_feed result)
       (sha256 (sh @ canonical_params_hash (g_params result) @ ov @ ts @ padded @ salt))) (\<lambda>tx.
     liftW (Inr (salt, tx))))))))"

definition reveal ::
    "('k, 'w) deps \<Rightarrow> ('k, 'w) bridge \<Rightarrow> gee_result \<Rightarrow> bytes \<Rightarrow> (attestation \<times> pystr, 'w) act" where
  "reveal D B result salt =
     bindW (liftW (script_hash_of result)) (\<lambda>sh.
     bindW (liftW (attest (d_crypto D) (b_signer B) sh (ParamsDict (g_params result)) (g_output result)
       (g_time result) (g_feed result))) (\<lambda>att.
     bindW (sc_reveal (b_client B) att salt) (\<lambda>tx.
     liftW (Inr (att, tx)))))"

section \<open>Aggregation\<close>

text \<open>The metadata of a source is read by nothing; raw feed bytes are shown as their integers.\<close>

definition feed_json :: "feed \<Rightarrow> json" where
  "feed_json f = (case f of FStr s \<Rightarrow> JStr s | FBytes b \<Rightarrow> JList (map (\<lambda>x. JInt (uint x)) b))"

definition source_of :: "agg_config \<Rightarrow> pystr \<times> gee_result \<Rightarrow> price_source res" where
  "source_of cfg = (\<lambda>(source_id, result).
     bindE (dict_at source_id (cfg_weights cfg)) (\<lambda>weight.
     bindE (script_hash_of result) (\<lambda>sh.
     mk_price_source source_id (g_output result) weight
       [(lit ''feed_id'', feed_json (g_feed result)), (lit ''script_hash'', JStr (hex sh))])))"

definition int_dict :: "int dict \<Rightarrow> json" where
  "int_dict d = JDict (map (\<lambda>(k, v). (k, JInt v)) d)"

definition float_dict :: "pyfloat dict \<Rightarrow> json" where
  "float_dict d = JDict (map (\<lambda>(k, v). (k, JFloat v)) d)"

text \<open>\<open>synthetic_input_params\<close>, which the signature covers through its hash.\<close>

definition synthetic_params :: "agg_result \<Rightarrow> params" where
  "synthetic_params ar = [
     (lit ''method'', JStr (ar_method ar)),
     (lit ''outlier_method'', JStr (ar_outlier ar)),
     (lit ''sources'', JList (map JStr (sort (dict_keys (ar_source_values ar))))),
     (lit ''weights'', float_dict (ar_weights ar)),
     (lit ''rejected_sources'', JList (map JStr (ar_rejected ar))),
     (lit ''num_sources_accepted'', JInt (int (length (ar_source_values ar)))),
     (lit ''num_sources_rejected'', JInt (int (length (ar_rejected ar)))),
     (lit ''per_source_values'', int_dict (ar_source_values ar))]"

definition aggregation_block :: "agg_result \<Rightarrow> json" where
  "aggregation_block ar = JDict [
     (lit ''method'', JStr (ar_method ar)),
     (lit ''outlier_method'', JStr (ar_outlier ar)),
     (lit ''source_values'', int_dict (ar_source_values ar)),
     (lit ''weights_used'', float_dict (ar_weights ar)),
     (lit ''rejected_sources'', JList (map JStr (ar_rejected ar)))]"

definition AGGREGATED_HASH :: bytes where
  "AGGREGATED_HASH = sha256 (ascii_bytes (lit ''aggregated''))"

definition aggregated_record ::
    "gee_result \<Rightarrow> agg_result \<Rightarrow> int \<Rightarrow> attestation \<Rightarrow> int \<Rightarrow> prov res" where
  "aggregated_record first_result ar ts att submitted =
     bindE (feed_text (g_feed first_result)) (\<lambda>ft.
     bindE (to_bytes (att_payload att)) (\<lambda>pb.
     Inr \<lparr>asset_path = JStr (g_asset first_result), version_hash = JStr (hex AGGREGATED_HASH),
          version_tag = JStr (lit ''aggregated''), input_params = JDict (synthetic_params ar),
          out_value = JInt (ar_value ar), feed = JStr ft, ts_utc = JInt ts,
          att_public_key = JStr (hex (public_key att)), att_signature = JStr (hex (signature att)),
          payload_bytes = pb, record_type = JStr (lit ''aggregated''), source_preview = JNull,
          agg_meta = aggregation_block ar, submitted_at = JInt submitted, tx_ref = JNull, ipfs_cid = JNull\<rparr>))"

definition aggregate_and_submit ::
    "('k, 'w) deps \<Rightarrow> ('k, 'w) bridge \<Rightarrow> (pystr \<times> gee_result) list \<Rightarrow>
     (aggregated \<times> attestation \<times> pystr \<times> prov, 'w) act" where
  "aggregate_and_submit D B results = (case b_agg B of
     None \<Rightarrow> liftW (raise ValueError [T ''aggregation_config not configured; cannot aggregate''])
   | Some cfg \<Rightarrow>
     bindW (liftW (mapE (source_of cfg) results)) (\<lambda>sources.
     bindW (liftW (aggregate cfg sources)) (\<lambda>ar.
     bindW (liftW (case results of [] \<Rightarrow> raise (OtherException (lit ''StopIteration'')) []
                   | p # _ \<Rightarrow> Inr (snd p))) (\<lambda>first_result.
     let ts = Max (set (map (\<lambda>p. g_time (snd p)) results)) in
     bindW (liftW (attest (d_crypto D) (b_signer B) AGGREGATED_HASH (ParamsDict (synthetic_params ar))
       (ar_value ar) ts (g_feed first_result))) (\<lambda>att.
     bindW (record_and_publish D B att (aggregated_record first_result ar ts att)) (\<lambda>(cid, tx, r').
     liftW (Inr (\<lparr>ag_value = ar_value ar, ag_source_values = ar_source_values ar,
        ag_weights = ar_weights ar, ag_rejected = ar_rejected ar, ag_feed = g_feed first_result,
        ag_time = ts, ag_outlier = ar_outlier ar, ag_cid = Some cid\<rparr>, att, tx, r'))))))))"

section \<open>What the bridge does to the world\<close>

text \<open>
  A view of the world (the chain, say) that neither the clock nor pinning changes. Then whatever the
  bridge does to it happens in the submission of a validated and pinned record.
\<close>

lemma lift_changes:
  "view (snd (bindW (liftW x) f w)) \<noteq> view w \<Longrightarrow> \<exists>a. x = Inr a \<and> bindW (liftW x) f w = f a w"
  by (cases x) auto

locale bridge_world =
  fixes D :: "('k, 'w) deps" and B :: "('k, 'w) bridge" and view :: "'w \<Rightarrow> 'v"
  assumes clock_keeps: "view (snd (sys_time (d_sys D) w)) = view w"
    and pin_keeps: "view (snd (ic_pin (b_ipfs B) b w)) = view w"
begin

lemma now_keeps: "keeps view (int_now (d_sys D))"
  unfolding int_now_def by (intro keeps_bind keeps_lift) (simp add: keeps_read clock_keeps)

lemma publish_submits:
  assumes "view (snd (publish D B att r w)) \<noteq> view w"
  shows "\<exists>d cid w2. prov_to_dict r = Inr d \<and> validate_provenance_record (d_schema D) d = Inr () \<and>
    pin_provenance_record (b_ipfs B) d w = (Inr cid, w2) \<and> validate_cid cid = Inr () \<and> view w2 = view w \<and>
    snd (publish D B att r w) = snd (submit_with_cid D B att cid w2)"
proof (cases "prov_to_dict r")
  case (Inl e)
  then show ?thesis using assms by (simp add: publish_def)
next
  case d: (Inr d)
  show ?thesis
  proof (cases "validate_provenance_record (d_schema D) d")
    case (Inl e)
    then show ?thesis using assms d by (simp add: publish_def)
  next
    case (Inr u)
    then have v: "validate_provenance_record (d_schema D) d = Inr ()" by simp
    obtain x w2 where p: "pin_provenance_record (b_ipfs B) d w = (x, w2)" by fastforce
    have k: "view w2 = view w" using p pin_keeps[of "dumps_bytes d" w] by (simp add: pin_provenance_record_def)
    show ?thesis
    proof (cases x)
      case (Inl e)
      then show ?thesis using assms d v p k by (simp add: publish_def bindW_stop)
    next
      case (Inr cid)
      then have e: "snd (publish D B att r w) = snd (submit_with_cid D B att cid w2)"
        using d v p by (simp add: publish_def bindW_step) (simp add: bindW_def split: prod.splits sum.splits)
      have "validate_cid cid = Inr ()"
      proof (rule ccontr)
        assume "validate_cid cid \<noteq> Inr ()"
        then obtain e' where "validate_cid cid = Inl e'" by (cases "validate_cid cid") auto
        then show False using assms e k by (simp add: submit_with_cid_def)
      qed
      with d v p k e Inr show ?thesis by blast
    qed
  qed
qed

text \<open>One submission, up to its publication.\<close>

definition submitted_record :: "attestation \<Rightarrow> 'w \<Rightarrow> 'w \<Rightarrow> bool" where
  "submitted_record att w w' \<longleftrightarrow> (\<exists>r d cid w1 w2. prov_to_dict r = Inr d \<and> to_bytes (att_payload att) = Inr (payload_bytes r) \<and>
     validate_provenance_record (d_schema D) d = Inr () \<and> pin_provenance_record (b_ipfs B) d w1 = (Inr cid, w2) \<and>
     validate_cid cid = Inr () \<and> view w2 = view w \<and> w' = snd (submit_with_cid D B att cid w2))"

lemma record_submits:
  assumes "view (snd (record_and_publish D B att mk w)) \<noteq> view w"
    "\<And>t r. mk t = Inr r \<Longrightarrow> to_bytes (att_payload att) = Inr (payload_bytes r)"
  shows "submitted_record att w (snd (record_and_publish D B att mk w))"
proof -
  obtain x w1 where n: "int_now (d_sys D) w = (x, w1)" by fastforce
  have k: "view w1 = view w" using keepsD[OF now_keeps n] .
  then obtain t where t: "x = Inr t"
    using assms(1) n by (cases x) (simp_all add: record_and_publish_def bindW_stop)
  then obtain r where r: "mk t = Inr r"
    using assms(1) n k by (cases "mk t") (simp_all add: record_and_publish_def bindW_step)
  have e: "record_and_publish D B att mk w = publish D B att r w1"
    using n t r by (simp add: record_and_publish_def bindW_step)
  then have "view (snd (publish D B att r w1)) \<noteq> view w1" using assms(1) k by simp
  from publish_submits[OF this] e k assms(2)[OF r] show ?thesis unfolding submitted_record_def by metis
qed

lemma process_submits:
  assumes "view (snd (process D B g w)) \<noteq> view w"
  shows "\<exists>sh att. script_hash_of g = Inr sh \<and>
    attest (d_crypto D) (b_signer B) sh (ParamsDict (g_params g)) (g_output g) (g_time g) (g_feed g) = Inr att \<and>
    submitted_record att w (snd (process D B g w))"
proof (cases "script_hash_of g")
  case (Inl e)
  then show ?thesis using assms by (simp add: process_def)
next
  case sh: (Inr sh)
  show ?thesis
  proof (cases "attest (d_crypto D) (b_signer B) sh (ParamsDict (g_params g)) (g_output g) (g_time g) (g_feed g)")
    case (Inl e)
    then show ?thesis using assms sh by (simp add: process_def)
  next
    case (Inr att)
    have e: "snd (process D B g w) = snd (record_and_publish D B att (single_record g sh att) w)"
      using sh Inr by (simp add: process_def) (simp add: bindW_def split: prod.splits sum.splits)
    have "submitted_record att w (snd (record_and_publish D B att (single_record g sh att) w))"
      by (rule record_submits) (use assms e in \<open>auto simp: single_record_def res_simps\<close>)
    then show ?thesis using sh Inr e by simp
  qed
qed

lemma aggregate_submits:
  assumes "view (snd (aggregate_and_submit D B results w)) \<noteq> view w"
  shows "\<exists>cfg sources ar att. b_agg B = Some cfg \<and> mapE (source_of cfg) results = Inr sources \<and>
    aggregate cfg sources = Inr ar \<and> output_value (att_payload att) = ar_value ar \<and>
    submitted_record att w (snd (aggregate_and_submit D B results w))"
proof -
  obtain cfg where c: "b_agg B = Some cfg"
    using assms by (cases "b_agg B") (simp_all add: aggregate_and_submit_def)
  note a = assms[unfolded aggregate_and_submit_def c option.case Let_def]
  from lift_changes[OF a] obtain sources where s: "mapE (source_of cfg) results = Inr sources" by blast
  note a = a[unfolded s bindW_lift]
  from lift_changes[OF a] obtain ar where ar: "aggregate cfg sources = Inr ar" by blast
  note a = a[unfolded ar bindW_lift]
  from lift_changes[OF a] obtain fr where
    fr: "(case results of [] \<Rightarrow> raise (OtherException (lit ''StopIteration'')) [] | p # _ \<Rightarrow> Inr (snd p)) = Inr fr" by blast
  note a = a[unfolded fr bindW_lift]
  let ?ts = "Max (set (map (\<lambda>p. g_time (snd p)) results))"
  from lift_changes[OF a] obtain att where att: "attest (d_crypto D) (b_signer B) AGGREGATED_HASH
      (ParamsDict (synthetic_params ar)) (ar_value ar) ?ts (g_feed fr) = Inr att" by blast
  have e: "snd (aggregate_and_submit D B results w) =
      snd (record_and_publish D B att (aggregated_record fr ar ?ts att) w)"
    unfolding aggregate_and_submit_def c option.case s ar bindW_lift fr Let_def att
    by (simp add: bindW_def split: prod.splits sum.splits)
  have "submitted_record att w (snd (record_and_publish D B att (aggregated_record fr ar ?ts att) w))"
    by (rule record_submits) (use assms e in \<open>auto simp: aggregated_record_def res_simps\<close>)
  moreover have "output_value (att_payload att) = ar_value ar" using attest_ok[OF att] by auto
  ultimately show ?thesis using c s ar e by auto
qed

end

end
