(* ===== verification/Bridge_Properties.thy ===== *)
theory Bridge_Properties
  imports Bridge Ipfs_Properties Attestation_Properties Aggregation_Properties
begin

text \<open>
  What the bridge promises: what a successful submission signed, recorded and pinned; that nothing
  reaches the chain unless its record was validated and pinned; how often the client is called; that
  a reveal opens its commitment; and what an aggregate submission attests.
\<close>

section \<open>Signing\<close>

lemma attested:
  assumes "ed25519_laws C" "attest C k sh ip ov ts fid = Inr a"
  shows "mk_verifier C (public_key a) = Inr (public_key a)" "verify C (public_key a) a"
    "\<exists>padded. pad_feed_id fid = Inr padded \<and> att_payload a = \<lparr>script_hash = sh,
      input_params_hash = params_hash_of ip, output_value = ov, timestamp_utc = ts, feed_id = padded,
      schema_version = 1\<rparr>"
    "to_bytes (att_payload a) = Inr (layout (att_payload a))" "length (layout (att_payload a)) = 113"
    "from_bytes (layout (att_payload a)) = Inr (att_payload a)"
    "length (public_key a) = 32" "length (signature a) = 64"
  using attest_ok[OF assms(2)] assms(1)
  by (auto simp: verify_def to_bytes_layout ed25519_laws_def mk_verifier_def SCHEMA_VERSION_def
      length_layout from_bytes_layout)

section \<open>The record that is published\<close>

text \<open>The record without its two references, as it was pinned.\<close>

definition unsubmitted :: "prov \<Rightarrow> prov" where
  "unsubmitted r = r\<lparr>ipfs_cid := JNull, tx_ref := JNull\<rparr>"

lemma references_keep_writing:
  "(\<exists>d. prov_to_dict (r\<lparr>ipfs_cid := x, tx_ref := y\<rparr>) = Inr d) \<longleftrightarrow> (\<exists>d. prov_to_dict r = Inr d)"
  by (auto simp: prov_to_dict_total preview_of_def)

lemma publish_ok:
  assumes "publish D B att r w = (Inr (cid, tx, r'), w')"
  shows "\<exists>d w2. prov_to_dict r = Inr d \<and> validate_provenance_record (d_schema D) d = Inr () \<and>
    pin_provenance_record (b_ipfs B) d w = (Inr cid, w2) \<and> validate_cid cid = Inr () \<and>
    submit_with_cid D B att cid w2 = (Inr tx, w') \<and> r' = r\<lparr>ipfs_cid := JStr cid, tx_ref := JStr tx\<rparr>"
  using assms by (auto simp: publish_def submit_with_cid_def res_simps)

lemma validate_cid_ok: "validate_cid cid = Inr () \<longleftrightarrow> cid \<noteq> [] \<and> length cid \<le> 64"
  by (auto simp: validate_cid_def res_simps MAX_CID_LEN_def)

text \<open>What a submission of an attestation with its record means: the record was written, validated and
  pinned, its identifier is one the contract takes, and it agrees with the signed bytes.\<close>

definition published :: "('k, 'w) deps \<Rightarrow> ('k, 'w) bridge \<Rightarrow> attestation \<Rightarrow> pystr \<Rightarrow> prov \<Rightarrow> bool" where
  "published D B att tx r \<longleftrightarrow>
     from_bytes (payload_bytes r) = Inr (att_payload att) \<and> verify_hashes r = Inr [] \<and> tx_ref r = JStr tx \<and>
     (\<exists>d cid w1 w2. prov_to_dict (unsubmitted r) = Inr d \<and> prov_from_dict d = Inr (written (unsubmitted r)) \<and>
        validate_provenance_record (d_schema D) d = Inr () \<and>
        pin_provenance_record (b_ipfs B) d w1 = (Inr cid, w2) \<and> ipfs_cid r = JStr cid \<and>
        0 < length cid \<and> length cid \<le> 64)"

lemma publish_published:
  assumes "publish D B att r w = (Inr (cid, tx, r'), w')"
    "tx_ref r = JNull" "ipfs_cid r = JNull" "payload_bytes r = layout (att_payload att)"
    "from_bytes (layout (att_payload att)) = Inr (att_payload att)"
    "out_value r = JInt (output_value (att_payload att))" "ts_utc r = JInt (timestamp_utc (att_payload att))"
  shows "published D B att tx r'"
proof -
  from publish_ok[OF assms(1)] obtain d w2 where d: "prov_to_dict r = Inr d"
    "validate_provenance_record (d_schema D) d = Inr ()"
    "pin_provenance_record (b_ipfs B) d w = (Inr cid, w2)" "validate_cid cid = Inr ()"
    "r' = r\<lparr>ipfs_cid := JStr cid, tx_ref := JStr tx\<rparr>" by blast
  have u: "unsubmitted r' = r" using assms(2,3) d(5) by (simp add: unsubmitted_def)
  have "\<exists>d'. prov_to_dict r' = Inr d'" using d(1,5) references_keep_writing by metis
  then have "verify_hashes r' = Inr []"
    using assms(4-7) d(5) verify_hashes_none by fastforce
  then show ?thesis
    using d u assms(4,5) written_reads[OF d(1)] by (auto simp: published_def validate_cid_ok)
qed

lemma single_record_ok:
  assumes "single_record g sh att t = Inr r" "to_bytes (att_payload att) = Inr (layout (att_payload att))"
  shows "tx_ref r = JNull \<and> ipfs_cid r = JNull \<and> agg_meta r = JNull \<and> payload_bytes r = layout (att_payload att) \<and>
    out_value r = JInt (g_output g) \<and> ts_utc r = JInt (g_time g) \<and> submitted_at r = JInt t \<and>
    att_public_key r = JStr (hex (public_key att)) \<and> att_signature r = JStr (hex (signature att)) \<and>
    record_type r = JStr (lit ''single'') \<and> source_preview r = JStr (take 512 (g_source g)) \<and>
    version_hash r = JStr (hex sh) \<and> input_params r = JDict (g_params g)"
  using assms by (auto simp: single_record_def res_simps)

lemma record_and_publish_ok:
  assumes "record_and_publish D B att mk w = (Inr (cid, tx, r'), w')"
  shows "\<exists>t w1 r. int_now (d_sys D) w = (Inr t, w1) \<and> mk t = Inr r \<and> publish D B att r w1 = (Inr (cid, tx, r'), w')"
  using assms by (auto simp: record_and_publish_def res_simps)

lemma process_ok:
  assumes "process D B g w = (Inr (att, tx, r'), w')"
  shows "\<exists>sh w1 t r cid. script_hash_of g = Inr sh \<and>
    attest (d_crypto D) (b_signer B) sh (ParamsDict (g_params g)) (g_output g) (g_time g) (g_feed g) = Inr att \<and>
    int_now (d_sys D) w = (Inr t, w1) \<and> single_record g sh att t = Inr r \<and>
    publish D B att r w1 = (Inr (cid, tx, r'), w')"
  using assms by (auto simp: process_def res_simps dest!: record_and_publish_ok)

text \<open>C1: a submission that succeeds returns an attestation that verifies under its key and signs the
  script hash, the parameter hash, the value, the time and the padded feed of the result; its record
  was written, validated and pinned under an identifier of 1 to 64 characters, reads back, agrees
  with the signed bytes, and carries that identifier and the transaction reference.\<close>

theorem process_publishes:
  assumes "ed25519_laws (d_crypto D)" "process D B g w = (Inr (att, tx, r), w')"
  shows "verify (d_crypto D) (public_key att) att \<and> published D B att tx r \<and>
    (\<exists>sh padded. script_hash_of g = Inr sh \<and> pad_feed_id (g_feed g) = Inr padded \<and>
      att_payload att = \<lparr>script_hash = sh, input_params_hash = canonical_params_hash (g_params g),
        output_value = g_output g, timestamp_utc = g_time g, feed_id = padded, schema_version = 1\<rparr> \<and>
      version_hash r = JStr (hex sh) \<and> input_params r = JDict (g_params g))"
proof -
  from process_ok[OF assms(2)] obtain sh w1 t r0 cid where p: "script_hash_of g = Inr sh"
    "attest (d_crypto D) (b_signer B) sh (ParamsDict (g_params g)) (g_output g) (g_time g) (g_feed g) = Inr att"
    "single_record g sh att t = Inr r0" "publish D B att r0 w1 = (Inr (cid, tx, r), w')" by blast
  note a = attested[OF assms(1) p(2)]
  note s = single_record_ok[OF p(3) a(4)]
  from publish_ok[OF p(4)] have r: "version_hash r = version_hash r0" "input_params r = input_params r0" by auto
  have "published D B att tx r"
    by (rule publish_published[OF p(4)]) (use s a(3,6) in auto)
  with a(2,3) p(1) s r show ?thesis by auto
qed

section \<open>What is left to the chain\<close>

lemma hex_lengths: "length (hex b) = 2 * length b"
  by simp

lemma record_reaches:
  assumes "int_now (d_sys D) w = (Inr t, w1)" "mk t = Inr r" "d_schema D = None"
    "\<exists>p. preview_of r = Inr p" "\<exists>x. utc_iso (submitted_at r) = Inr x" "\<exists>x. utc_iso (ts_utc r) = Inr x"
    "att_public_key r = JStr (hex pk)" "length pk = 32" "att_signature r = JStr (hex sg)" "length sg = 64"
    "length (payload_bytes r) = 113"
    "(record_type r = JStr (lit ''single'') \<and> agg_meta r = JNull) \<or>
     (record_type r = JStr (lit ''aggregated'') \<and> agg_meta r = JDict kvs \<and> set (map lit agg_keys) \<subseteq> set (dict_keys kvs))"
  shows "\<exists>d. prov_to_dict r = Inr d \<and> record_and_publish D B att mk w =
    bindW (pin_provenance_record (b_ipfs B) d) (\<lambda>cid. bindW (submit_with_cid D B att cid) (\<lambda>tx.
      liftW (Inr (cid, tx, r\<lparr>ipfs_cid := JStr cid, tx_ref := JStr tx\<rparr>)))) w1"
proof -
  obtain d where d: "prov_to_dict r = Inr d" using assms(4-6) prov_to_dict_total by blast
  have "lightweight_validate d = Inr []"
    by (subst own_record_validates[OF d assms(7,9), of kvs]) (use assms(8,10-12) in auto)
  then have "validate_provenance_record (d_schema D) d = Inr ()"
    using assms(3) by (simp add: validate_provenance_record_def)
  then have "record_and_publish D B att mk w = bindW (pin_provenance_record (b_ipfs B) d) (\<lambda>cid.
      bindW (submit_with_cid D B att cid) (\<lambda>tx. liftW (Inr (cid, tx, r\<lparr>ipfs_cid := JStr cid, tx_ref := JStr tx\<rparr>)))) w1"
    using assms(1,2) d by (simp add: record_and_publish_def publish_def bindW_step)
  with d show ?thesis by blast
qed

text \<open>The inputs a submission takes: texts that encode, a feed of at most 32 bytes, a 64-bit value and a
  time that has a date.\<close>

definition submittable :: "gee_result \<Rightarrow> bool" where
  "submittable g \<longleftrightarrow> valid_text (g_source g) \<and> in_signed 64 (g_output g) \<and> MIN_TS \<le> g_time g \<and> g_time g \<le> MAX_TS \<and>
     (\<exists>raw. feed_raw (g_feed g) = Inr raw \<and> length raw \<le> 32) \<and> (\<exists>s. feed_text (g_feed g) = Inr s)"

lemma dated:
  assumes "MIN_TS \<le> t" "t \<le> MAX_TS"
  shows "in_signed 64 t" "utc_iso (JInt t) = Inr (iso_text (civil_of t))"
  using assms by (simp_all add: in_signed_def MIN_TS_def MAX_TS_def utc_iso_def fromtimestamp_def)

lemma process_chain:
  assumes "ed25519_laws (d_crypto D)" "d_schema D = None" "submittable g"
    "int_now (d_sys D) w = (Inr t, w1)" "MIN_TS \<le> t" "t \<le> MAX_TS"
  shows "\<exists>att r d. length (feed_id (att_payload att)) = 32 \<and> prov_to_dict r = Inr d \<and> process D B g w =
    bindW (pin_provenance_record (b_ipfs B) d) (\<lambda>cid. bindW (submit_with_cid D B att cid) (\<lambda>tx.
      liftW (Inr (att, tx, r\<lparr>ipfs_cid := JStr cid, tx_ref := JStr tx\<rparr>)))) w1"
proof -
  obtain raw ft where f: "feed_raw (g_feed g) = Inr raw" "length raw \<le> 32" "feed_text (g_feed g) = Inr ft"
    using assms(3) by (auto simp: submittable_def)
  obtain src where "utf8_encode (g_source g) = Inr src" using assms(3) utf8_encode_ok by (auto simp: submittable_def)
  then have sh: "script_hash_of g = Inr (sha256 src)" by (simp add: script_hash_of_def)
  have pad: "pad_feed_id (g_feed g) = Inr (raw @ replicate (32 - length raw) 0)" using f by (simp add: pad_feed_id_ok)
  have "\<exists>att. attest (d_crypto D) (b_signer B) (sha256 src) (ParamsDict (g_params g)) (g_output g)
      (g_time g) (g_feed g) = Inr att"
    by (rule attest_total[OF assms(1) _ _ _ _ pad])
      (use assms(3) dated in \<open>simp_all add: submittable_def length_sha256\<close>)
  then obtain att where att: "attest (d_crypto D) (b_signer B) (sha256 src) (ParamsDict (g_params g)) (g_output g)
      (g_time g) (g_feed g) = Inr att" ..
  note a = attested[OF assms(1) att]
  obtain r where r: "single_record g (sha256 src) att t = Inr r" using f a(4) by (simp add: single_record_def)
  note s = single_record_ok[OF r a(4)]
  have "\<exists>p. preview_of r = Inr p" using s by (simp add: preview_of_def preview512_def)
  moreover have "\<exists>x. utc_iso (submitted_at r) = Inr x" "\<exists>x. utc_iso (ts_utc r) = Inr x"
    using s dated assms(3,5,6) by (auto simp: submittable_def)
  ultimately obtain d where d: "prov_to_dict r = Inr d" "record_and_publish D B att (single_record g (sha256 src) att) w =
    bindW (pin_provenance_record (b_ipfs B) d) (\<lambda>cid. bindW (submit_with_cid D B att cid) (\<lambda>tx.
      liftW (Inr (cid, tx, r\<lparr>ipfs_cid := JStr cid, tx_ref := JStr tx\<rparr>)))) w1"
    using record_reaches[where mk = "single_record g (sha256 src) att", OF assms(4) r assms(2),
        of "public_key att" "signature att" undefined B att] s a(5,7,8) by auto
  have "process D B g w = bindW (pin_provenance_record (b_ipfs B) d) (\<lambda>cid. bindW (submit_with_cid D B att cid)
      (\<lambda>tx. liftW (Inr (att, tx, r\<lparr>ipfs_cid := JStr cid, tx_ref := JStr tx\<rparr>)))) w1"
    by (simp add: process_def sh att) (simp add: bindW_def d(2) split: prod.split sum.split)
  moreover have "length (feed_id (att_payload att)) = 32" using a(3) pad f(2) by auto
  ultimately show ?thesis using d(1) by blast
qed

text \<open>C6: without a jsonschema validator, a submission of a valid result at a time that has a date always
  gets as far as the stores: its outcome is that of pinning the record and then submitting it.\<close>

theorem process_reaches_chain:
  assumes "ed25519_laws (d_crypto D)" "d_schema D = None" "submittable g"
    "int_now (d_sys D) w = (Inr t, w1)" "MIN_TS \<le> t" "t \<le> MAX_TS"
  shows "\<exists>att r d. prov_to_dict r = Inr d \<and>
    fst (process D B g w) = (case pin_provenance_record (b_ipfs B) d w1 of
      (Inl e, w2) \<Rightarrow> Inl e
    | (Inr cid, w2) \<Rightarrow> (case submit_with_cid D B att cid w2 of
        (Inl e, w3) \<Rightarrow> Inl e
      | (Inr tx, w3) \<Rightarrow> Inr (att, tx, r\<lparr>ipfs_cid := JStr cid, tx_ref := JStr tx\<rparr>)))"
proof -
  from process_chain[OF assms] obtain att r d where d: "prov_to_dict r = Inr d"
    "process D B g w = bindW (pin_provenance_record (b_ipfs B) d) (\<lambda>cid. bindW (submit_with_cid D B att cid)
      (\<lambda>tx. liftW (Inr (att, tx, r\<lparr>ipfs_cid := JStr cid, tx_ref := JStr tx\<rparr>)))) w1" by blast
  show ?thesis
    by (intro exI[of _ att] exI[of _ r] exI[of _ d] conjI d(1))
      (simp add: d(2) bindW_def split: prod.split sum.split)
qed

text \<open>A bridge over the simulated store and a client that notes the calls it gets; alerts are noted alike.\<close>

datatype call = WithCid attestation pystr | Plain attestation | Alerted alert

definition on_store :: "(store \<times> 'v) ipfs_client" where
  "on_store = \<lparr>ic_pin = (\<lambda>content (st, v). case sim_pin content st of (cid, st') \<Rightarrow> (Inr cid, (st', v))),
     ic_get = (\<lambda>cid (st, v). (sim_get cid st, (st, v)))\<rparr>"

definition noting :: "(store \<times> call list) sub_client" where
  "noting = \<lparr>sc_price = (\<lambda>a (st, cs). (Inr (lit ''tx''), (st, cs @ [Plain a]))),
     sc_price_cid = (\<lambda>a cid (st, cs). (Inr (lit ''tx''), (st, cs @ [WithCid a cid]))),
     sc_commit = (\<lambda>f h w. (Inr (lit ''tx''), w)), sc_reveal = (\<lambda>a salt w. (Inr (lit ''tx''), w))\<rparr>"

definition sample_deps :: "(bytes, 'w) deps" where
  "sample_deps = \<lparr>d_crypto = echo_scheme,
     d_sys = \<lparr>sys_time = (\<lambda>w. (Fin 1720051200, w)), sys_random = (\<lambda>w. (Fin 0, w)),
       sys_sleep = (\<lambda>d w. (Inr (), w)), sys_iso_now = (\<lambda>w. ([], w))\<rparr>,
     d_schema = None, d_rep = (\<lambda>_. []), d_urandom = (\<lambda>n w. (replicate n 9, w)), d_alert = (\<lambda>a w. w)\<rparr>"

definition sample_bridge :: "(bytes, store \<times> call list) bridge" where
  "sample_bridge = \<lparr>b_signer = replicate 32 7, b_client = noting, b_ipfs = on_store,
     b_agg = Some \<lparr>cfg_sources = [lit ''a''], cfg_weights = [(lit ''a'', Fin 1)], cfg_method = NONE,
       cfg_iqr = default_iqr, cfg_mad = default_mad, cfg_min = 1\<rparr>\<rparr>"

definition sample_result :: gee_result where
  "sample_result = \<lparr>g_source = lit ''code'', g_params = [(lit ''aoi'', JInt 4)], g_output = 4815162342,
     g_feed = FStr (lit ''BCT''), g_time = 1720051200, g_asset = default_asset, g_tag = lit ''untagged''\<rparr>"

lemma sample_submittable: "submittable sample_result"
  by (simp add: submittable_def sample_result_def valid_literal in_signed_def MIN_TS_def MAX_TS_def utf8_encode_ascii
      ascii_lit feed_text_def)

lemma sample_now: "int_now (d_sys sample_deps) w = (Inr 1720051200, w)"
proof -
  have "rat_trunc 1720051200 = 1720051200" using rat_trunc_of_int[of 1720051200] by simp
  then show ?thesis by (simp add: int_now_def sample_deps_def bindW_def readW_def)
qed

lemma sample_pin:
  "pin_provenance_record on_store d (st, v) =
     (Inr (simulated_cid (dumps_bytes d)), (snd (sim_pin (dumps_bytes d) st), v))"
  by (simp add: pin_provenance_record_def on_store_def sim_pin_def Let_def)

lemma sample_ipfs: "b_ipfs sample_bridge = on_store"
  by (simp add: sample_bridge_def)

lemma sample_submit:
  "submit_with_cid sample_deps sample_bridge att (simulated_cid b) (st, cs) =
     (Inr (lit ''tx''), (st, cs @ [WithCid att (simulated_cid b)]))"
proof -
  have "validate_cid (simulated_cid b) = Inr ()"
    by (simp add: validate_cid_ok simulated_cid_def)
  then show ?thesis by (simp add: submit_with_cid_def sample_bridge_def noting_def tryW_def)
qed

lemma sample_process:
  "\<exists>att tx r w'. process sample_deps sample_bridge sample_result ([], []) = (Inr (att, tx, r), w') \<and> snd w' \<noteq> []"
proof -
  have "ed25519_laws (d_crypto sample_deps)" "d_schema sample_deps = None"
    by (simp_all add: sample_deps_def echo_laws)
  from process_chain[OF this sample_submittable sample_now, of sample_bridge "([], [])"]
  obtain att r d where "process sample_deps sample_bridge sample_result ([], []) =
    bindW (pin_provenance_record (b_ipfs sample_bridge) d) (\<lambda>cid. bindW (submit_with_cid sample_deps sample_bridge att cid)
      (\<lambda>tx. liftW (Inr (att, tx, r\<lparr>ipfs_cid := JStr cid, tx_ref := JStr tx\<rparr>)))) ([], [])"
    by (auto simp: MIN_TS_def MAX_TS_def)
  then have "process sample_deps sample_bridge sample_result ([], []) =
      (Inr (att, lit ''tx'', r\<lparr>ipfs_cid := JStr (simulated_cid (dumps_bytes d)), tx_ref := JStr (lit ''tx'')\<rparr>),
       (snd (sim_pin (dumps_bytes d) []), [WithCid att (simulated_cid (dumps_bytes d))]))"
    by (simp add: sample_ipfs bindW_def sample_pin sample_submit)
  then show ?thesis by simp
qed

lemma process_publishes_witness:
  "\<exists>att tx r w'. process sample_deps sample_bridge sample_result ([], []) = (Inr (att, tx, r), w') \<and>
     verify echo_scheme (public_key att) att \<and> published sample_deps sample_bridge att tx r"
proof -
  obtain att tx r w' where p: "process sample_deps sample_bridge sample_result ([], []) = (Inr (att, tx, r), w')"
    using sample_process by blast
  have c: "d_crypto sample_deps = echo_scheme" by (simp add: sample_deps_def)
  from process_publishes[OF _ p, unfolded c, OF echo_laws] p show ?thesis by blast
qed

lemma process_reaches_chain_witness:
  "\<exists>att r d. fst (process sample_deps sample_bridge sample_result ([], [])) =
     Inr (att, lit ''tx'', r\<lparr>ipfs_cid := JStr (simulated_cid (dumps_bytes d)), tx_ref := JStr (lit ''tx'')\<rparr>)"
proof -
  have "ed25519_laws (d_crypto sample_deps)" "d_schema sample_deps = None"
    by (simp_all add: sample_deps_def echo_laws)
  from process_reaches_chain[OF this sample_submittable sample_now, of sample_bridge "([], [])"]
  obtain att r d where "fst (process sample_deps sample_bridge sample_result ([], [])) =
     (case pin_provenance_record on_store d ([], []) of (Inl e, w2) \<Rightarrow> Inl e
      | (Inr cid, w2) \<Rightarrow> (case submit_with_cid sample_deps sample_bridge att cid w2 of (Inl e, w3) \<Rightarrow> Inl e
      | (Inr tx, w3) \<Rightarrow> Inr (att, tx, r\<lparr>ipfs_cid := JStr cid, tx_ref := JStr tx\<rparr>)))"
    by (auto simp: MIN_TS_def MAX_TS_def sample_ipfs)
  then show ?thesis by (auto simp: sample_pin sample_submit)
qed

section \<open>What reaches the chain\<close>

text \<open>C2: on a view of the world that the clock and the pinning leave alone, a submission or an
  aggregate submission changes something only by submitting an attestation whose record was
  written, passed validation and was pinned, with an identifier of 1 to 64 characters; up to that
  submission the view is as it was.\<close>

theorem nothing_unpinned:
  fixes view :: "'w \<Rightarrow> 'v"
  assumes "\<forall>w. view (snd (sys_time (d_sys D) w)) = view w" "\<forall>b w. view (snd (ic_pin (b_ipfs B) b w)) = view w"
    "w' = snd (process D B g w) \<or> w' = snd (aggregate_and_submit D B results w)" "view w' \<noteq> view w"
  shows "\<exists>att r d cid w1 w2. to_bytes (att_payload att) = Inr (payload_bytes r) \<and> prov_to_dict r = Inr d \<and>
    validate_provenance_record (d_schema D) d = Inr () \<and> pin_provenance_record (b_ipfs B) d w1 = (Inr cid, w2) \<and>
    cid \<noteq> [] \<and> length cid \<le> 64 \<and> view w2 = view w \<and> w' = snd (submit_with_cid D B att cid w2)"
proof -
  have bw: "bridge_world D B view" using assms(1,2) by (simp add: bridge_world_def)
  from assms(3) obtain att where "bridge_world.submitted_record D B view att w w'"
    using bridge_world.process_submits[OF bw, of g w] bridge_world.aggregate_submits[OF bw, of results w] assms(4) by auto
  then show ?thesis unfolding bridge_world.submitted_record_def[OF bw] validate_cid_ok by blast
qed

lemma nothing_unpinned_witness:
  "\<exists>att cid w2. cid \<noteq> [] \<and> length cid \<le> 64 \<and>
     snd (process sample_deps sample_bridge sample_result ([], [])) = snd (submit_with_cid sample_deps sample_bridge att cid w2)"
proof -
  have "\<forall>w. snd (snd (sys_time (d_sys sample_deps) w)) = snd w" by (simp add: sample_deps_def)
  moreover have "\<forall>b w. snd (snd (ic_pin (b_ipfs sample_bridge) b w)) = snd w"
    by (simp add: sample_ipfs on_store_def split: prod.splits)
  moreover have "snd (snd (process sample_deps sample_bridge sample_result ([], []))) \<noteq> snd ([], [])"
    using sample_process by fastforce
  ultimately show ?thesis using nothing_unpinned[of snd sample_deps sample_bridge _ sample_result "([], [])"] by blast
qed

text \<open>A client whose calls are noted beside its own world; one without \<open>submit_price_with_cid\<close>
  is not called there, the lookup of the method raises AttributeError.\<close>

definition no_such_method :: exn where
  "no_such_method = Exn AttributeError [T ''object has no attribute '', Q [lit ''submit_price_with_cid'']]"

definition logged :: "bool \<Rightarrow> 'w sub_client \<Rightarrow> ('w \<times> call list) sub_client" where
  "logged supports c = \<lparr>sc_price = (\<lambda>a (w, cs). case sc_price c a w of (x, w') \<Rightarrow> (x, (w', cs @ [Plain a]))),
     sc_price_cid = (\<lambda>a cid (w, cs). if supports
       then case sc_price_cid c a cid w of (x, w') \<Rightarrow> (x, (w', cs @ [WithCid a cid]))
       else (Inl no_such_method, (w, cs))),
     sc_commit = (\<lambda>f h (w, cs). case sc_commit c f h w of (x, w') \<Rightarrow> (x, (w', cs))),
     sc_reveal = (\<lambda>a salt (w, cs). case sc_reveal c a salt w of (x, w') \<Rightarrow> (x, (w', cs)))\<rparr>"

text \<open>The alert that an exception of the plain submission gives rise to, if any.\<close>

definition alerts_of :: "(pystr list \<Rightarrow> pystr) \<Rightarrow> attestation \<Rightarrow> exn \<Rightarrow> call list" where
  "alerts_of rep att e = (if is_Exception e \<and>
       (\<exists>n a b. exn_str rep e = a @ n @ b \<and> n \<in> {lit ''CircuitBreaker'', lit ''#13'', lit ''#14'', lit ''#15''})
     then [Alerted \<lparr>al_feed = hex (feed_id (att_payload att)), al_time = timestamp_utc (att_payload att),
            al_output = output_value (att_payload att), al_reason = exn_str rep e\<rparr>] else [])"

lemma alerts_of_breaker:
  "alerts_of rep att e = (if is_Exception e \<and> breaker_message (exn_str rep e)
     then [Alerted \<lparr>al_feed = hex (feed_id (att_payload att)), al_time = timestamp_utc (att_payload att),
            al_output = output_value (att_payload att), al_reason = exn_str rep e\<rparr>] else [])"
proof -
  have "(\<exists>n a b. m = a @ n @ b \<and> n \<in> {lit ''CircuitBreaker'', lit ''#13'', lit ''#14'', lit ''#15''}) \<longleftrightarrow>
      breaker_message m" for m
    unfolding breaker_message_def py_in_iff by blast
  then show ?thesis by (simp add: alerts_of_def)
qed

lemma plain_attempt:
  assumes "\<forall>a w cs. d_alert D a (w, cs) = (f a w, cs @ [Alerted a])" "b_client B = logged supports c"
    "sc_price c att w = (y, w1)" "submit_with_circuit_breaker_alert D B att (w, cs) = (x, (w', cs'))"
  shows "x = y \<and> cs' = cs @ Plain att # (case y of Inr tx \<Rightarrow> [] | Inl e \<Rightarrow> alerts_of (d_rep D) att e)"
proof -
  have l: "sc_price (b_client B) att (w, cs) = (y, (w1, cs @ [Plain att]))"
    using assms(2,3) by (simp add: logged_def)
  show ?thesis
    using assms(1,4)
    by (cases y) (auto simp: submit_with_circuit_breaker_alert_def tryW_def l Let_def bindW_def alerts_of_breaker
        split: if_splits)
qed

text \<open>C14: a submission with an identifier the contract would refuse is a ValueError and makes no call of
  the client. Any other calls the client's method with the identifier, if it has one, and returns its
  outcome; when there is no such method, or when it raises AttributeError for whatever reason, the
  client's plain method is called, whose outcome is returned, and an Exception of that call is alerted,
  with the attestation's feed, time and value, exactly when its message contains CircuitBreaker, #13,
  #14 or #15. A client that submits and then raises AttributeError thus submits twice, and a breaker
  error of the first method is not alerted.\<close>

theorem submission_attempts:
  assumes "\<forall>a w cs. d_alert D a (w, cs) = (f a w, cs @ [Alerted a])" "b_client B = logged supports c"
    "(y, w1) = (if supports then sc_price_cid c att cid w else (Inl no_such_method, w))"
    "submit_with_cid D B att cid (w, cs) = (x, (w', cs'))"
  shows "if cid = [] \<or> 64 < length cid then (\<exists>e. x = Inl e \<and> ekind e = ValueError) \<and> cs' = cs
    else case y of
      Inr tx \<Rightarrow> x = Inr tx \<and> cs' = cs @ [WithCid att cid]
    | Inl e \<Rightarrow> if ekind e = AttributeError
        then x = fst (sc_price c att w1) \<and>
          cs' = cs @ (if supports then [WithCid att cid] else []) @ Plain att #
            (case fst (sc_price c att w1) of Inr tx \<Rightarrow> [] | Inl e2 \<Rightarrow>
               if is_Exception e2 \<and> (\<exists>n a b. exn_str (d_rep D) e2 = a @ n @ b \<and>
                 n \<in> {lit ''CircuitBreaker'', lit ''#13'', lit ''#14'', lit ''#15''})
               then [Alerted \<lparr>al_feed = hex (feed_id (att_payload att)), al_time = timestamp_utc (att_payload att),
                 al_output = output_value (att_payload att), al_reason = exn_str (d_rep D) e2\<rparr>] else [])
        else x = Inl e \<and> cs' = cs @ [WithCid att cid]"
proof (cases "validate_cid cid")
  case (Inl e)
  then have "\<not> (cid \<noteq> [] \<and> length cid \<le> 64)" using validate_cid_ok[of cid] by simp
  moreover have "cs' = cs" "x = Inl e" using assms(4) Inl by (simp_all add: submit_with_cid_def)
  moreover have "ekind e = ValueError" using Inl by (auto simp: validate_cid_def res_simps)
  ultimately show ?thesis by auto
next
  case (Inr u)
  then have v: "validate_cid cid = Inr ()" by simp
  let ?first = "if supports then [WithCid att cid] else []"
  have l: "sc_price_cid (b_client B) att cid (w, cs) = (y, (w1, cs @ ?first))"
    using assms(2,3) by (auto simp: logged_def split: if_splits prod.splits)
  have r: "\<not> (cid = [] \<or> 64 < length cid)" using v validate_cid_ok[of cid] by simp
  note s = assms(4)[unfolded submit_with_cid_def v bindW_lift tryW_def l prod.case]
  show ?thesis
  proof (cases y)
    case (Inr tx)
    then have supports using assms(3) by (auto split: if_splits)
    then have "x = Inr tx" "cs' = cs @ [WithCid att cid]" using s Inr by auto
    then show ?thesis using r Inr by simp
  next
    case (Inl e)
    show ?thesis
    proof (cases "ekind e = AttributeError")
      case True
      obtain y2 w2 where y2: "sc_price c att w1 = (y2, w2)" by fastforce
      have "submit_with_circuit_breaker_alert D B att (w1, cs @ ?first) = (x, (w', cs'))" using s Inl True by simp
      from plain_attempt[OF assms(1,2) y2 this] Inl True r y2 show ?thesis by (simp add: alerts_of_def split: sum.split)
    next
      case False
      then have supports using assms(3) Inl by (auto simp: no_such_method_def split: if_splits)
      then have "x = Inl e" "cs' = cs @ [WithCid att cid]" using s Inl False by auto
      then show ?thesis using r Inl False by simp
    qed
  qed
qed

text \<open>A client that submits, then fails in its own bookkeeping, and whose plain submission trips the
  breaker of the contract.\<close>

definition fumbling :: "unit sub_client" where
  "fumbling = \<lparr>sc_price = (\<lambda>a w. (raise RuntimeError [T ''#14''], w)),
     sc_price_cid = (\<lambda>a cid w. (raise AttributeError [T ''ledger''], w)),
     sc_commit = (\<lambda>f h w. (Inr [], w)), sc_reveal = (\<lambda>a salt w. (Inr [], w))\<rparr>"

definition alarmed_deps :: "(bytes, unit \<times> call list) deps" where
  "alarmed_deps = sample_deps\<lparr>d_alert := (\<lambda>a (w, cs). (w, cs @ [Alerted a]))\<rparr>"

lemma submission_attempts_witness:
  "\<forall>ipfs k att. \<exists>x w' al. submit_with_cid alarmed_deps (mk_bridge ipfs k (logged True fumbling) None None) att (lit ''bafk'') ((), []) =
       (x, (w', [WithCid att (lit ''bafk''), Plain att, Alerted al])) \<and> al_reason al = lit ''#14'' \<and>
     (\<exists>y v'. submit_with_cid alarmed_deps (mk_bridge ipfs k (logged False fumbling) None None) att (lit ''bafk'') ((), []) =
       (y, (v', [Plain att, Alerted al])))"
proof (intro allI)
  fix ipfs and k :: bytes and att :: attestation
  let ?B = "\<lambda>b. mk_bridge ipfs k (logged b fumbling) None None"
  let ?al = "\<lparr>al_feed = hex (feed_id (att_payload att)), al_time = timestamp_utc (att_payload att),
      al_output = output_value (att_payload att), al_reason = lit ''#14''\<rparr>"
  have a: "\<forall>a w cs. d_alert alarmed_deps a (w, cs) = (w, cs @ [Alerted a])" by (simp add: alarmed_deps_def)
  have b: "b_client (?B b) = logged b fumbling" for b by (simp add: mk_bridge_def)
  have m: "exn_str rep (Exn RuntimeError [T ''#14'']) = lit ''#14''" for rep by (simp add: exn_str_def)
  have br: "\<exists>n a b. lit ''#14'' = a @ n @ b \<and> n \<in> {lit ''CircuitBreaker'', lit ''#13'', lit ''#14'', lit ''#15''}"
    by (rule exI[of _ "lit ''#14''"], rule exI[of _ "[]"], rule exI[of _ "[]"]) simp
  have y: "(Inl (if b then Exn AttributeError [T ''ledger''] else no_such_method), ()) =
      (if b then sc_price_cid fumbling att (lit ''bafk'') () else (Inl no_such_method, ()))" for b
    by (simp add: fumbling_def raise_def)
  have run: "\<exists>x w'. submit_with_cid alarmed_deps (?B b) att (lit ''bafk'') ((), []) =
      (x, (w', (if b then [WithCid att (lit ''bafk'')] else []) @ [Plain att, Alerted ?al]))" for b
  proof -
    obtain x w' cs' where s: "submit_with_cid alarmed_deps (?B b) att (lit ''bafk'') ((), []) = (x, (w', cs'))"
      by (metis prod.exhaust)
    from submission_attempts[OF a b y s] br s show ?thesis
      by (auto simp: fumbling_def raise_def no_such_method_def is_Exception_def m split: if_splits)
  qed
  show "\<exists>x w' al. submit_with_cid alarmed_deps (?B True) att (lit ''bafk'') ((), []) =
       (x, (w', [WithCid att (lit ''bafk''), Plain att, Alerted al])) \<and> al_reason al = lit ''#14'' \<and>
     (\<exists>y v'. submit_with_cid alarmed_deps (?B False) att (lit ''bafk'') ((), []) = (y, (v', [Plain att, Alerted al])))"
    using run[of True] run[of False] by auto
qed

section \<open>Commit and reveal\<close>

lemma commit_ok:
  assumes "commit D B g w = (Inr (salt, tx), w')"
  shows "\<exists>padded sh wa wb. pad_feed_id (g_feed g) = Inr padded \<and> script_hash_of g = Inr sh \<and>
    in_signed 64 (g_output g) \<and> in_signed 64 (g_time g) \<and> d_urandom D 32 w = (salt, wa) \<and>
    sc_commit (b_client B) (g_feed g) (sha256 (sh @ canonical_params_hash (g_params g) @ be_bytes 8 (g_output g) @
      be_bytes 8 (g_time g) @ padded @ salt)) wa = (Inr tx, wb) \<and> w' = wb"
  using assms by (auto simp: commit_def res_simps int_to_bytes_def split: if_splits)

lemma reveal_ok:
  assumes "reveal D B g salt w = (Inr (att, tx), w')"
  shows "\<exists>sh. script_hash_of g = Inr sh \<and> attest (d_crypto D) (b_signer B) sh (ParamsDict (g_params g))
    (g_output g) (g_time g) (g_feed g) = Inr att \<and> sc_reveal (b_client B) att salt w = (Inr tx, w')"
  using assms by (auto simp: reveal_def res_simps)

text \<open>The bytes the contract hashes: the signed bytes without the version, then the salt.\<close>

definition opened :: "bytes \<Rightarrow> bytes \<Rightarrow> bytes" where
  "opened bs salt = tl bs @ salt"

lemma opened_binds:
  assumes "payload_wf p" "payload_wf q" "length s = length t"
    "opened (layout p) s = opened (layout q) t"
  shows "s = t \<and> p\<lparr>schema_version := 1\<rparr> = q\<lparr>schema_version := 1\<rparr>"
proof -
  have "tl (layout p) @ s = tl (layout q) @ t" using assms(4) by (simp add: opened_def)
  then have e: "tl (layout p) = tl (layout q)" "s = t" using assms(3) by (simp_all add: append_eq_append_conv)
  let ?p = "p\<lparr>schema_version := 1\<rparr>" and ?q = "q\<lparr>schema_version := 1\<rparr>"
  have "layout ?p = layout ?q" using e(1) by (simp add: layout_def)
  moreover have "payload_wf ?p" "payload_wf ?q" "version_ok ?p" "version_ok ?q"
    using assms(1,2) by (simp_all add: payload_wf_def version_ok_def)
  ultimately show ?thesis using layout_inject e(2) by blast
qed

text \<open>C15: when a commitment and a later reveal of the same result with its salt succeed, by whatever signer
  and client, the committed hash is that of the revealed attestation's signed bytes without the
  version byte, followed by the salt, which is what the contract recomputes; and no other payload
  with a salt of that length hashes the same bytes.\<close>

theorem reveal_opens_commitment:
  assumes "commit D B g w = (Inr (salt, tx), w')" "reveal D2 B2 g salt v = (Inr (att, tx2), v')"
  shows "\<exists>h bs wa wb. sc_commit (b_client B) (g_feed g) h wa = (Inr tx, wb) \<and> to_bytes (att_payload att) = Inr bs \<and>
    h = sha256 (opened bs salt) \<and> sc_reveal (b_client B2) att salt v = (Inr tx2, v') \<and>
    (\<forall>p s. payload_wf p \<longrightarrow> length s = length salt \<longrightarrow> opened (layout p) s = opened bs salt \<longrightarrow>
       s = salt \<and> p\<lparr>schema_version := 1\<rparr> = att_payload att)"
proof -
  from commit_ok[OF assms(1)] obtain padded sh wa wb where c: "pad_feed_id (g_feed g) = Inr padded"
    "script_hash_of g = Inr sh" "sc_commit (b_client B) (g_feed g) (sha256 (sh @ canonical_params_hash (g_params g) @
      be_bytes 8 (g_output g) @ be_bytes 8 (g_time g) @ padded @ salt)) wa = (Inr tx, wb)" by blast
  from reveal_ok[OF assms(2)] c(2) have r: "attest (d_crypto D2) (b_signer B2) sh (ParamsDict (g_params g))
    (g_output g) (g_time g) (g_feed g) = Inr att" "sc_reveal (b_client B2) att salt v = (Inr tx2, v')" by auto
  from attest_ok[OF r(1)] c(1) have a: "att_payload att = \<lparr>script_hash = sh,
      input_params_hash = canonical_params_hash (g_params g), output_value = g_output g,
      timestamp_utc = g_time g, feed_id = padded, schema_version = 1\<rparr>"
    "payload_wf (att_payload att)" "version_ok (att_payload att)" by (auto simp: SCHEMA_VERSION_def)
  have b: "to_bytes (att_payload att) = Inr (layout (att_payload att))" using a(2,3) by (rule to_bytes_layout)
  have "opened (layout (att_payload att)) salt = sh @ canonical_params_hash (g_params g) @ be_bytes 8 (g_output g) @
      be_bytes 8 (g_time g) @ padded @ salt"
    by (simp add: opened_def layout_def a(1))
  moreover have "s = salt \<and> p\<lparr>schema_version := 1\<rparr> = att_payload att"
    if "payload_wf p" "length s = length salt" "opened (layout p) s = opened (layout (att_payload att)) salt" for p s
    using opened_binds[OF that(1) a(2) that(2,3)] a(1) by simp
  ultimately show ?thesis using c(3) b r(2) by metis
qed

lemma sample_script_hash: "\<exists>sh. script_hash_of sample_result = Inr sh \<and> length sh = 32"
proof -
  have "\<exists>b. utf8_encode (g_source sample_result) = Inr b" using sample_submittable utf8_encode_ok by (simp add: submittable_def)
  then show ?thesis by (auto simp: script_hash_of_def length_sha256)
qed

lemma sample_attest:
  assumes "length sh = 32"
  shows "\<exists>att. attest echo_scheme k sh (ParamsDict (g_params sample_result)) (g_output sample_result)
    (g_time sample_result) (g_feed sample_result) = Inr att"
proof -
  have "pad_feed_id (g_feed sample_result) = Inr ([66, 67, 84] @ replicate 29 0)"
    by (simp add: pad_feed_id_def sample_result_def utf8_encode_ascii ascii_lit) (simp add: lit_def)
  from attest_total[OF echo_laws assms _ _ _ this] show ?thesis
    by (simp add: sample_result_def in_signed_def)
qed

lemma reveal_opens_commitment_witness:
  "\<exists>salt tx w' att tx2 v'. commit sample_deps sample_bridge sample_result ([], []) = (Inr (salt, tx), w') \<and>
     reveal sample_deps sample_bridge sample_result salt w' = (Inr (att, tx2), v') \<and>
     (\<exists>h bs. to_bytes (att_payload att) = Inr bs \<and> h = sha256 (opened bs salt))"
proof -
  obtain sh where sh: "script_hash_of sample_result = Inr sh" "length sh = 32" using sample_script_hash by blast
  obtain padded where "pad_feed_id (g_feed sample_result) = Inr padded"
    using sample_submittable by (auto simp: submittable_def pad_feed_id_ok)
  then have c: "commit sample_deps sample_bridge sample_result ([], []) = (Inr (replicate 32 9, lit ''tx''), ([], []))"
    using sh by (simp add: commit_def bindW_def readW_def sample_deps_def sample_bridge_def noting_def int_to_bytes_def
        sample_result_def in_signed_def)
  obtain att where "attest echo_scheme (b_signer sample_bridge) sh (ParamsDict (g_params sample_result)) (g_output sample_result)
    (g_time sample_result) (g_feed sample_result) = Inr att" using sample_attest[OF sh(2)] by blast
  then have r: "reveal sample_deps sample_bridge sample_result (replicate 32 9) ([], []) = (Inr (att, lit ''tx''), ([], []))"
    using sh by (simp add: reveal_def bindW_def sample_deps_def) (simp add: sample_bridge_def noting_def)
  from reveal_opens_commitment[OF c r] c r show ?thesis by blast
qed

section \<open>Aggregate submissions\<close>

lemma mk_price_source_ok: "mk_price_source i v w m = Inr s \<longleftrightarrow>
    \<not> w \<le> Fin 0 \<and> s = \<lparr>ps_id = i, ps_value = v, ps_weight = w, ps_meta = m\<rparr>"
  by (auto simp: mk_price_source_def res_simps)

lemma sources_of:
  assumes "mapE (source_of cfg) results = Inr sources"
  shows "map ps_id sources = map fst results \<and> map ps_value sources = map (g_output \<circ> snd) results \<and>
    (\<forall>s \<in> set sources. map_of (cfg_weights cfg) (ps_id s) = Some (ps_weight s))"
  using assms
  by (induction results arbitrary: sources) (auto simp: source_of_def res_simps mk_price_source_ok)

lemma aggregate_ok:
  assumes "aggregate_and_submit D B results w = (Inr (ag, att, tx, r'), w')"
  shows "\<exists>cfg sources ar p ps cid. b_agg B = Some cfg \<and> mapE (source_of cfg) results = Inr sources \<and>
    aggregate cfg sources = Inr ar \<and> results = p # ps \<and>
    attest (d_crypto D) (b_signer B) AGGREGATED_HASH (ParamsDict (synthetic_params ar)) (ar_value ar)
      (Max (set (map (\<lambda>p. g_time (snd p)) results))) (g_feed (snd p)) = Inr att \<and>
    record_and_publish D B att (aggregated_record (snd p) ar (Max (set (map (\<lambda>p. g_time (snd p)) results))) att) w =
      (Inr (cid, tx, r'), w') \<and>
    ag = \<lparr>ag_value = ar_value ar, ag_source_values = ar_source_values ar, ag_weights = ar_weights ar,
      ag_rejected = ar_rejected ar, ag_feed = g_feed (snd p), ag_time = Max (set (map (\<lambda>p. g_time (snd p)) results)),
      ag_outlier = ar_outlier ar, ag_cid = Some cid\<rparr>"
  using assms unfolding aggregate_and_submit_def Let_def
  by (cases results) (auto simp: res_simps split: option.splits)

lemma aggregated_record_ok:
  assumes "aggregated_record g ar ts att t = Inr r" "to_bytes (att_payload att) = Inr (layout (att_payload att))"
  shows "tx_ref r = JNull \<and> ipfs_cid r = JNull \<and> payload_bytes r = layout (att_payload att) \<and>
    out_value r = JInt (ar_value ar) \<and> ts_utc r = JInt ts \<and> submitted_at r = JInt t \<and>
    att_public_key r = JStr (hex (public_key att)) \<and> att_signature r = JStr (hex (signature att)) \<and>
    record_type r = JStr (lit ''aggregated'') \<and> source_preview r = JNull \<and> agg_meta r = aggregation_block ar"
  using assms by (auto simp: aggregated_record_def res_simps)

lemma latest:
  fixes f :: "'a \<Rightarrow> int"
  assumes "xs \<noteq> []"
  shows "Max (set (map f xs)) \<in> set (map f xs) \<and> (\<forall>x \<in> set xs. f x \<le> Max (set (map f xs)))"
  using Max_in[of "set (map f xs)"] Max_ge[of "set (map f xs)"] assms by auto

lemma aggregate_attests:
  assumes "ed25519_laws (d_crypto D)" "aggregate_and_submit D B results w = (Inr (ag, att, tx, r), w')"
  shows "verify (d_crypto D) (public_key att) att \<and> published D B att tx r \<and>
    (\<exists>cfg sources ar. b_agg B = Some cfg \<and> map ps_id sources = map fst results \<and>
      map ps_value sources = map (g_output \<circ> snd) results \<and>
      (\<forall>s \<in> set sources. map_of (cfg_weights cfg) (ps_id s) = Some (ps_weight s)) \<and>
      aggregate cfg sources = Inr ar \<and> ag_value ag = ar_value ar \<and> ag_source_values ag = ar_source_values ar \<and>
      ag_rejected ag = ar_rejected ar \<and> script_hash (att_payload att) = AGGREGATED_HASH \<and>
      input_params_hash (att_payload att) = canonical_params_hash (synthetic_params ar)) \<and>
    output_value (att_payload att) = ag_value ag \<and> timestamp_utc (att_payload att) = ag_time ag \<and>
    pad_feed_id (g_feed (snd (hd results))) = Inr (feed_id (att_payload att)) \<and>
    ag_time ag \<in> set (map (\<lambda>p. g_time (snd p)) results) \<and> (\<forall>p \<in> set results. g_time (snd p) \<le> ag_time ag)"
proof -
  from aggregate_ok[OF assms(2)] obtain cfg sources ar p ps cid where o: "b_agg B = Some cfg"
    "mapE (source_of cfg) results = Inr sources" "aggregate cfg sources = Inr ar" "results = p # ps" and
    att: "attest (d_crypto D) (b_signer B) AGGREGATED_HASH (ParamsDict (synthetic_params ar)) (ar_value ar)
      (Max (set (map (\<lambda>p. g_time (snd p)) results))) (g_feed (snd p)) = Inr att" and
    rp: "record_and_publish D B att (aggregated_record (snd p) ar (Max (set (map (\<lambda>p. g_time (snd p)) results))) att) w =
      (Inr (cid, tx, r), w')" and
    ag: "ag = \<lparr>ag_value = ar_value ar, ag_source_values = ar_source_values ar, ag_weights = ar_weights ar,
      ag_rejected = ar_rejected ar, ag_feed = g_feed (snd p), ag_time = Max (set (map (\<lambda>p. g_time (snd p)) results)),
      ag_outlier = ar_outlier ar, ag_cid = Some cid\<rparr>" by blast
  note a = attested[OF assms(1) att]
  from a(3) have f: "att_payload att = \<lparr>script_hash = AGGREGATED_HASH,
      input_params_hash = canonical_params_hash (synthetic_params ar), output_value = ar_value ar,
      timestamp_utc = ag_time ag, feed_id = feed_id (att_payload att), schema_version = 1\<rparr>"
    "pad_feed_id (g_feed (snd p)) = Inr (feed_id (att_payload att))" using ag by auto
  from record_and_publish_ok[OF rp] obtain t w1 r0 where r0:
    "aggregated_record (snd p) ar (Max (set (map (\<lambda>p. g_time (snd p)) results))) att t = Inr r0"
    "publish D B att r0 w1 = (Inr (cid, tx, r), w')" by blast
  note s = aggregated_record_ok[OF r0(1) a(4)]
  have "out_value r0 = JInt (output_value (att_payload att))" "ts_utc r0 = JInt (timestamp_utc (att_payload att))"
    using s f(1) ag by (metis payload.select_convs(3), metis payload.select_convs(4) aggregated.select_convs(6))
  then have "published D B att tx r" using publish_published[OF r0(2)] s a(6) by blast
  moreover have "ag_time ag = Max (set (map (\<lambda>p. g_time (snd p)) results))" using ag by simp
  ultimately have "published D B att tx r" "ag_time ag \<in> set (map (\<lambda>p. g_time (snd p)) results)"
    "\<forall>p \<in> set results. g_time (snd p) \<le> ag_time ag"
    using latest[of results "\<lambda>p. g_time (snd p)"] o(4) by simp_all
  then show ?thesis
    using a(2) o sources_of[OF o(2)] ag f by (metis aggregated.select_convs(1,2,4) list.sel(1) payload.select_convs(1-4))
qed

text \<open>The submission is the last thing that happens, with the identifier of the result and of the record.\<close>

lemma aggregate_ends_with:
  assumes "aggregate_and_submit D B results w = (Inr (ag, att, tx, r), w')"
  shows "\<exists>cid w2. submit_with_cid D B att cid w2 = (Inr tx, w') \<and> ag_cid ag = Some cid \<and> ipfs_cid r = JStr cid"
proof -
  from aggregate_ok[OF assms] obtain mk cid where o: "record_and_publish D B att mk w = (Inr (cid, tx, r), w')" "ag_cid ag = Some cid"
    by auto
  from record_and_publish_ok[OF o(1)] obtain r0 w1 where "publish D B att r0 w1 = (Inr (cid, tx, r), w')" by blast
  from publish_ok[OF this] o(2) show ?thesis by auto
qed

text \<open>C5: an aggregate submission that succeeds attests the aggregate of the results' values under the
  configured weights, with the latest of their times and the feed of the first one, in an attestation
  that verifies and whose parameter hash covers the sources, weights, values and rejections; its
  record was validated and pinned like that of a single result.\<close>

theorem aggregate_submission:
  assumes "ed25519_laws (d_crypto D)" "aggregate_and_submit D B results w = (Inr (ag, att, tx, r), w')"
  shows "verify (d_crypto D) (public_key att) att \<and> published D B att tx r \<and>
    (\<exists>cfg sources ar. b_agg B = Some cfg \<and> map ps_id sources = map fst results \<and>
      map ps_value sources = map (g_output \<circ> snd) results \<and>
      (\<forall>s \<in> set sources. map_of (cfg_weights cfg) (ps_id s) = Some (ps_weight s)) \<and>
      aggregate cfg sources = Inr ar \<and> ag_value ag = ar_value ar \<and> ag_source_values ag = ar_source_values ar \<and>
      ag_rejected ag = ar_rejected ar \<and> script_hash (att_payload att) = AGGREGATED_HASH \<and>
      input_params_hash (att_payload att) = canonical_params_hash (synthetic_params ar)) \<and>
    output_value (att_payload att) = ag_value ag \<and> timestamp_utc (att_payload att) = ag_time ag \<and>
    pad_feed_id (g_feed (snd (hd results))) = Inr (feed_id (att_payload att)) \<and>
    ag_time ag \<in> set (map (\<lambda>p. g_time (snd p)) results) \<and> (\<forall>p \<in> set results. g_time (snd p) \<le> ag_time ag)"
  by (rule aggregate_attests[OF assms])

lemma single_median: "weighted_median [s] = Inr (ps_value s)"
  by (simp add: weighted_median_def Let_def)

lemma sample_aggregate:
  "\<exists>sources ar cfg. b_agg sample_bridge = Some cfg \<and> mapE (source_of cfg) [(lit ''a'', sample_result)] = Inr sources \<and>
     aggregate cfg sources = Inr ar \<and> ar_value ar = 4815162342"
proof -
  obtain sh where "script_hash_of sample_result = Inr sh" using sample_script_hash by blast
  then show ?thesis
    by (simp add: sample_bridge_def source_of_def dict_at_def mk_price_source_def aggregate_def single_median)
      (simp add: sample_result_def)
qed

lemma sample_aggregate_chain:
  fixes B :: "(bytes, 'w) bridge"
  assumes "b_agg B = Some cfg" "mapE (source_of cfg) [(i, sample_result)] = Inr sources" "aggregate cfg sources = Inr ar"
    "ar_value ar = 4815162342"
  shows "\<exists>ag att d r. aggregate_and_submit sample_deps B [(i, sample_result)] w =
    bindW (pin_provenance_record (b_ipfs B) d) (\<lambda>cid. bindW (submit_with_cid sample_deps B att cid) (\<lambda>tx.
      liftW (Inr (ag\<lparr>ag_cid := Some cid\<rparr>, att, tx, r\<lparr>ipfs_cid := JStr cid, tx_ref := JStr tx\<rparr>)))) w \<and>
    ag_feed ag = FStr (lit ''BCT'')"
proof -
  have pad: "pad_feed_id (g_feed sample_result) = Inr ([66, 67, 84] @ replicate 29 0)"
    by (simp add: pad_feed_id_def sample_result_def utf8_encode_ascii ascii_lit) (simp add: lit_def)
  have len: "length AGGREGATED_HASH = 32" by (simp add: AGGREGATED_HASH_def length_sha256)
  obtain att where att: "attest echo_scheme (b_signer B) AGGREGATED_HASH (ParamsDict (synthetic_params ar))
      4815162342 1720051200 (g_feed sample_result) = Inr att"
    using attest_total[OF echo_laws len _ _ _ pad, of "ParamsDict (synthetic_params ar)" 4815162342 1720051200]
    by (auto simp: in_signed_def)
  note a = attested[OF echo_laws att]
  obtain r where r: "aggregated_record sample_result ar 1720051200 att 1720051200 = Inr r"
    using a(4) by (simp add: aggregated_record_def sample_result_def feed_text_def)
  note f = aggregated_record_ok[OF r a(4)]
  have "\<exists>p. preview_of r = Inr p" using f by (simp add: preview_of_def truthy_def)
  moreover have "\<exists>x. utc_iso (submitted_at r) = Inr x" "\<exists>x. utc_iso (ts_utc r) = Inr x"
    using f dated[of 1720051200] by (simp_all add: MIN_TS_def MAX_TS_def)
  moreover have "d_schema sample_deps = None" by (simp add: sample_deps_def)
  moreover have "\<exists>kvs. agg_meta r = JDict kvs \<and> set (map lit agg_keys) \<subseteq> set (dict_keys kvs)"
    using f by (simp add: aggregation_block_def agg_keys_def)
  then obtain kvs where k: "agg_meta r = JDict kvs" "set (map lit agg_keys) \<subseteq> set (dict_keys kvs)" by blast
  have "\<exists>d. prov_to_dict r = Inr d \<and> record_and_publish sample_deps B att (aggregated_record sample_result ar 1720051200 att)
    w = bindW (pin_provenance_record (b_ipfs B) d) (\<lambda>cid. bindW (submit_with_cid sample_deps B att cid) (\<lambda>tx.
      liftW (Inr (cid, tx, r\<lparr>ipfs_cid := JStr cid, tx_ref := JStr tx\<rparr>)))) w"
    by (rule record_reaches[where mk = "aggregated_record sample_result ar 1720051200 att", OF sample_now r, of "public_key att" "signature att" kvs])
      (use calculation f a(5,7,8) k in simp_all)
  then obtain d where d: "record_and_publish sample_deps B att (aggregated_record sample_result ar 1720051200 att)
    w = bindW (pin_provenance_record (b_ipfs B) d) (\<lambda>cid. bindW (submit_with_cid sample_deps B att cid) (\<lambda>tx.
      liftW (Inr (cid, tx, r\<lparr>ipfs_cid := JStr cid, tx_ref := JStr tx\<rparr>)))) w" by blast
  have c: "d_crypto sample_deps = echo_scheme" "g_time sample_result = 1720051200" "g_feed sample_result = FStr (lit ''BCT'')"
    by (simp_all add: sample_deps_def sample_result_def)
  show ?thesis
    unfolding aggregate_and_submit_def assms option.case bindW_lift Let_def
    by (intro exI[of _ "\<lparr>ag_value = ar_value ar, ag_source_values = ar_source_values ar, ag_weights = ar_weights ar,
        ag_rejected = ar_rejected ar, ag_feed = g_feed sample_result, ag_time = 1720051200, ag_outlier = ar_outlier ar,
        ag_cid = None\<rparr>"] exI[of _ att] exI[of _ d] exI[of _ r])
      (use att d in \<open>simp add: c assms(4) bindW_def split: prod.split sum.split\<close>)
qed

lemma sample_aggregate_submits:
  "\<exists>ag att tx r w'. aggregate_and_submit sample_deps sample_bridge [(lit ''a'', sample_result)] ([], []) =
     (Inr (ag, att, tx, r), w')"
proof -
  obtain sources ar cfg where "b_agg sample_bridge = Some cfg"
    "mapE (source_of cfg) [(lit ''a'', sample_result)] = Inr sources" "aggregate cfg sources = Inr ar"
    "ar_value ar = 4815162342" using sample_aggregate by blast
  from sample_aggregate_chain[OF this, of "([], [])"] show ?thesis
    by (auto simp: bindW_def sample_ipfs sample_pin sample_submit)
qed

lemma aggregate_submission_witness:
  "\<exists>ag att tx r w'. aggregate_and_submit sample_deps sample_bridge [(lit ''a'', sample_result)] ([], []) =
     (Inr (ag, att, tx, r), w') \<and> verify echo_scheme (public_key att) att \<and> ag_time ag = 1720051200"
proof -
  obtain ag att tx r w' where p: "aggregate_and_submit sample_deps sample_bridge [(lit ''a'', sample_result)] ([], []) =
     (Inr (ag, att, tx, r), w')" using sample_aggregate_submits by blast
  have c: "d_crypto sample_deps = echo_scheme" by (simp add: sample_deps_def)
  from aggregate_submission[OF _ p, unfolded c, OF echo_laws] p show ?thesis
    by (auto simp: sample_result_def)
qed

end
