(* ===== verification/Verify_Tool.thy ===== *)
theory Verify_Tool
  imports Attestation Provenance Ipfs
begin

text \<open>
  \<open>tools/verify_provenance.py\<close>: the checks of a stored provenance record, the loaders
  with their exit codes, and the \<open>verify\<close>, \<open>show\<close> and \<open>dump\<close>
  commands. The record is any JSON value; what the commands print is a list of lines
  (\<open>verify\<close>: of outcomes, one constructor per message). Their texts are
  in \<open>Verify_Text\<close>; the file system and the environment are parameters.
\<close>

section \<open>Printing JSON with an indent of two\<close>

definition newline :: "nat \<Rightarrow> pystr" where
  "newline level = 10 # replicate (2 * level) 32"

fun pretty :: "nat \<Rightarrow> json \<Rightarrow> pystr" where
  "pretty n (JList xs) = (if xs = [] then lit ''[]'' else
     91 # newline (n + 1) @ join (44 # newline (n + 1)) (map (pretty (n + 1)) xs) @ newline n @ [93])"
| "pretty n (JDict kvs) = (if kvs = [] then lit ''{}'' else
     123 # newline (n + 1) @ join (44 # newline (n + 1))
       (map (\<lambda>(k, t). json_string k @ lit '': '' @ t) (map (\<lambda>(k, v). (k, pretty (n + 1) v)) kvs)) @ newline n @ [125])"
| "pretty n v = dumps v"

text \<open>\<open>ProvenanceRecord.to_json\<close>.\<close>

definition prov_to_json :: "prov \<Rightarrow> pystr res" where
  "prov_to_json r = bindE (prov_to_dict r) (\<lambda>d. Inr (pretty 0 d))"

section \<open>The checks\<close>

text \<open>None when there is no preview to hash.\<close>

definition verify_script_hash :: "json \<Rightarrow> bool option res" where
  "verify_script_hash doc =
     bindE (get_or (lit ''gee_script'') (JDict []) doc) (\<lambda>gs.
     bindE (get_or (lit ''version_hash'') (JStr []) gs) (\<lambda>stored_hash.
     bindE (get_or (lit ''source_preview'') (JStr []) gs) (\<lambda>preview.
     if \<not> truthy preview then Inr None
     else bindE (case preview of JStr s \<Rightarrow> utf8_encode s
                 | _ \<Rightarrow> raise AttributeError [T ''object has no attribute '', Q [lit ''encode'']]) (\<lambda>b.
       Inr (Some (eq_str stored_hash (hex (sha256 b))))))))"

definition verify_params_hash :: "json \<Rightarrow> bool res" where
  "verify_params_hash doc =
     bindE (get_or (lit ''input_params'') (JDict []) doc) (\<lambda>ip.
     bindE (get_or (lit ''params_hash'') (JStr []) ip) (\<lambda>stored.
     bindE (get_or (lit ''params'') (JDict []) ip) (\<lambda>ps.
     Inr (eq_str stored (params_hash_hex ps)))))"

datatype field_error =
    PayloadHexLength int
  | OutputDiffers int json
  | TimestampDiffers int json
  | VersionDiffers int

definition verify_payload_fields :: "json \<Rightarrow> field_error list res" where
  "verify_payload_fields doc =
     bindE (get_or (lit ''attestation'') (JDict []) doc) (\<lambda>att.
     bindE (get_or (lit ''computation'') (JDict []) doc) (\<lambda>cmp.
     bindE (get_or (lit ''payload_hex'') (JStr []) att) (\<lambda>payload_hex.
     bindE (py_len payload_hex) (\<lambda>n.
     if n \<noteq> 226 then Inr [PayloadHexLength n]
     else bindE (case payload_hex of JStr s \<Rightarrow> py_fromhex s
                 | _ \<Rightarrow> raise TypeError [T ''fromhex() argument must be str'']) (\<lambda>payload.
       let stored_ov = int_from_bytes (slice 65 73 payload); stored_ts = int_from_bytes (slice 73 81 payload) in
       bindE (get_or (lit ''output_value'') JNull cmp) (\<lambda>expected_ov.
       bindE (get_or (lit ''timestamp_utc'') JNull cmp) (\<lambda>expected_ts.
       bindE (case payload of [] \<Rightarrow> raise IndexError [T ''index out of range''] | b # _ \<Rightarrow> Inr (uint b)) (\<lambda>ver.
       Inr ((if \<not> eq_int expected_ov stored_ov then [OutputDiffers stored_ov expected_ov] else []) @
            (if \<not> eq_int expected_ts stored_ts then [TimestampDiffers stored_ts expected_ts] else []) @
            (if ver \<noteq> 1 then [VersionDiffers ver] else []))))))))))"

datatype sig_result = SigValid | SigInvalid | SigUndecodable exn | SigNoLibrary

text \<open>\<open>C\<close> is the cryptography package, when it is installed. KeyError and ValueError of the
  decoding (a JSONDecodeError cannot occur) are reported; any failure of the key or of the
  verification is an invalid signature.\<close>

definition decode_hex_field :: "string \<Rightarrow> json \<Rightarrow> bytes res" where
  "decode_hex_field k att = bindE (index (lit k) att) (\<lambda>v. case v of
     JStr s \<Rightarrow> py_fromhex s | _ \<Rightarrow> raise TypeError [T ''fromhex() argument must be str''])"

definition verify_signature :: "'k ed25519 option \<Rightarrow> json \<Rightarrow> sig_result res" where
  "verify_signature C doc = (case C of
     None \<Rightarrow> Inr SigNoLibrary
   | Some crypto \<Rightarrow>
     bindE (get_or (lit ''attestation'') (JDict []) doc) (\<lambda>att.
     case bindE (decode_hex_field ''public_key'' att) (\<lambda>pk.
          bindE (decode_hex_field ''signature'' att) (\<lambda>sg.
          bindE (decode_hex_field ''payload_hex'' att) (\<lambda>payload. Inr (pk, sg, payload)))) of
       Inl e \<Rightarrow> if ekind e = KeyError \<or> ekind e = ValueError then Inr (SigUndecodable e) else Inl e
     | Inr (pk, sg, payload) \<Rightarrow>
         Inr (if ed_public_ok crypto pk \<and> ed_verify crypto pk sg payload then SigValid else SigInvalid)))"

section \<open>The verify command\<close>

text \<open>One constructor per message, with the values it shows.\<close>

datatype outcome =
    SchemaConforms | SchemaFailed "pystr list"
  | ParamsMatch pystr | ParamsMismatch json
  | FieldsConsistent | FieldFailed field_error
  | ScriptMatches | ScriptMismatch | ScriptUnchecked json json
  | SigChecked sig_result | SigSkipped json

text \<open>\<open>v[:n]\<close> in an f-string.\<close>

definition py_head :: "nat \<Rightarrow> json \<Rightarrow> json res" where
  "py_head n v = (case v of
     JStr s \<Rightarrow> Inr (JStr (take n s)) | JList xs \<Rightarrow> Inr (JList (take n xs))
   | _ \<Rightarrow> raise TypeError [T ''object is not subscriptable''])"

definition validation_errors :: "exn \<Rightarrow> pystr list" where
  "validation_errors e = concat (map (\<lambda>f. case f of Q es \<Rightarrow> es | _ \<Rightarrow> []) (emsg e))"

definition check_schema :: "schema_validator \<Rightarrow> json \<Rightarrow> (outcome list \<times> bool) res" where
  "check_schema V doc = (case validate_provenance_record V doc of
     Inr _ \<Rightarrow> Inr ([SchemaConforms], True)
   | Inl e \<Rightarrow> if ekind e = ProvenanceValidationError then Inr ([SchemaFailed (validation_errors e)], False) else Inl e)"

definition check_params :: "json \<Rightarrow> (outcome list \<times> bool) res" where
  "check_params doc = bindE (verify_params_hash doc) (\<lambda>good.
     if good then
       bindE (index (lit ''input_params'') doc) (\<lambda>ip. bindE (index (lit ''params_hash'') ip) (\<lambda>h.
       bindE (py_head 16 h) (\<lambda>h16. case h16 of
         JStr s \<Rightarrow> Inr ([ParamsMatch s], True)
       | _ \<Rightarrow> raise TypeError [T ''can only concatenate str''])))
     else
       bindE (get_or (lit ''input_params'') (JDict []) doc) (\<lambda>ip.
       bindE (get_or (lit ''params_hash'') (js ''N/A'') ip) (\<lambda>stored.
       bindE (py_head 16 stored) (\<lambda>s. Inr ([ParamsMismatch s], False)))))"

definition check_fields :: "json \<Rightarrow> (outcome list \<times> bool) res" where
  "check_fields doc = bindE (verify_payload_fields doc) (\<lambda>errors.
     Inr (if errors = [] then ([FieldsConsistent], True) else (map FieldFailed errors, False)))"

text \<open>A script hash that does not match is only a warning.\<close>

definition check_script :: "json \<Rightarrow> outcome list res" where
  "check_script doc =
     bindE (get_or (lit ''gee_script'') (JDict []) doc) (\<lambda>gs.
     bindE (get_or (lit ''source_preview'') JNull gs) (\<lambda>preview.
     if truthy preview then
       bindE (verify_script_hash doc) (\<lambda>result. Inr (case result of
         Some True \<Rightarrow> [ScriptMatches] | Some False \<Rightarrow> [ScriptMismatch] | None \<Rightarrow> []))
     else
       bindE (get_or (lit ''asset_path'') (js ''N/A'') gs) (\<lambda>ap.
       bindE (get_or (lit ''version_tag'') (js ''N/A'') gs) (\<lambda>vt. Inr [ScriptUnchecked ap vt]))))"

definition check_signature :: "'k ed25519 option \<Rightarrow> bool \<Rightarrow> json \<Rightarrow> (outcome list \<times> bool) res" where
  "check_signature C check_sig doc =
     (if check_sig then bindE (verify_signature C doc) (\<lambda>r. Inr ([SigChecked r], r = SigValid))
      else bindE (get_or (lit ''attestation'') (JDict []) doc) (\<lambda>att.
        bindE (get_or (lit ''public_key'') (js ''N/A'') att) (\<lambda>pk.
        bindE (py_head 32 pk) (\<lambda>s. Inr ([SigSkipped s], True)))))"

text \<open>The suite on a loaded record: what it reports, and whether all checks passed.\<close>

definition verify_record ::
    "'k ed25519 option \<Rightarrow> schema_validator \<Rightarrow> bool \<Rightarrow> json \<Rightarrow> (outcome list \<times> bool) res" where
  "verify_record C V check_sig doc =
     bindE (check_schema V doc) (\<lambda>(o1, b1).
     bindE (check_params doc) (\<lambda>(o2, b2).
     bindE (check_fields doc) (\<lambda>(o3, b3).
     bindE (check_script doc) (\<lambda>o4.
     bindE (check_signature C check_sig doc) (\<lambda>(o5, b5).
     Inr (o1 @ o2 @ o3 @ o4 @ o5, b1 \<and> b2 \<and> b3 \<and> b5))))))"

section \<open>Loading a record\<close>

text \<open>\<open>sys.exit(code)\<close> inside a loader, or the record.\<close>

datatype loaded = Exits int | Loaded json

text \<open>\<open>get_ipfs_client()\<close> makes a new client; the simulated one starts from an empty store.\<close>

definition load_from_ipfs ::
    "(pystr \<Rightarrow> pystr option) \<Rightarrow> (json \<Rightarrow> pystr) \<Rightarrow> 'w transport \<Rightarrow> pystr \<Rightarrow> 'w \<Rightarrow> loaded res \<times> 'w" where
  "load_from_ipfs env rep http cid w =
     (let (r, w') = (case get_ipfs_client env None of
          Simulated \<Rightarrow> (fst (fetch_provenance_record sim_client cid []), w)
        | Local c \<Rightarrow> fetch_provenance_record (local_client rep http c) cid w) in
      (case r of
         Inr doc \<Rightarrow> Inr (Loaded doc)
       | Inl e \<Rightarrow> if ekind e = KeyError \<or> ekind e = RuntimeError then Inr (Exits 2) else Inl e, w'))"

text \<open>A file that does not exist is None; otherwise what \<open>read_text\<close> gives.\<close>

type_synonym files = "pystr \<Rightarrow> pystr res option"

definition load_from_file :: "files \<Rightarrow> pystr \<Rightarrow> loaded res" where
  "load_from_file fs path = (case fs path of
     None \<Rightarrow> Inr (Exits 2)
   | Some text \<Rightarrow> bindE text (\<lambda>t. case loads t of
       Inr doc \<Rightarrow> Inr (Loaded doc)
     | Inl e \<Rightarrow> if ekind e = JSONDecodeError then Inr (Exits 3) else Inl e))"

text \<open>Where a record comes from: the two exclusive options.\<close>

datatype source = FromCid pystr | FromFile pystr

definition load_source ::
    "(pystr \<Rightarrow> pystr option) \<Rightarrow> (json \<Rightarrow> pystr) \<Rightarrow> 'w transport \<Rightarrow> files \<Rightarrow> source \<Rightarrow> 'w \<Rightarrow> loaded res \<times> 'w" where
  "load_source env rep http fs src w = (case src of
     FromCid cid \<Rightarrow> if cid \<noteq> [] then load_from_ipfs env rep http cid w
       else (raise TypeError [T ''argument should be a str or an os.PathLike object''], w)
   | FromFile path \<Rightarrow> (load_from_file fs path, w))"

text \<open>The exit status of the process: an exception that is not caught ends it with 1 (an interrupt of the
  user, for which the interpreter gives 130, is not among the results modelled here).\<close>

definition exit_status :: "('a \<Rightarrow> int) \<Rightarrow> (int + 'a) res \<Rightarrow> int" where
  "exit_status code r = (case r of Inl e \<Rightarrow> 1 | Inr (Inl n) \<Rightarrow> n | Inr (Inr x) \<Rightarrow> code x)"

definition with_record :: "(json \<Rightarrow> 'a res) \<Rightarrow> loaded res \<Rightarrow> (int + 'a) res" where
  "with_record f r = bindE r (\<lambda>l. case l of
     Exits n \<Rightarrow> Inr (Inl n) | Loaded doc \<Rightarrow> bindE (f doc) (\<lambda>x. Inr (Inr x)))"

definition cmd_verify ::
    "'k ed25519 option \<Rightarrow> schema_validator \<Rightarrow> bool \<Rightarrow> loaded res \<Rightarrow> (int + (outcome list \<times> bool)) res" where
  "cmd_verify C V check_sig r = with_record (verify_record C V check_sig) r"

definition verify_status :: "(int + (outcome list \<times> bool)) res \<Rightarrow> int" where
  "verify_status = exit_status (\<lambda>(outs, all_ok). if all_ok then 0 else 1)"

definition cmd_dump :: "loaded res \<Rightarrow> (int + pystr) res" where
  "cmd_dump r = with_record (\<lambda>doc. Inr (pretty 0 doc)) r"

section \<open>The show command\<close>

text \<open>A row: the label padded to 24 columns, the value cut to 40 characters.\<close>

definition show_row :: "pystr \<Rightarrow> pystr \<Rightarrow> pystr" where
  "show_row label v = lit ''  '' @ label @ replicate (24 - length label) 32 @
     (if 43 < length v then take 40 v @ [8230] else v)"

text \<open>\<open>v[:32] + "..."\<close>, with the ellipsis character.\<close>

definition head_text :: "nat \<Rightarrow> json \<Rightarrow> pystr res" where
  "head_text n v = (case v of JStr s \<Rightarrow> Inr (take n s @ [8230])
     | _ \<Rightarrow> raise TypeError [T ''can only concatenate str (not other) to str''])"

definition py_items :: "json \<Rightarrow> json dict res" where
  "py_items v = (case v of JDict kvs \<Rightarrow> Inr kvs
     | _ \<Rightarrow> raise AttributeError [T ''object has no attribute '', Q [lit ''items'']])"

definition join_texts :: "json \<Rightarrow> pystr res" where
  "join_texts v = (case v of
     JList xs \<Rightarrow> bindE (mapE (\<lambda>x. case x of JStr s \<Rightarrow> Inr s
       | _ \<Rightarrow> raise TypeError [T ''sequence item: expected str instance'']) xs) (\<lambda>ss. Inr (join (lit '', '') ss))
   | JStr s \<Rightarrow> Inr (join (lit '', '') (map (\<lambda>c. [c]) s))
   | JDict kvs \<Rightarrow> Inr (join (lit '', '') (dict_keys kvs))
   | _ \<Rightarrow> raise TypeError [T ''can only join an iterable''])"

definition get_row :: "(json \<Rightarrow> pystr) \<Rightarrow> string \<Rightarrow> string \<Rightarrow> string \<Rightarrow> json \<Rightarrow> pystr list res" where
  "get_row rep label k d v = bindE (get_or (lit k) (js d) v) (\<lambda>x. Inr [show_row (lit label) (str_of rep x)])"

definition head_row :: "string \<Rightarrow> string \<Rightarrow> json \<Rightarrow> pystr list res" where
  "head_row label k v = bindE (get_or (lit k) (js ''N/A'') v) (\<lambda>x. bindE (head_text 32 x) (\<lambda>s.
     Inr [show_row (lit label) s]))"

definition item_rows :: "(json \<Rightarrow> pystr) \<Rightarrow> json dict \<Rightarrow> pystr list" where
  "item_rows rep kvs = map (\<lambda>(k, v). show_row (lit ''  '' @ k @ lit '':'') (str_of rep v)) (take 5 kvs)"

definition show_params :: "(json \<Rightarrow> pystr) \<Rightarrow> json \<Rightarrow> pystr list res" where
  "show_params rep ip = bindE (get_or (lit ''params'') (JDict []) ip) (\<lambda>ps. bindE (py_items ps) (\<lambda>kvs.
     Inr (item_rows rep kvs @ (if 5 < length kvs
       then [show_row (lit ''  (+ '' @ dec_int (int (length kvs) - 5) @ lit '' more):'') []] else []))))"

definition show_submission :: "(json \<Rightarrow> pystr) \<Rightarrow> json \<Rightarrow> pystr list res" where
  "show_submission rep sub =
     bindE (get_row rep ''Submitted at:'' ''submitted_at_iso'' ''N/A'' sub) (\<lambda>l1.
     bindE (get_row rep ''IPFS CID:'' ''ipfs_cid'' ''(not set)'' sub) (\<lambda>l2.
     bindE (get_or (lit ''tx_ref'') JNull sub) (\<lambda>tx.
     Inr (l1 @ l2 @ (if truthy tx then [show_row (lit ''Tx reference:'') (str_of rep tx)] else [])))))"

definition show_aggregation :: "(json \<Rightarrow> pystr) \<Rightarrow> json \<Rightarrow> pystr list res" where
  "show_aggregation rep agg = (if \<not> truthy agg then Inr [] else
     bindE (get_row rep ''Method:'' ''method'' ''N/A'' agg) (\<lambda>l1.
     bindE (get_row rep ''Outlier method:'' ''outlier_method'' ''N/A'' agg) (\<lambda>l2.
     bindE (get_or (lit ''rejected_sources'') (JList []) agg) (\<lambda>rs.
     bindE (join_texts rs) (\<lambda>s.
     bindE (get_or (lit ''source_values'') (JDict []) agg) (\<lambda>sv.
     bindE (py_items sv) (\<lambda>kvs.
     Inr (lit ''Aggregation'' # l1 @ l2 @
       [show_row (lit ''Rejected sources:'') (if s = [] then lit ''none'' else s)] @ item_rows rep kvs))))))))"

text \<open>The lines of the command, without rules, blank lines and bold face.\<close>

definition show_record :: "(json \<Rightarrow> pystr) \<Rightarrow> json \<Rightarrow> pystr list res" where
  "show_record rep doc =
     bindE (get_or (lit ''gee_script'') (JDict []) doc) (\<lambda>gs.
     bindE (get_or (lit ''input_params'') (JDict []) doc) (\<lambda>ip.
     bindE (get_or (lit ''computation'') (JDict []) doc) (\<lambda>cmp.
     bindE (get_or (lit ''attestation'') (JDict []) doc) (\<lambda>att.
     bindE (get_or (lit ''submission'') (JDict []) doc) (\<lambda>sub.
     bindE (get_or (lit ''aggregation'') JNull doc) (\<lambda>agg.
     bindE (get_or (lit ''schema_version'') (js ''?'') doc) (\<lambda>ver.
     bindE (get_row rep ''Asset path:'' ''asset_path'' ''N/A'' gs) (\<lambda>r1.
     bindE (get_row rep ''Version tag:'' ''version_tag'' ''N/A'' gs) (\<lambda>r2.
     bindE (head_row ''Version hash:'' ''version_hash'' gs) (\<lambda>r3.
     bindE (head_row ''Params hash:'' ''params_hash'' ip) (\<lambda>r4.
     bindE (show_params rep ip) (\<lambda>r5.
     bindE (get_row rep ''Feed ID:'' ''feed_id'' ''N/A'' cmp) (\<lambda>r6.
     bindE (get_row rep ''Output value:'' ''output_value'' ''N/A'' cmp) (\<lambda>r7.
     bindE (get_row rep ''Timestamp:'' ''timestamp_iso'' ''N/A'' cmp) (\<lambda>r8.
     bindE (get_row rep ''Schema version:'' ''schema_version'' ''N/A'' att) (\<lambda>r9.
     bindE (head_row ''Public key:'' ''public_key'' att) (\<lambda>r10.
     bindE (head_row ''Signature:'' ''signature'' att) (\<lambda>r11.
     bindE (show_submission rep sub) (\<lambda>r12.
     bindE (show_aggregation rep agg) (\<lambda>r13.
     Inr ([lit ''  GEE Oracle Provenance Record (schema v'' @ str_of rep ver @ lit '')'', lit ''Script''] @ r1 @ r2 @ r3 @
       [lit ''Input Parameters''] @ r4 @ r5 @ [lit ''Computation''] @ r6 @ r7 @ r8 @
       [lit ''Attestation''] @ r9 @ r10 @ r11 @ [lit ''Submission''] @ r12 @ r13)))))))))))))))))))))"

definition cmd_show :: "(json \<Rightarrow> pystr) \<Rightarrow> loaded res \<Rightarrow> (int + pystr list) res" where
  "cmd_show rep r = with_record (show_record rep) r"

section \<open>The entry point\<close>

datatype command = Verify source bool | Show source | Dump source

definition tool_main ::
    "'k ed25519 option \<Rightarrow> schema_validator \<Rightarrow> (pystr \<Rightarrow> pystr option) \<Rightarrow> (json \<Rightarrow> pystr) \<Rightarrow> 'w transport \<Rightarrow> files \<Rightarrow>
     command \<Rightarrow> 'w \<Rightarrow> int" where
  "tool_main C V env rep http fs cmd w = (case cmd of
     Verify src check_sig \<Rightarrow> verify_status (cmd_verify C V check_sig (fst (load_source env rep http fs src w)))
   | Show src \<Rightarrow> exit_status (\<lambda>_. 0) (cmd_show rep (fst (load_source env rep http fs src w)))
   | Dump src \<Rightarrow> exit_status (\<lambda>_. 0) (cmd_dump (fst (load_source env rep http fs src w))))"

end
