(* ===== verification/Verify_Tool_Properties.thy ===== *)
theory Verify_Tool_Properties
  imports Verify_Tool Bridge_Properties
begin

text \<open>
  What the verification tool promises: its verdict does not depend on the order of the keys of a
  document, it accepts what a submission pinned, what an acceptance means, and its exit codes.
\<close>

section \<open>Reading a document in key order\<close>

lemma sort_key_again: "sort_key f (sort_key f xs) = sort_key f xs"
  by (rule sort_key_id_if_sorted) simp

lemma canon_canon: "canon (canon v) = canon v"
proof (induction v)
  case (JDict kvs)
  let ?c = "map (\<lambda>(k, v). (k, canon v))"
  have "?c (?c kvs) = ?c kvs" using JDict by (auto simp: snds.simps)
  then have "?c (sort_key fst (?c kvs)) = sort_key fst (?c kvs)" by (metis sort_key_map_snd)
  then show ?case by (simp only: canon.simps sort_key_again)
qed (auto simp: comp_def)

lemma dumps_canon: "dumps (canon v) = dumps v"
  by (simp add: dumps_raw canon_canon)

lemma params_hash_canon: "params_hash_hex (canon v) = params_hash_hex v"
  by (simp add: params_hash_hex_def dumps_bytes_def dumps_canon)

lemma truthy_canon [simp]: "truthy (canon v) = truthy v"
proof -
  have "sort_key f xs = [] \<longleftrightarrow> xs = []" for f :: "pystr \<times> json \<Rightarrow> pystr" and xs
    by (metis length_0_conv length_sort)
  then show ?thesis by (cases v) (auto simp: truthy_def)
qed

lemma eq_int_canon [simp]: "eq_int (canon v) n = eq_int v n"
  by (cases v) (auto simp: eq_int_def)

lemma eq_str_canon [simp]: "eq_str (canon v) s = eq_str v s"
  by (cases v) (auto simp: eq_str_def)

lemma py_len_canon [simp]: "py_len (canon v) = py_len v"
  by (cases v) (auto simp: py_len_def)

lemma canon_JNull [simp]: "canon v = JNull \<longleftrightarrow> v = JNull"
  by (cases v) auto

lemma keys_sort [simp]: "set (dict_keys (sort_key fst (map (\<lambda>(k, v). (k, canon v)) kvs))) = set (dict_keys kvs)"
  by (simp add: image_image split_beta)

lemma has_key_canon [simp]: "has_key k (canon v) = has_key k v"
proof (cases v)
  case (JList xs)
  have "JStr k = canon x \<longleftrightarrow> x = JStr k" for x using canon_str[of x k] by auto
  then show ?thesis using JList by (auto simp: has_key_def image_iff)
qed (simp_all add: has_key_def image_image split_beta)

lemma missing_canon [simp]: "missing p ks (canon v) = missing p ks v"
  by (simp add: missing_def)

text \<open>Reading a field commutes with the reordering; what is read is a value again.\<close>

lemma read_get_or:
  assumes "json_ok v" "canon dflt = dflt" "json_ok dflt"
    "\<And>x. json_ok x \<Longrightarrow> f (canon x) = g x"
  shows "bindE (get_or k dflt (canon v)) f = bindE (get_or k dflt v) g"
proof (cases v)
  case (JDict kvs)
  then have d: "distinct (dict_keys kvs)" using assms(1) by simp
  show ?thesis
  proof (cases "map_of kvs k")
    case None
    then have "get_or k dflt (canon v) = Inr dflt" "get_or k dflt v = Inr dflt"
      using JDict d by (simp_all add: map_of_canon)
    then show ?thesis using assms(2) assms(4)[OF assms(3)] by simp
  next
    case (Some x)
    then have "json_ok x" using JDict assms(1) by (auto simp: list_all_iff dest: map_of_SomeD)
    moreover have "get_or k dflt (canon v) = Inr (canon x)" "get_or k dflt v = Inr x"
      using JDict d Some by (simp_all add: map_of_canon)
    ultimately show ?thesis using assms(4) by simp
  qed
qed (simp_all add: get_or_def raise_def)

lemma read_index:
  assumes "json_ok v" "\<And>x. json_ok x \<Longrightarrow> f (canon x) = g x"
  shows "bindE (index k (canon v)) f = bindE (index k v) g"
proof (cases v)
  case (JDict kvs)
  then have d: "distinct (dict_keys kvs)" using assms(1) by simp
  show ?thesis
  proof (cases "map_of kvs k")
    case None
    then show ?thesis using JDict d by (simp add: map_of_canon dict_at_def raise_def)
  next
    case (Some x)
    then have "json_ok x" using JDict assms(1) by (auto simp: list_all_iff dest: map_of_SomeD)
    then show ?thesis using JDict d Some assms(2) by (simp add: map_of_canon dict_at_def)
  qed
qed (simp_all add: index_def raise_def)

lemma bind_same: "m = m' \<Longrightarrow> (\<And>x. f x = g x) \<Longrightarrow> bindE m f = bindE m' g"
  by (cases m') simp_all

lemma bad_length_canon [simp]: "json_ok v \<Longrightarrow> bad_length k n (canon v) = bad_length k n v"
  unfolding bad_length_def
  by (rule bind_same, simp, rule if_cong, simp, simp) (rule read_index, simp_all)

lemma aggregation_errors_canon:
  "json_ok v \<Longrightarrow> aggregation_errors (canon rt) (canon v) = aggregation_errors rt v"
  unfolding aggregation_errors_def eq_str_canon by (intro if_cong refl read_get_or) simp_all

lemma lightweight_canon: "json_ok v \<Longrightarrow> lightweight_validate (canon v) = lightweight_validate v"
  unfolding lightweight_validate_def
  by (rule read_get_or bind_same | (simp add: aggregation_errors_canon; fail))+

text \<open>The verdict of a check, without its messages.\<close>

definition verdict :: "(outcome list \<times> bool) res \<Rightarrow> bool res" where
  "verdict r = bindE r (\<lambda>p. Inr (snd p))"

lemma verdict_bind: "verdict (bindE m f) = bindE m (\<lambda>x. verdict (f x))"
  by (simp add: verdict_def bindE_assoc)

lemma verdict_Inr [simp]: "verdict (Inr p) = Inr (snd p)" "verdict (raise k m) = raise k m"
  by (simp_all add: verdict_def)

lemma verify_record_verdict:
  "verdict (verify_record C V cs doc) = bindE (verdict (check_schema V doc)) (\<lambda>b1.
     bindE (verdict (check_params doc)) (\<lambda>b2. bindE (verdict (check_fields doc)) (\<lambda>b3.
     bindE (bindE (check_script doc) (\<lambda>_. Inr ())) (\<lambda>_. bindE (verdict (check_signature C cs doc)) (\<lambda>b5.
     Inr (b1 \<and> b2 \<and> b3 \<and> b5))))))"
  by (simp add: verify_record_def verdict_def bindE_assoc split_beta)

lemma case_str_canon [simp]:
  "(case canon v of JStr s \<Rightarrow> f s | _ \<Rightarrow> c) = (case v of JStr s \<Rightarrow> f s | _ \<Rightarrow> c)"
  by (cases v) simp_all

lemma decode_canon [simp]: "json_ok v \<Longrightarrow> decode_hex_field k (canon v) = decode_hex_field k v"
  unfolding decode_hex_field_def by (rule read_index) simp_all

lemma verify_params_canon: "json_ok v \<Longrightarrow> verify_params_hash (canon v) = verify_params_hash v"
  unfolding verify_params_hash_def
  by (rule read_get_or | (simp add: params_hash_canon; fail))+

lemma verify_script_canon: "json_ok v \<Longrightarrow> verify_script_hash (canon v) = verify_script_hash v"
  unfolding verify_script_hash_def
  by (rule read_get_or bind_same if_cong | (simp; fail))+

lemma verify_signature_canon: "json_ok v \<Longrightarrow> verify_signature C (canon v) = verify_signature C v"
  unfolding verify_signature_def by (cases C) (simp, simp, rule read_get_or, simp_all)

lemma fields_canon:
  "json_ok v \<Longrightarrow> bindE (verify_payload_fields (canon v)) (\<lambda>es. Inr (es = [])) =
    bindE (verify_payload_fields v) (\<lambda>es. Inr (es = []))"
  unfolding verify_payload_fields_def bindE_assoc Let_def if_distrib[of "\<lambda>m. bindE m _"] bindE.simps
  by (rule read_get_or bind_same if_cong | (simp; fail))+

lemma heads_canon:
  "bindE (py_head n (canon v)) (\<lambda>_. x) = bindE (py_head n v) (\<lambda>_. x)"
  "bindE (py_head n (canon v)) (\<lambda>h. case h of JStr s \<Rightarrow> f s | _ \<Rightarrow> y) =
   bindE (py_head n v) (\<lambda>h. case h of JStr s \<Rightarrow> f s | _ \<Rightarrow> y)"
  by (cases v; simp add: py_head_def raise_def)+

lemma checks_canon:
  assumes "json_ok v"
  shows "check_schema None (canon v) = check_schema None v"
    "verdict (check_fields (canon v)) = verdict (check_fields v)"
    "verdict (check_params (canon v)) = verdict (check_params v)"
    "bindE (check_script (canon v)) (\<lambda>_. Inr ()) = bindE (check_script v) (\<lambda>_. Inr ())"
    "verdict (check_signature C cs (canon v)) = verdict (check_signature C cs v)"
proof -
  show "check_schema None (canon v) = check_schema None v"
    unfolding check_schema_def validate_provenance_record_def option.case lightweight_canon[OF assms] ..
  have f: "verdict (check_fields x) = bindE (verify_payload_fields x) (\<lambda>es. Inr (es = []))" for x
    unfolding check_fields_def verdict_bind by (rule bind_same) simp_all
  show "verdict (check_fields (canon v)) = verdict (check_fields v)"
    unfolding f by (rule fields_canon) (rule assms)
  have p: "json_ok v \<Longrightarrow> verdict (check_params (canon v)) = verdict (check_params v)"
    unfolding check_params_def verdict_bind if_distrib[of verdict] json.case_distrib[of verdict] verdict_Inr snd_conv
      verify_params_canon[OF assms]
    by (rule read_index read_get_or if_cong | (simp add: heads_canon js_def valid_literal; fail) | rule bind_same)+
  show "verdict (check_params (canon v)) = verdict (check_params v)" using p assms .
  have s: "json_ok v \<Longrightarrow> bindE (check_script (canon v)) (\<lambda>_. Inr ()) = bindE (check_script v) (\<lambda>_. Inr ())"
    unfolding check_script_def bindE_assoc if_distrib[of "\<lambda>m. bindE m _"] bindE.simps verify_script_canon[OF assms]
    by (rule read_get_or bind_same if_cong | (simp add: js_def valid_literal; fail))+
  show "bindE (check_script (canon v)) (\<lambda>_. Inr ()) = bindE (check_script v) (\<lambda>_. Inr ())" using s assms .
  have g: "json_ok v \<Longrightarrow> verdict (check_signature C cs (canon v)) = verdict (check_signature C cs v)"
    unfolding check_signature_def verify_signature_canon[OF assms] verdict_bind if_distrib[of verdict] verdict_Inr snd_conv
    by (rule read_get_or if_cong | (simp add: heads_canon js_def valid_literal; fail) | rule bind_same)+
  show "verdict (check_signature C cs (canon v)) = verdict (check_signature C cs v)" using g assms .
qed

lemma verdict_canon:
  assumes "json_ok v"
  shows "verdict (verify_record C None cs (canon v)) = verdict (verify_record C None cs v)"
  unfolding verify_record_verdict checks_canon[OF assms] ..

lemma verdict_accepts: "verdict r = Inr True \<longleftrightarrow> (\<exists>outs. r = Inr (outs, True))"
  by (auto simp: verdict_def res_simps)

section \<open>Accepting what was submitted\<close>

lemma own_params_match:
  "verdict (check_params (record_block r g s (params_hash_hex (input_params r)) t)) = Inr True"
  unfolding check_params_def verify_params_hash_def record_gets record_fields
  by (simp add: eq_str_def py_head_def)

lemma own_fields_match:
  assumes "from_bytes (payload_bytes r) = Inr p" "out_value r = JInt (output_value p)"
    "ts_utc r = JInt (timestamp_utc p)" "schema_version p = 1"
  shows "verdict (check_fields (record_block r g s h t)) = Inr True"
proof -
  note f = from_bytes_fields[OF assms(1)]
  obtain b bs where b: "payload_bytes r = b # bs" using f(1) by (cases "payload_bytes r") auto
  have v: "uint b = 1"
    using assms(1,4) f(1) b by (auto simp: from_bytes_def PAYLOAD_LENGTH_def res_simps)
  have "verify_payload_fields (record_block r g s h t) = Inr []"
    unfolding verify_payload_fields_def record_gets
    using assms(2,3) f v b by simp
  then show ?thesis by (simp add: check_fields_def)
qed

lemma own_script_checked:
  assumes "source_preview r = JNull \<or> (\<exists>x. source_preview r = JStr x \<and> valid_text x)" "preview_of r = Inr preview"
  shows "\<exists>outs. check_script (record_block r (gee_script_block r preview) s h t) = Inr outs"
proof -
  consider "preview = []" | x where "preview = [(lit ''source_preview'', JStr (take 512 x))]" "valid_text x" "x \<noteq> []"
    using assms by (auto simp: preview_of_def preview512_def truthy_def split: if_splits)
  then show ?thesis
  proof cases
    case 1
    then show ?thesis
      unfolding check_script_def record_gets by (simp add: gee_script_block_def truthy_def)
  next
    case 2
    have "valid_text (take 512 x)" using 2(2) by (auto simp: valid_text_def list_all_iff dest: in_set_takeD)
    then obtain b where "utf8_encode (take 512 x) = Inr b" using utf8_encode_ok by blast
    then show ?thesis
      unfolding check_script_def verify_script_hash_def record_gets using 2
      by (simp add: gee_script_block_def truthy_def)
  qed
qed

lemma own_signature_checked:
  assumes "att_public_key r = JStr (hex pk)" "att_signature r = JStr (hex sg)" "ed_public_ok C pk"
    "ed_verify C pk sg (payload_bytes r)"
  shows "verdict (check_signature (Some C) True (record_block r g s h t)) = Inr True"
  using assms by (simp add: check_signature_def verify_signature_def record_gets decode_hex_field_def)

lemma accepts_own:
  assumes "prov_to_dict r = Inr d" "lightweight_validate d = Inr []"
    "from_bytes (payload_bytes r) = Inr p" "out_value r = JInt (output_value p)"
    "ts_utc r = JInt (timestamp_utc p)" "schema_version p = 1"
    "source_preview r = JNull \<or> (\<exists>x. source_preview r = JStr x \<and> valid_text x)"
    "att_public_key r = JStr (hex pk)" "att_signature r = JStr (hex sg)" "ed_public_ok C pk"
    "ed_verify C pk sg (payload_bytes r)"
  shows "verdict (verify_record (Some C) None True d) = Inr True"
proof -
  from assms(1) obtain preview sub_iso ts_iso where p: "preview_of r = Inr preview" and
    d: "d = record_block r (gee_script_block r preview) (submission_block r sub_iso)
          (params_hash_hex (input_params r)) ts_iso"
    unfolding prov_to_dict_ok by blast
  have "verdict (check_schema None d) = Inr True"
    using assms(2) by (simp add: check_schema_def validate_provenance_record_def)
  moreover obtain outs where "check_script d = Inr outs" using own_script_checked[OF assms(7) p] d by blast
  ultimately show ?thesis
    unfolding verify_record_verdict
    using own_params_match own_fields_match[OF assms(3-6)] own_signature_checked[OF assms(8-11)] d by simp
qed

lemma published_accepts:
  assumes "ed25519_laws C" "attest C k sh ip ov ts fid = Inr att" "publish D B att r0 w = (Inr (cid, tx, r), w')"
    "tx_ref r0 = JNull" "ipfs_cid r0 = JNull" "payload_bytes r0 = layout (att_payload att)"
    "out_value r0 = JInt (output_value (att_payload att))" "ts_utc r0 = JInt (timestamp_utc (att_payload att))"
    "source_preview r0 = JNull \<or> (\<exists>x. source_preview r0 = JStr x \<and> valid_text x)"
    "att_public_key r0 = JStr (hex (public_key att))" "att_signature r0 = JStr (hex (signature att))"
    "prov_to_dict (unsubmitted r) = Inr d"
  shows "verdict (verify_record (Some C) None True d) = Inr True"
proof -
  note a = attested[OF assms(1,2)]
  from publish_ok[OF assms(3)] obtain d0 where p: "prov_to_dict r0 = Inr d0"
    "validate_provenance_record (d_schema D) d0 = Inr ()" "r = r0\<lparr>ipfs_cid := JStr cid, tx_ref := JStr tx\<rparr>" by blast
  have "unsubmitted r = r0" using assms(4,5) p(3) by (simp add: unsubmitted_def)
  then have d: "d0 = d" using p(1) assms(12) by simp
  have "lightweight_validate d = Inr []"
    using p(2) d by (auto simp: validate_provenance_record_def res_simps validation_failed_def split: if_splits)
  then show ?thesis
  proof (rule accepts_own[OF p(1)[unfolded d] _ _ assms(7,8) _ assms(9-11)])
    show "from_bytes (payload_bytes r0) = Inr (att_payload att)" using a(6) assms(6) by simp
    show "schema_version (att_payload att) = 1" using a(3) by auto
    show "ed_public_ok C (public_key att)" using a(1) by (auto simp: mk_verifier_def raise_def split: if_splits)
    show "ed_verify C (public_key att) (signature att) (payload_bytes r0)"
      using a(2,4) assms(6) by (simp add: verify_def)
  qed
qed

lemma submitted_verdict:
  assumes "ed25519_laws (d_crypto D)"
    "process D B g w = (Inr (att, tx, r), w') \<or> aggregate_and_submit D B results w = (Inr (ag, att, tx, r), w')"
    "prov_to_dict (unsubmitted r) = Inr d"
  shows "verdict (verify_record (Some (d_crypto D)) None True d) = Inr True"
  using assms(2)
proof
  assume "process D B g w = (Inr (att, tx, r), w')"
  from process_ok[OF this] obtain sh w1 t r0 cid where p: "script_hash_of g = Inr sh"
    "attest (d_crypto D) (b_signer B) sh (ParamsDict (g_params g)) (g_output g) (g_time g) (g_feed g) = Inr att"
    "single_record g sh att t = Inr r0" "publish D B att r0 w1 = (Inr (cid, tx, r), w')" by blast
  note a = attested[OF assms(1) p(2)]
  note s = single_record_ok[OF p(3) a(4)]
  have v: "valid_text (take 512 (g_source g))"
    using p(1) utf8_encode_ok[of "g_source g"]
    by (auto simp: script_hash_of_def res_simps valid_text_def list_all_iff dest: in_set_takeD)
  have o: "g_output g = output_value (att_payload att)" "g_time g = timestamp_utc (att_payload att)" using a(3) by auto
  show ?thesis by (rule published_accepts[OF assms(1) p(2,4)]) (use s[unfolded o] v assms(3) in simp_all)
next
  assume "aggregate_and_submit D B results w = (Inr (ag, att, tx, r), w')"
  from aggregate_ok[OF this] obtain ar cid and p :: "pystr \<times> gee_result" where
    att: "attest (d_crypto D) (b_signer B) AGGREGATED_HASH (ParamsDict (synthetic_params ar)) (ar_value ar)
      (Max (set (map (\<lambda>p. g_time (snd p)) results))) (g_feed (snd p)) = Inr att" and
    rp: "record_and_publish D B att (aggregated_record (snd p) ar (Max (set (map (\<lambda>p. g_time (snd p)) results))) att) w =
      (Inr (cid, tx, r), w')" by blast
  note a = attested[OF assms(1) att]
  from record_and_publish_ok[OF rp] obtain t w1 r0 where r0:
    "aggregated_record (snd p) ar (Max (set (map (\<lambda>p. g_time (snd p)) results))) att t = Inr r0"
    "publish D B att r0 w1 = (Inr (cid, tx, r), w')" by blast
  note s = aggregated_record_ok[OF r0(1) a(4)]
  have o: "ar_value ar = output_value (att_payload att)"
    "Max (set (map (\<lambda>p. g_time (snd p)) results)) = timestamp_utc (att_payload att)" using a(3) by auto
  show ?thesis by (rule published_accepts[OF assms(1) att r0(2)]) (use s[unfolded o] assms(3) in simp_all)
qed

text \<open>C4: the document that a successful submission, single or aggregate, wrote and pinned is accepted by
  the verification tool, the signature check included: as it was written, or with the keys in the
  order in which a store gives it back.\<close>

theorem tool_accepts_published:
  assumes "ed25519_laws (d_crypto D)"
    "process D B g w = (Inr (att, tx, r), w') \<or> aggregate_and_submit D B results w = (Inr (ag, att, tx, r), w')"
    "prov_to_dict (unsubmitted r) = Inr d" "doc = d \<or> (json_ok d \<and> doc = canon d)"
  shows "\<exists>outs. verify_record (Some (d_crypto D)) None True doc = Inr (outs, True)"
proof -
  have "verdict (verify_record (Some (d_crypto D)) None True doc) = Inr True"
    using submitted_verdict[OF assms(1-3)] assms(4) verdict_canon by metis
  then show ?thesis unfolding verdict_accepts .
qed

lemma sample_pinned:
  assumes "process sample_deps sample_bridge sample_result ([], []) = (Inr (att, tx, r), w')"
  shows "\<exists>d. prov_to_dict (unsubmitted r) = Inr d"
proof -
  from process_ok[OF assms] obtain sh w1 t r0 cid where q: "single_record sample_result sh att t = Inr r0"
    "publish sample_deps sample_bridge att r0 w1 = (Inr (cid, tx, r), w')" by blast
  from publish_ok[OF q(2)] obtain d where d: "prov_to_dict r0 = Inr d" "r = r0\<lparr>ipfs_cid := JStr cid, tx_ref := JStr tx\<rparr>"
    by blast
  have "tx_ref r0 = JNull" "ipfs_cid r0 = JNull" using q(1) by (auto simp: single_record_def res_simps)
  then have "unsubmitted r = r0" using d(2) by (simp add: unsubmitted_def)
  then show ?thesis using d(1) by simp
qed

lemma tool_accepts_published_witness:
  "\<exists>att tx r w' d outs. process sample_deps sample_bridge sample_result ([], []) = (Inr (att, tx, r), w') \<and>
     prov_to_dict (unsubmitted r) = Inr d \<and> verify_record (Some echo_scheme) None True d = Inr (outs, True)"
proof -
  obtain att tx r w' where p: "process sample_deps sample_bridge sample_result ([], []) = (Inr (att, tx, r), w')"
    using sample_process by blast
  have c: "d_crypto (sample_deps :: (bytes, store \<times> call list) deps) = echo_scheme" by (simp add: sample_deps_def)
  obtain d where u: "prov_to_dict (unsubmitted r) = Inr d" using sample_pinned[OF p] by blast
  have l: "ed25519_laws (d_crypto (sample_deps :: (bytes, store \<times> call list) deps))" using c echo_laws by simp
  from tool_accepts_published[OF l _ u, of sample_bridge sample_result "([], [])" att tx w' _ _ d] p c
  obtain outs where "verify_record (Some echo_scheme) None True d = Inr (outs, True)" by auto
  with p u show ?thesis by blast
qed

section \<open>What an acceptance means\<close>

lemma get_index: "index k v = Inr x \<Longrightarrow> get_or k dflt v = Inr x"
  by (auto simp: index_def get_or_def res_simps split: json.splits)

lemma schema_accepts: "verdict (check_schema V doc) = Inr True \<Longrightarrow> validate_provenance_record V doc = Inr ()"
  by (auto simp: check_schema_def verdict_def res_simps split: sum.splits if_splits)

lemma params_accepted:
  assumes "verdict (check_params doc) = Inr True"
  shows "\<exists>ip ps. get_or (lit ''input_params'') (JDict []) doc = Inr ip \<and> get_or (lit ''params'') (JDict []) ip = Inr ps \<and>
    get_or (lit ''params_hash'') (JStr []) ip = Inr (JStr (params_hash_hex ps))"
  using assms by (auto simp: check_params_def verify_params_hash_def verdict_def res_simps eq_str_def split: if_splits)

lemma fields_accepted:
  assumes "verdict (check_fields doc) = Inr True"
  shows "\<exists>att cmp s p ov ts. get_or (lit ''attestation'') (JDict []) doc = Inr att \<and>
    get_or (lit ''computation'') (JDict []) doc = Inr cmp \<and> get_or (lit ''payload_hex'') (JStr []) att = Inr (JStr s) \<and>
    length s = 226 \<and> fromhex s = Some p \<and> p \<noteq> [] \<and> uint (p ! 0) = 1 \<and>
    get_or (lit ''output_value'') JNull cmp = Inr ov \<and> eq_int ov (int_from_bytes (slice 65 73 p)) \<and>
    get_or (lit ''timestamp_utc'') JNull cmp = Inr ts \<and> eq_int ts (int_from_bytes (slice 73 81 p))"
proof -
  have "verify_payload_fields doc = Inr []"
    using assms by (auto simp: check_fields_def verdict_def res_simps split: if_splits)
  then show ?thesis
    by (auto simp: verify_payload_fields_def Let_def res_simps py_fromhex_def split: if_splits json.splits option.splits list.splits)
qed

lemma decode_hex_ok:
  "decode_hex_field k att = Inr b \<Longrightarrow> \<exists>s. index (lit k) att = Inr (JStr s) \<and> fromhex s = Some b"
proof -
  assume "decode_hex_field k att = Inr b"
  then obtain v where v: "index (lit k) att = Inr v" "(case v of JStr s \<Rightarrow> py_fromhex s
     | _ \<Rightarrow> raise TypeError [T ''fromhex() argument must be str'']) = Inr b" by (auto simp: decode_hex_field_def res_simps)
  then obtain s where "v = JStr s" "py_fromhex s = Inr b" by (cases v) (auto simp: raise_def)
  with v(1) show ?thesis by (auto simp: py_fromhex_def raise_def split: option.splits)
qed

lemma signature_accepted:
  assumes "verdict (check_signature (Some C) True doc) = Inr True"
  shows "\<exists>att s a b p pk sg. get_or (lit ''attestation'') (JDict []) doc = Inr att \<and>
    index (lit ''public_key'') att = Inr (JStr a) \<and> fromhex a = Some pk \<and>
    index (lit ''signature'') att = Inr (JStr b) \<and> fromhex b = Some sg \<and>
    index (lit ''payload_hex'') att = Inr (JStr s) \<and> fromhex s = Some p \<and>
    ed_public_ok C pk \<and> ed_verify C pk sg p"
proof -
  have v: "verify_signature (Some C) doc = Inr SigValid"
    using assms by (auto simp: check_signature_def verdict_def res_simps)
  then obtain att where a: "get_or (lit ''attestation'') (JDict []) doc = Inr att"
    by (auto simp: verify_signature_def res_simps)
  obtain pk sg p where d: "decode_hex_field ''public_key'' att = Inr pk" "decode_hex_field ''signature'' att = Inr sg"
    "decode_hex_field ''payload_hex'' att = Inr p"
    using v a by (cases "decode_hex_field ''public_key'' att"; cases "decode_hex_field ''signature'' att";
        cases "decode_hex_field ''payload_hex'' att") (auto simp: verify_signature_def split: if_splits)
  have "ed_public_ok C pk \<and> ed_verify C pk sg p" using v a d by (auto simp: verify_signature_def split: if_splits)
  then show ?thesis using a d[THEN decode_hex_ok] by blast
qed

text \<open>The same conditions suffice: the converses of the lemmas above.\<close>

lemma get_or_present:
  "get_or k dflt v = Inr x \<Longrightarrow> x \<noteq> dflt \<Longrightarrow> index k v = Inr x"
  by (cases v) (auto simp: get_or_def index_def dict_at_def raise_def split: option.splits)

lemma params_accept:
  assumes "get_or (lit ''input_params'') (JDict []) doc = Inr ip" "get_or (lit ''params'') (JDict []) ip = Inr ps"
    "get_or (lit ''params_hash'') (JStr []) ip = Inr (JStr (params_hash_hex ps))"
  shows "verdict (check_params doc) = Inr True"
proof -
  have h: "index (lit ''params_hash'') ip = Inr (JStr (params_hash_hex ps))"
    by (rule get_or_present[OF assms(3)]) (simp add: params_hash_hex_def flip: length_0_conv)
  then have "ip \<noteq> JDict []" by (auto simp: dict_at_def raise_def)
  then have i: "index (lit ''input_params'') doc = Inr ip" by (rule get_or_present[OF assms(1)])
  show ?thesis using assms h i by (simp add: check_params_def verify_params_hash_def eq_str_def py_head_def)
qed

lemma fields_accept:
  assumes "get_or (lit ''attestation'') (JDict []) doc = Inr att" "get_or (lit ''computation'') (JDict []) doc = Inr cmp"
    "get_or (lit ''payload_hex'') (JStr []) att = Inr (JStr s)" "length s = 226" "fromhex s = Some p" "p \<noteq> []"
    "uint (p ! 0) = 1" "get_or (lit ''output_value'') JNull cmp = Inr ov" "eq_int ov (int_from_bytes (slice 65 73 p))"
    "get_or (lit ''timestamp_utc'') JNull cmp = Inr ts" "eq_int ts (int_from_bytes (slice 73 81 p))"
  shows "verdict (check_fields doc) = Inr True"
proof -
  obtain b bs where b: "p = b # bs" using assms(6) by (cases p) auto
  have "verify_payload_fields doc = Inr []"
    unfolding verify_payload_fields_def using assms b by (simp add: py_len_def py_fromhex_def Let_def)
  then show ?thesis by (simp add: check_fields_def)
qed

lemma signature_accept:
  assumes "get_or (lit ''attestation'') (JDict []) doc = Inr att" "index (lit ''public_key'') att = Inr (JStr a)"
    "fromhex a = Some pk" "index (lit ''signature'') att = Inr (JStr b)" "fromhex b = Some sg"
    "index (lit ''payload_hex'') att = Inr (JStr s)" "fromhex s = Some p" "ed_public_ok C pk" "ed_verify C pk sg p"
  shows "verdict (check_signature (Some C) True doc) = Inr True"
  using assms by (simp add: check_signature_def verify_signature_def decode_hex_field_def py_fromhex_def)

text \<open>The script check stops a run only with an exception.\<close>

lemma get_or_any: "get_or k dflt v = Inr x \<Longrightarrow> \<exists>y. get_or k' dflt' v = Inr y"
  by (cases v) (simp_all add: get_or_def raise_def)

lemma script_returns:
  "(\<exists>outs. check_script doc = Inr outs) \<longleftrightarrow> (\<exists>gs preview. get_or (lit ''gee_script'') (JDict []) doc = Inr gs \<and>
     get_or (lit ''source_preview'') JNull gs = Inr preview \<and>
     (if truthy preview then \<exists>x. preview = JStr x \<and> valid_text x else True))" (is "?l \<longleftrightarrow> ?r")
proof
  assume ?l
  then obtain outs gs preview where g: "get_or (lit ''gee_script'') (JDict []) doc = Inr gs"
    "get_or (lit ''source_preview'') JNull gs = Inr preview"
    "(if truthy preview then bindE (verify_script_hash doc) (\<lambda>result. Inr (case result of
         Some True \<Rightarrow> [ScriptMatches] | Some False \<Rightarrow> [ScriptMismatch] | None \<Rightarrow> []))
      else bindE (get_or (lit ''asset_path'') (js ''N/A'') gs) (\<lambda>ap.
       bindE (get_or (lit ''version_tag'') (js ''N/A'') gs) (\<lambda>vt. Inr [ScriptUnchecked ap vt]))) = Inr outs"
    unfolding check_script_def by (elim bindE_ok[THEN iffD1, elim_format] exE conjE) (rule that)
  have "\<exists>x. preview = JStr x \<and> valid_text x" if t: "truthy preview"
  proof -
    have "preview \<noteq> JNull" using t by (auto simp: truthy_def)
    with g(2) have "get_or (lit ''source_preview'') (JStr []) gs = Inr preview"
      by (cases gs) (auto simp: get_or_def raise_def split: option.splits)
    moreover obtain result where "verify_script_hash doc = Inr result" using g(3) t by (auto simp: res_simps)
    ultimately obtain b where "(case preview of JStr x \<Rightarrow> utf8_encode x
        | _ \<Rightarrow> raise AttributeError [T ''object has no attribute '', Q [lit ''encode'']]) = Inr b"
      using g(1) t by (auto simp: verify_script_hash_def res_simps)
    then show ?thesis using utf8_encode_ok by (cases preview) (auto simp: raise_def)
  qed
  with g(1,2) show ?r by auto
next
  assume ?r
  then obtain gs preview where g: "get_or (lit ''gee_script'') (JDict []) doc = Inr gs"
    "get_or (lit ''source_preview'') JNull gs = Inr preview"
    "if truthy preview then \<exists>x. preview = JStr x \<and> valid_text x else True" by blast
  obtain kvs where gs: "gs = JDict kvs" using g(2) by (cases gs) (auto simp: get_or_def raise_def)
  show ?l
  proof (cases "truthy preview")
    case True
    obtain x where x: "preview = JStr x" "valid_text x" using g(3) unfolding if_P[OF True] by blast
    then have "x \<noteq> []" using True by (simp add: truthy_def)
    obtain b where b: "utf8_encode x = Inr b" using x(2) utf8_encode_ok by blast
    have m: "map_of kvs (lit ''source_preview'') = Some (JStr x)"
      using g(2) gs x(1) by (cases "map_of kvs (lit ''source_preview'')") auto
    have "\<exists>result. verify_script_hash doc = Inr result"
      unfolding verify_script_hash_def g(1) gs bindE.simps get_or_dict m using x \<open>x \<noteq> []\<close> b by (simp add: truthy_def)
    then show ?thesis unfolding check_script_def g(1,2) bindE.simps using True by auto
  next
    case False
    then show ?thesis using g(1,2) gs by (simp add: check_script_def)
  qed
qed

text \<open>C7: with the signature check, the tool accepts a document exactly when it passes the validation, its
  parameter hash is that of its parameters, the 113 bytes its payload decodes to are signed under its
  own public key and hold its value, its time and schema version 1, and a script preview, where there
  is one, is a text. The document's feed, its script hash and the parameter hash inside the payload
  occur in no other condition: a document whose feed, script hash or parameter hash differs from the
  signed payload, or whose preview does not hash to its script hash, is accepted all the same.\<close>

theorem acceptance_means:
  "(\<exists>outs. verify_record (Some C) V True doc = Inr (outs, True)) \<longleftrightarrow>
    validate_provenance_record V doc = Inr () \<and>
    (\<exists>ip ps. get_or (lit ''input_params'') (JDict []) doc = Inr ip \<and> get_or (lit ''params'') (JDict []) ip = Inr ps \<and>
       get_or (lit ''params_hash'') (JStr []) ip = Inr (JStr (params_hash_hex ps))) \<and>
    (\<exists>att cmp s p a pk b sg ov ts. get_or (lit ''attestation'') (JDict []) doc = Inr att \<and>
       get_or (lit ''computation'') (JDict []) doc = Inr cmp \<and>
       index (lit ''payload_hex'') att = Inr (JStr s) \<and> length s = 226 \<and> fromhex s = Some p \<and>
       index (lit ''public_key'') att = Inr (JStr a) \<and> fromhex a = Some pk \<and>
       index (lit ''signature'') att = Inr (JStr b) \<and> fromhex b = Some sg \<and>
       ed_public_ok C pk \<and> ed_verify C pk sg p \<and> p \<noteq> [] \<and> uint (p ! 0) = 1 \<and>
       get_or (lit ''output_value'') JNull cmp = Inr ov \<and> eq_int ov (int_from_bytes (slice 65 73 p)) \<and>
       get_or (lit ''timestamp_utc'') JNull cmp = Inr ts \<and> eq_int ts (int_from_bytes (slice 73 81 p))) \<and>
    (\<exists>gs preview. get_or (lit ''gee_script'') (JDict []) doc = Inr gs \<and>
       get_or (lit ''source_preview'') JNull gs = Inr preview \<and>
       (if truthy preview then \<exists>x. preview = JStr x \<and> valid_text x else True))"
  (is "?l \<longleftrightarrow> ?valid \<and> ?params \<and> ?signed \<and> ?script")
proof
  assume ?l
  then have "verdict (verify_record (Some C) V True doc) = Inr True" unfolding verdict_accepts .
  then have v: "verdict (check_schema V doc) = Inr True" "verdict (check_params doc) = Inr True"
    "verdict (check_fields doc) = Inr True" "verdict (check_signature (Some C) True doc) = Inr True"
    "\<exists>outs. check_script doc = Inr outs"
    unfolding verify_record_verdict by (auto simp: bindE_ok)
  from fields_accepted[OF v(3)] obtain att cmp s p ov ts where f: "get_or (lit ''attestation'') (JDict []) doc = Inr att"
    "get_or (lit ''computation'') (JDict []) doc = Inr cmp" "get_or (lit ''payload_hex'') (JStr []) att = Inr (JStr s)"
    "length s = 226" "fromhex s = Some p" "p \<noteq> []" "uint (p ! 0) = 1"
    "get_or (lit ''output_value'') JNull cmp = Inr ov" "eq_int ov (int_from_bytes (slice 65 73 p))"
    "get_or (lit ''timestamp_utc'') JNull cmp = Inr ts" "eq_int ts (int_from_bytes (slice 73 81 p))" by blast
  from signature_accepted[OF v(4)] f(1) obtain s2 a b p2 pk sg where g:
    "index (lit ''public_key'') att = Inr (JStr a)" "fromhex a = Some pk"
    "index (lit ''signature'') att = Inr (JStr b)" "fromhex b = Some sg"
    "index (lit ''payload_hex'') att = Inr (JStr s2)" "fromhex s2 = Some p2" "ed_public_ok C pk" "ed_verify C pk sg p2"
    by auto
  have "s2 = s" using get_index[OF g(5)] f(3) by simp
  with f g have ?signed by auto
  then show "?valid \<and> ?params \<and> ?signed \<and> ?script"
    using schema_accepts[OF v(1)] params_accepted[OF v(2)] v(5) unfolding script_returns by blast
next
  assume r: "?valid \<and> ?params \<and> ?signed \<and> ?script"
  then have s: ?valid ?params ?signed ?script by simp_all
  have "verdict (check_schema V doc) = Inr True" using s(1) by (simp add: check_schema_def)
  moreover have "verdict (check_params doc) = Inr True" using s(2) params_accept by blast
  moreover from s(3) have "verdict (check_fields doc) = Inr True \<and> verdict (check_signature (Some C) True doc) = Inr True"
    by (elim exE conjE) (rule conjI[OF fields_accept[OF _ _ get_index] signature_accept]; assumption)
  moreover have "\<exists>outs. check_script doc = Inr outs" using s(4) unfolding script_returns .
  ultimately have "verdict (verify_record (Some C) V True doc) = Inr True"
    unfolding verify_record_verdict by auto
  then show ?l unfolding verdict_accepts .
qed

text \<open>A record that claims another feed and another script hash than its signed payload is accepted.\<close>

lemma foreign_claims_accepted:
  assumes "ed25519_laws (d_crypto D)" "process D B g w = (Inr (att, tx, r), w')"
    "prov_to_dict (unsubmitted r\<lparr>feed := JStr f, version_hash := JStr h\<rparr>) = Inr d"
  shows "\<exists>outs. verify_record (Some (d_crypto D)) None True d = Inr (outs, True)"
proof -
  from process_ok[OF assms(2)] obtain sh w1 t r0 cid where p: "script_hash_of g = Inr sh"
    "attest (d_crypto D) (b_signer B) sh (ParamsDict (g_params g)) (g_output g) (g_time g) (g_feed g) = Inr att"
    "single_record g sh att t = Inr r0" "publish D B att r0 w1 = (Inr (cid, tx, r), w')" by blast
  note a = attested[OF assms(1) p(2)]
  note s = single_record_ok[OF p(3) a(4)]
  from publish_ok[OF p(4)] have u: "unsubmitted r = r0" using s by (auto simp: unsubmitted_def)
  let ?r = "r0\<lparr>feed := JStr f, version_hash := JStr h\<rparr>"
  have d: "prov_to_dict ?r = Inr d" using assms(3) u by simp
  have v: "valid_text (take 512 (g_source g))"
    using p(1) utf8_encode_ok[of "g_source g"]
    by (auto simp: script_hash_of_def res_simps valid_text_def list_all_iff dest: in_set_takeD)
  have o: "g_output g = output_value (att_payload att)" "g_time g = timestamp_utc (att_payload att)" using a(3) by auto
  have "lightweight_validate d = Inr []"
    by (subst own_record_validates[OF d]) (use s a p(3) in \<open>auto simp: single_record_def res_simps\<close>)
  then have "verdict (verify_record (Some (d_crypto D)) None True d) = Inr True"
    by (rule accepts_own[OF d, of "att_payload att" "public_key att" "signature att"])
      (use s[unfolded o] a v in \<open>auto simp: verify_def mk_verifier_def raise_def split: if_splits\<close>)
  then show ?thesis unfolding verdict_accepts .
qed

section \<open>Exit codes\<close>

lemma simulated_not_found:
  assumes "get_ipfs_client env None = Simulated" "cid \<noteq> []"
  shows "fst (load_source env rep http fs (FromCid cid) w) = Inr (Exits 2)"
  using assms by (simp add: load_source_def load_from_ipfs_def fetch_provenance_record_def sim_client_def sim_get_def raise_def)

lemma load_file_exits:
  "load_from_file fs path = Inr (Exits n) \<longleftrightarrow> (fs path = None \<and> n = 2) \<or>
     (\<exists>text e. fs path = Some (Inr text) \<and> loads text = Inl e \<and> ekind e = JSONDecodeError \<and> n = 3)"
proof (cases "fs path")
  case (Some x)
  show ?thesis
  proof (cases x)
    case (Inr t)
    with Some show ?thesis by (cases "loads t") (auto simp: load_from_file_def)
  qed (simp add: load_from_file_def Some)
qed (auto simp: load_from_file_def)

lemma load_ipfs_exits:
  "fst (load_from_ipfs env rep http cid w) = Inr (Exits n) \<Longrightarrow> n = 2"
  by (auto simp: load_from_ipfs_def Let_def split_beta split: sum.splits if_splits)

lemma load_exits:
  "fst (load_source env rep http fs inp w) = Inr (Exits n) \<Longrightarrow> n = 2 \<or> n = 3"
  "fst (load_source env rep http fs inp w) = Inr (Exits 3) \<longleftrightarrow> (\<exists>path text e. inp = FromFile path \<and>
     fs path = Some (Inr text) \<and> loads text = Inl e \<and> ekind e = JSONDecodeError)"
  by (cases inp; auto simp: load_source_def load_file_exits raise_def dest: load_ipfs_exits split: if_splits)+

text \<open>C37: the verify command ends with 0 exactly when the record was loaded and accepted, with 3 exactly
  for a file that is not JSON, and otherwise with 1 or 2: 1 also for a record that fails the schema
  validation, 2 for a missing file, and 2 for every identifier on the simulated backend, whose store
  is new and empty in each run.\<close>

theorem tool_exit_codes:
  fixes w :: 'w and C :: "'k ed25519 option" and V env rep http fs cs
  defines "run inp \<equiv> tool_main C V env rep http fs (Verify inp cs) w"
    and "found inp \<equiv> fst (load_source env rep http fs inp w)"
  shows "run inp \<in> {0, 1, 2, 3} \<and>
    (run inp = 0 \<longleftrightarrow> (\<exists>doc outs. found inp = Inr (Loaded doc) \<and> verify_record C V cs doc = Inr (outs, True))) \<and>
    (run inp = 3 \<longleftrightarrow> (\<exists>path text e. inp = FromFile path \<and> fs path = Some (Inr text) \<and>
       loads text = Inl e \<and> ekind e = JSONDecodeError)) \<and>
    (found inp = Inr (Loaded doc) \<and> validate_provenance_record V doc \<noteq> Inr () \<longrightarrow> run inp = 1) \<and>
    (fs path = None \<longrightarrow> run (FromFile path) = 2) \<and>
    (cid \<noteq> [] \<and> get_ipfs_client env None = Simulated \<longrightarrow> run (FromCid cid) = 2)"
proof -
  have r: "run s = (case found s of Inl e \<Rightarrow> 1 | Inr (Exits n) \<Rightarrow> n
     | Inr (Loaded d) \<Rightarrow> (case verdict (verify_record C V cs d) of Inr True \<Rightarrow> 0 | _ \<Rightarrow> 1))" for s
    by (auto simp: run_def found_def tool_main_def verify_status_def cmd_verify_def with_record_def exit_status_def
        verdict_def res_simps split: sum.splits loaded.splits bool.splits)
  have n: "n = 2 \<or> n = 3" if "found s = Inr (Exits n)" for s n
    using that unfolding found_def by (rule load_exits(1))
  have three: "found s = Inr (Exits 3) \<longleftrightarrow> (\<exists>path text e. s = FromFile path \<and>
     fs path = Some (Inr text) \<and> loads text = Inl e \<and> ekind e = JSONDecodeError)" for s
    unfolding found_def by (rule load_exits(2))
  have acc: "verdict (verify_record C V cs d) = Inr True \<longleftrightarrow> (\<exists>outs. verify_record C V cs d = Inr (outs, True))" for d
    by (rule verdict_accepts)
  have bad: "verdict (verify_record C V cs d) \<noteq> Inr True" if "validate_provenance_record V d \<noteq> Inr ()" for d
    using that schema_accepts[of V d] unfolding verify_record_verdict by (auto simp: bindE_ok)
  have "found (FromFile path) = Inr (Exits 2)" if "fs path = None"
    using that by (simp add: found_def load_source_def load_from_file_def)
  then have "fs path = None \<longrightarrow> run (FromFile path) = 2" by (simp add: r)
  moreover have "found (FromCid cid) = Inr (Exits 2)" if "cid \<noteq> []" "get_ipfs_client env None = Simulated"
    unfolding found_def by (rule simulated_not_found) (use that in simp_all)
  then have "cid \<noteq> [] \<and> get_ipfs_client env None = Simulated \<longrightarrow> run (FromCid cid) = 2" by (simp add: r)
  moreover have "run inp \<in> {0, 1, 2, 3} \<and> (run inp = 3 \<longleftrightarrow> found inp = Inr (Exits 3)) \<and>
    (run inp = 0 \<longleftrightarrow> (\<exists>d. found inp = Inr (Loaded d) \<and> verdict (verify_record C V cs d) = Inr True)) \<and>
    (found inp = Inr (Loaded doc) \<and> validate_provenance_record V doc \<noteq> Inr () \<longrightarrow> run inp = 1)"
  proof (cases "found inp")
    case (Inr l)
    show ?thesis
    proof (cases l)
      case (Exits k)
      then show ?thesis using Inr n[of inp k] by (auto simp: r)
    next
      case (Loaded d)
      show ?thesis
        using Inr Loaded bad[of d] by (cases "verdict (verify_record C V cs d)") (auto simp: r split: bool.splits)
    qed
  qed (simp add: r)
  ultimately show ?thesis unfolding three acc by blast
qed

lemma tool_exit_codes_witness:
  "tool_main (None :: unit ed25519 option) None (\<lambda>_. None) (\<lambda>_. []) (\<lambda>r w. (Inr [], w)) (\<lambda>_. None)
     (Verify (FromCid (lit ''bafk'')) True) () = 2"
proof -
  have "get_ipfs_client (\<lambda>_. None) None = Simulated" by (simp add: get_ipfs_client_def env_or_def)
  then show ?thesis
    using tool_exit_codes[where cid = "lit ''bafk''" and env = "\<lambda>_. None" and C = "None :: unit ed25519 option" and
        V = None and rep = "\<lambda>_. []" and http = "\<lambda>r w. (Inr [], w)" and fs = "\<lambda>_. None" and cs = True and w = "()"]
    by simp
qed

section \<open>What is printed reads back\<close>

lemma blank_newline: "blank (newline n)"
  by (simp add: newline_def is_ws_def list_all_iff)

lemma laid_out_pretty: "laid_out v (pretty n v)"
proof (induction v arbitrary: n)
  case (JList xs)
  let ?nl = "newline (n + 1)"
  have "xs \<noteq> [] \<Longrightarrow> elems_laid_out xs (join ([] @ 44 # ?nl) (map (pretty (n + 1)) xs) @ newline n)"
    using JList blank_newline by (intro elems_joined) auto
  then show ?case using elems[OF blank_newline, of xs _ "n + 1"] no_elems[of "[]"] by (cases "xs = []") (fastforce simp: lit_def)+
next
  case (JDict kvs)
  let ?nl = "newline (n + 1)"
  have "laid_out v (pretty (n + 1) v)" if "(k, v) \<in> set kvs" for k v using JDict[of "(k, v)" v] that by (simp add: snds.simps)
  then have "kvs \<noteq> [] \<Longrightarrow> members_laid_out kvs
      (join ([] @ 44 # ?nl) (map (\<lambda>(k, v). json_string k @ 58 # [32] @ pretty (n + 1) v) kvs) @ newline n)"
    using blank_newline by (intro members_joined) (auto simp: is_ws_def)
  then show ?case using members[OF blank_newline, of kvs _ "n + 1"] no_members[of "[]"]
    by (cases "kvs = []") (fastforce simp: lit_def comp_def case_prod_beta')+
qed (simp_all add: atoms)

lemma loads_pretty: "json_ok v \<Longrightarrow> blank b \<Longrightarrow> loads (pretty n v @ b) = Inr v"
  using loads_laid_out[OF laid_out_pretty, of v "[]" b] by simp

text \<open>C33: the text that the dump command prints of a record, stored in a file, is for every command the
  record it was printed from: it is verified with the same status, shown alike and dumped alike.\<close>

theorem dump_stands_for_record:
  assumes "json_ok doc" "fst (load_source env rep http fs so w) = Inr (Loaded doc)"
    and "cmd_dump (fst (load_source env rep http fs so w)) = Inr (Inr printed)"
    and "fs' path = Some (Inr (printed @ [10]))"
  shows "tool_main C V env' rep http' fs' (Verify (FromFile path) b) w' = tool_main C V env rep http fs (Verify so b) w \<and>
    cmd_verify C V b (load_from_file fs' path) = cmd_verify C V b (Inr (Loaded doc)) \<and>
    cmd_show rep (load_from_file fs' path) = cmd_show rep (Inr (Loaded doc)) \<and>
    cmd_dump (load_from_file fs' path) = Inr (Inr printed)"
proof -
  have p: "printed = pretty 0 doc" using assms(2,3) by (simp add: cmd_dump_def with_record_def)
  have "loads (printed @ [10]) = Inr doc" unfolding p by (rule loads_pretty[OF assms(1)]) (simp add: is_ws_def)
  then have l: "load_from_file fs' path = Inr (Loaded doc)" using assms(4) by (simp add: load_from_file_def)
  moreover have "load_source env' rep http' fs' (FromFile path) w' = (load_from_file fs' path, w')" by (simp add: load_source_def)
  ultimately show ?thesis using assms(2) p by (simp add: tool_main_def cmd_dump_def with_record_def)
qed

lemma dump_stands_for_record_witness:
  "\<exists>printed. cmd_dump (load_from_file (\<lambda>path. if path = lit ''a'' then Some (Inr (dumps (js ''x''))) else None) (lit ''a'')) = Inr (Inr printed) \<and>
     cmd_dump (load_from_file (\<lambda>path. if path = lit ''b'' then Some (Inr (printed @ [10])) else None) (lit ''b'')) = Inr (Inr printed)"
proof -
  let ?fs = "\<lambda>path. if path = lit ''a'' then Some (Inr (dumps (js ''x''))) else None"
  have ok: "json_ok (js ''x'')" by (simp add: js_def valid_literal)
  then have "loads (dumps (js ''x'')) = Inr (js ''x'')" using loads_dumps[OF ok] by (simp add: js_def)
  then have l: "fst (load_source (\<lambda>_. None) (\<lambda>_. []) (\<lambda>_ (w :: unit). (Inr [], w)) ?fs (FromFile (lit ''a'')) ()) =
      Inr (Loaded (js ''x''))" by (simp add: load_source_def load_from_file_def)
  have d: "cmd_dump (fst (load_source (\<lambda>_. None) (\<lambda>_. []) (\<lambda>_ (w :: unit). (Inr [], w)) ?fs (FromFile (lit ''a'')) ())) =
      Inr (Inr (pretty 0 (js ''x'')))" unfolding l by (simp add: cmd_dump_def with_record_def)
  let ?fs' = "\<lambda>path. if path = lit ''b'' then Some (Inr (pretty 0 (js ''x'') @ [10])) else None"
  have f: "?fs' (lit ''b'') = Some (Inr (pretty 0 (js ''x'') @ [10]))" by simp
  have "cmd_dump (load_from_file ?fs' (lit ''b'')) = Inr (Inr (pretty 0 (js ''x'')))"
    by (rule dump_stands_for_record[OF ok l d, of ?fs' "lit ''b''", OF f, THEN conjunct2, THEN conjunct2, THEN conjunct2])
  then show ?thesis using d by (intro exI[of _ "pretty 0 (js ''x'')"]) (simp add: load_source_def)
qed

end
