(* ===== verification/Verify_Text.thy ===== *)
theory Verify_Text
  imports Verify_Tool_Properties
begin

text \<open>
  What \<open>tools/verify_provenance.py\<close> prints: the texts of the \<open>verify\<close> and \<open>show\<close> commands with their
  headings, rules, blank lines and colours, one text for each call of \<open>print\<close>. They are those of a
  run that no exception ends. \<open>rep\<close> and \<open>reps\<close> show containers, \<open>reason\<close> is the text of the
  exception the cryptography package raises for an invalid signature.
\<close>

section \<open>Colours\<close>

definition no_color :: "bool \<Rightarrow> pystr option \<Rightarrow> bool" where
  "no_color tty var \<longleftrightarrow> \<not> tty \<or> (case var of Some s \<Rightarrow> s \<noteq> [] | None \<Rightarrow> False)"

definition painted :: "string \<Rightarrow> bool \<Rightarrow> pystr \<Rightarrow> pystr" where
  "painted code nc s = (if nc then s else 27 # lit ''['' @ lit code @ lit ''m'' @ s @ 27 # lit ''[0m'')"

definition green :: "bool \<Rightarrow> pystr \<Rightarrow> pystr" where
  "green = painted ''32''"

definition red :: "bool \<Rightarrow> pystr \<Rightarrow> pystr" where
  "red = painted ''31''"

definition yellow :: "bool \<Rightarrow> pystr \<Rightarrow> pystr" where
  "yellow = painted ''33''"

definition bold :: "bool \<Rightarrow> pystr \<Rightarrow> pystr" where
  "bold = painted ''1''"

definition ok_text :: "bool \<Rightarrow> pystr \<Rightarrow> pystr" where
  "ok_text nc msg = lit ''  '' @ green nc [10003] @ 32 # msg"

definition fail_text :: "bool \<Rightarrow> pystr \<Rightarrow> pystr" where
  "fail_text nc msg = lit ''  '' @ red nc [10007] @ 32 # msg"

definition warn_text :: "bool \<Rightarrow> pystr \<Rightarrow> pystr" where
  "warn_text nc msg = lit ''  '' @ yellow nc (lit ''!'') @ 32 # msg"

section \<open>The verify command\<close>

definition field_text :: "(json \<Rightarrow> pystr) \<Rightarrow> field_error \<Rightarrow> pystr" where
  "field_text rep e = (case e of
     PayloadHexLength n \<Rightarrow> lit ''payload_hex length '' @ dec_int n @ 32 # 8800 # lit '' 226''
   | OutputDiffers stored expected \<Rightarrow>
       lit ''payload output_value='' @ dec_int stored @ 32 # 8800 # lit '' record output_value='' @ str_of rep expected
   | TimestampDiffers stored expected \<Rightarrow>
       lit ''payload timestamp='' @ dec_int stored @ 32 # 8800 # lit '' record timestamp='' @ str_of rep expected
   | VersionDiffers ver \<Rightarrow> lit ''payload schema_version='' @ dec_int ver @ 32 # 8800 # lit '' 1'')"

definition sig_text :: "(pystr list \<Rightarrow> pystr) \<Rightarrow> pystr \<Rightarrow> sig_result \<Rightarrow> pystr" where
  "sig_text reps reason r = (case r of
     SigValid \<Rightarrow> lit ''Ed25519 signature valid''
   | SigInvalid \<Rightarrow> lit ''Ed25519 signature INVALID: '' @ reason
   | SigUndecodable e \<Rightarrow> lit ''Cannot decode attestation fields: '' @ exn_str reps e
   | SigNoLibrary \<Rightarrow> lit ''cryptography library not available; skipping signature check'')"

definition outcome_texts ::
    "(json \<Rightarrow> pystr) \<Rightarrow> (pystr list \<Rightarrow> pystr) \<Rightarrow> pystr \<Rightarrow> bool \<Rightarrow> outcome \<Rightarrow> pystr list" where
  "outcome_texts rep reps reason nc out = (case out of
     SchemaConforms \<Rightarrow> [ok_text nc (lit ''Record conforms to provenance JSON Schema v1'')]
   | SchemaFailed es \<Rightarrow> [fail_text nc (lit ''Schema validation failed: '' @ reps es)]
   | ParamsMatch s \<Rightarrow> [ok_text nc (lit ''params_hash matches canonical JSON: '' @ s @ [8230])]
   | ParamsMismatch v \<Rightarrow> [fail_text nc (lit ''params_hash mismatch (stored='' @ str_of rep v @ 8230 # lit '')'')]
   | FieldsConsistent \<Rightarrow> [ok_text nc (lit ''Payload bytes encode correct output_value, timestamp, schema_version'')]
   | FieldFailed e \<Rightarrow> [fail_text nc (field_text rep e)]
   | ScriptMatches \<Rightarrow> [ok_text nc (lit ''script preview SHA-256 matches version_hash'')]
   | ScriptMismatch \<Rightarrow> [warn_text nc (lit ''script_hash in record does not match preview SHA-256''),
       warn_text nc (lit ''(preview may be truncated '' @ 8212 # lit '' full source needed for definitive check)'')]
   | ScriptUnchecked asset tag \<Rightarrow> [warn_text nc (lit ''source_preview not present; cannot verify script hash from preview''),
       warn_text nc (lit ''Script asset: '' @ str_of rep asset @ lit ''  tag: '' @ str_of rep tag)]
   | SigChecked r \<Rightarrow> [if r = SigValid then ok_text nc (sig_text reps reason r) else fail_text nc (sig_text reps reason r)]
   | SigSkipped pk \<Rightarrow> [warn_text nc (lit ''Signature check skipped (pass --check-sig to verify).'' @ 10 #
       lit ''     Public key: '' @ str_of rep pk @ [8230])])"

text \<open>The heading an outcome stands under.\<close>

definition headings :: "string list" where
  "headings = [''1. Schema validation'', ''2. Input parameters hash'', ''3. Attestation payload field consistency'',
     ''4. GEE script version hash'', ''5. Ed25519 signature'']"

definition heading_of :: "outcome \<Rightarrow> string" where
  "heading_of out = headings ! (case out of
     SchemaConforms \<Rightarrow> 0 | SchemaFailed _ \<Rightarrow> 0 | ParamsMatch _ \<Rightarrow> 1 | ParamsMismatch _ \<Rightarrow> 1
   | FieldsConsistent \<Rightarrow> 2 | FieldFailed _ \<Rightarrow> 2 | ScriptMatches \<Rightarrow> 3 | ScriptMismatch \<Rightarrow> 3 | ScriptUnchecked _ _ \<Rightarrow> 3
   | SigChecked _ \<Rightarrow> 4 | SigSkipped _ \<Rightarrow> 4)"

definition source_title :: "source \<Rightarrow> pystr" where
  "source_title so = (case so of
     FromCid cid \<Rightarrow> lit ''Fetching provenance record from IPFS: '' @ cid
   | FromFile path \<Rightarrow> lit ''Loading provenance record from file: '' @ path)"

definition summary_text :: "bool \<Rightarrow> bool \<Rightarrow> pystr" where
  "summary_text nc all_ok =
     (if all_ok then green nc (lit ''  All checks passed '' @ [10003]) else red nc (lit ''  One or more checks FAILED '' @ [10007]))"

definition verify_texts ::
    "(json \<Rightarrow> pystr) \<Rightarrow> (pystr list \<Rightarrow> pystr) \<Rightarrow> pystr \<Rightarrow> bool \<Rightarrow> source \<Rightarrow> outcome list \<Rightarrow> bool \<Rightarrow> pystr list" where
  "verify_texts rep reps reason nc so outs all_ok =
     [bold nc (source_title so), []] @
     concat (map (\<lambda>h. bold nc (lit h) # concat (map (outcome_texts rep reps reason nc) (filter (\<lambda>out. heading_of out = h) outs)) @ [[]])
       headings) @
     [bold nc (lit ''Summary''), summary_text nc all_ok]"

section \<open>The show command\<close>

text \<open>The lines of \<open>show_record\<close> between rules; all but its first line are rows, which are indented, or
  headings.\<close>

definition show_texts :: "bool \<Rightarrow> pystr list \<Rightarrow> pystr list" where
  "show_texts nc shown =
     (let rule = replicate 70 9472 in
      [rule, bold nc (hd shown), rule] @ map (\<lambda>s. if hd s = 32 then s else bold nc (10 # s)) (tl shown) @ [rule])"

section \<open>The status and the texts\<close>

fun failing :: "outcome \<Rightarrow> bool" where
  "failing (SchemaFailed es) = True"
| "failing (ParamsMismatch v) = True"
| "failing (FieldFailed e) = True"
| "failing (SigChecked r) = (r \<noteq> SigValid)"
| "failing out = False"

lemma text_case: "(case v of JStr s \<Rightarrow> f s | _ \<Rightarrow> raise k m) = Inr x \<longleftrightarrow> (\<exists>s. v = JStr s \<and> f s = Inr x)"
  by (cases v) (auto simp: res_simps)

lemma loaded_case:
  "(case l of Exits n \<Rightarrow> Inr (Inl n) | Loaded doc \<Rightarrow> bindE (f doc) (\<lambda>x. Inr (Inr x))) = Inr (Inr y) \<longleftrightarrow>
    (\<exists>doc. l = Loaded doc \<and> f doc = Inr y)"
  by (cases l) (auto simp: res_simps)

lemma script_result:
  "out \<in> set (case r of Some True \<Rightarrow> [ScriptMatches] | Some False \<Rightarrow> [ScriptMismatch] | None \<Rightarrow> []) \<Longrightarrow> \<not> failing out"
  by (cases r) (auto split: bool.splits)

lemma check_failing:
  "check_schema V doc = Inr (outs, b) \<Longrightarrow> b \<longleftrightarrow> (\<forall>out \<in> set outs. \<not> failing out)"
  "check_params doc = Inr (outs, b) \<Longrightarrow> b \<longleftrightarrow> (\<forall>out \<in> set outs. \<not> failing out)"
  "check_fields doc = Inr (outs, b) \<Longrightarrow> b \<longleftrightarrow> (\<forall>out \<in> set outs. \<not> failing out)"
  "check_script doc = Inr outs \<Longrightarrow> \<forall>out \<in> set outs. \<not> failing out"
  "check_signature C cs doc = Inr (outs, b) \<Longrightarrow> b \<longleftrightarrow> (\<forall>out \<in> set outs. \<not> failing out)"
proof -
  show "check_schema V doc = Inr (outs, b) \<Longrightarrow> b \<longleftrightarrow> (\<forall>out \<in> set outs. \<not> failing out)"
    by (auto simp: check_schema_def split: sum.splits if_splits)
  show "check_params doc = Inr (outs, b) \<Longrightarrow> b \<longleftrightarrow> (\<forall>out \<in> set outs. \<not> failing out)"
    by (auto simp: check_params_def res_simps text_case split: if_splits)
  show "check_fields doc = Inr (outs, b) \<Longrightarrow> b \<longleftrightarrow> (\<forall>out \<in> set outs. \<not> failing out)"
    by (auto simp: check_fields_def res_simps neq_Nil_conv split: if_splits)
  show "check_script doc = Inr outs \<Longrightarrow> \<forall>out \<in> set outs. \<not> failing out"
    using script_result by (fastforce simp: check_script_def bindE_ok split: if_splits)
  show "check_signature C cs doc = Inr (outs, b) \<Longrightarrow> b \<longleftrightarrow> (\<forall>out \<in> set outs. \<not> failing out)"
    by (auto simp: check_signature_def res_simps split: if_splits)
qed

lemma verdict_failing:
  assumes "verify_record C V cs doc = Inr (outs, b)"
  shows "b \<longleftrightarrow> (\<forall>out \<in> set outs. \<not> failing out)"
proof -
  from assms obtain p1 p2 p3 o4 p5 where c: "check_schema V doc = Inr p1" "check_params doc = Inr p2"
    "check_fields doc = Inr p3" "check_script doc = Inr o4" "check_signature C cs doc = Inr p5"
    and o: "fst p1 @ fst p2 @ fst p3 @ o4 @ fst p5 = outs" "(snd p1 \<and> snd p2 \<and> snd p3 \<and> snd p5) = b"
    unfolding verify_record_def bindE_ok split_beta sum.inject prod.inject by (elim exE conjE) (rule that)
  show ?thesis
    using check_failing(1)[of V doc "fst p1" "snd p1"] check_failing(2)[of doc "fst p2" "snd p2"]
      check_failing(3)[of doc "fst p3" "snd p3"] check_failing(4)[OF c(4)] check_failing(5)[of C cs doc "fst p5" "snd p5"] c
    unfolding o(1)[symmetric] o(2)[symmetric] by auto
qed

lemmas marks = painted_def green_def red_def yellow_def bold_def ok_text_def fail_text_def warn_text_def

lemma mark_neq: "ok_text nc m \<noteq> fail_text nc m'" "warn_text nc m \<noteq> fail_text nc m'"
  by (simp_all add: marks lit_def)

lemma bold_neq: "s = [] \<or> hd s \<noteq> 32 \<Longrightarrow> bold nc s \<noteq> fail_text nc m"
  by (cases s) (auto simp: marks lit_def)

lemma fails_shown: "(\<exists>m. fail_text nc m \<in> set (outcome_texts rep reps reason nc out)) \<longleftrightarrow> failing out"
  by (cases out) (auto simp: outcome_texts_def mark_neq mark_neq[symmetric])

lemma heading_listed: "heading_of out \<in> set headings"
  by (cases out) (simp_all add: heading_of_def headings_def)

lemma fails_listed:
  "(\<exists>m. fail_text nc m \<in> set (verify_texts rep reps reason nc so outs all_ok)) \<longleftrightarrow> (\<exists>out \<in> set outs. failing out)"
proof -
  have h: "bold nc (lit h) \<noteq> fail_text nc m" if "h \<in> set headings" for h m
    using that by (intro bold_neq) (auto simp: headings_def lit_def)
  have t: "bold nc (source_title so) \<noteq> fail_text nc m" "bold nc (lit ''Summary'') \<noteq> fail_text nc m" for m
    by (intro bold_neq; cases so; simp add: source_title_def lit_def)+
  have s: "summary_text nc all_ok \<noteq> fail_text nc m" "[] \<noteq> fail_text nc m" for m
    by (simp_all add: summary_text_def marks lit_def)
  have "fail_text nc m \<in> set (verify_texts rep reps reason nc so outs all_ok) \<longleftrightarrow>
      (\<exists>out \<in> set outs. fail_text nc m \<in> set (outcome_texts rep reps reason nc out))" for m
    unfolding verify_texts_def using heading_listed by (auto simp: t[symmetric] s[symmetric] h[symmetric])
  then show ?thesis using fails_shown by blast
qed

text \<open>C34: whatever the record holds and whether or not there are colours, the verify command exits with 0
  exactly when its last text is the one that all checks passed, and exactly when none of its texts
  is marked as a failure.\<close>

theorem verify_texts_tell_status:
  assumes "cmd_verify C V cs (fst (load_source env rep http fs so w)) = Inr (Inr (outs, all_ok))"
  shows "(tool_main C V env rep http fs (Verify so cs) w = 0 \<longleftrightarrow>
      last (verify_texts rep reps reason nc so outs all_ok) = green nc (lit ''  All checks passed '' @ [10003])) \<and>
    (tool_main C V env rep http fs (Verify so cs) w = 0 \<longleftrightarrow>
      (\<forall>m. fail_text nc m \<notin> set (verify_texts rep reps reason nc so outs all_ok))) \<and>
    tool_main C V env rep http fs (Verify so cs) w \<in> {0, 1}"
proof -
  have m: "tool_main C V env rep http fs (Verify so cs) w = (if all_ok then 0 else 1)"
    using assms by (simp add: tool_main_def verify_status_def exit_status_def)
  from assms obtain doc where "verify_record C V cs doc = Inr (outs, all_ok)"
    by (auto simp: cmd_verify_def with_record_def bindE_ok[of "fst _"] loaded_case)
  from verdict_failing[OF this] fails_listed have "all_ok \<longleftrightarrow>
      (\<forall>m. fail_text nc m \<notin> set (verify_texts rep reps reason nc so outs all_ok))" by blast
  moreover have "last (verify_texts rep reps reason nc so outs all_ok) = summary_text nc all_ok" by (simp add: verify_texts_def)
  moreover have "red nc (lit ''  One or more checks FAILED '' @ [10007]) \<noteq> green nc (lit ''  All checks passed '' @ [10003])"
    by (simp add: marks lit_def)
  ultimately show ?thesis using m by (auto simp: summary_text_def)
qed

lemma empty_record_fails: "\<exists>outs. verify_record C None False (JDict []) = Inr (outs, False)"
proof -
  have s: "\<exists>o1 b1. check_schema None (JDict []) = Inr (o1, b1)"
    by (simp add: check_schema_def validate_provenance_record_def lightweight_validate_def get_or_def missing_def bad_length_def
        aggregation_errors_def eq_str_def eq_int_def validation_failed_def has_key_def raise_def) (rule exI[of _ False], simp)
  have "length (params_hash_hex (JDict [])) = 64" by (simp add: params_hash_hex_def)
  then have h: "\<not> eq_str (JStr []) (params_hash_hex (JDict []))" by (auto simp: eq_str_def)
  have p: "\<exists>o2 b2. check_params (JDict []) = Inr (o2, b2)"
    using h by (simp add: check_params_def verify_params_hash_def get_or_def py_head_def js_def) (rule exI[of _ False], simp)
  have f: "check_fields (JDict []) = Inr ([FieldFailed (PayloadHexLength 0)], False)"
    by (simp add: check_fields_def verify_payload_fields_def get_or_def py_len_def)
  have c: "\<exists>o4. check_script (JDict []) = Inr o4" by (simp add: check_script_def get_or_def truthy_def)
  have g: "\<exists>o5 b5. check_signature C False (JDict []) = Inr (o5, b5)"
    by (simp add: check_signature_def get_or_def py_head_def js_def) blast
  show ?thesis using s p f c g unfolding verify_record_def by (elim exE) simp
qed

lemma verify_texts_tell_status_witness:
  "\<exists>outs. cmd_verify (None :: unit ed25519 option) None False (Inr (Loaded (JDict []))) = Inr (Inr (outs, False)) \<and>
     (\<exists>m. fail_text True m \<in> set (verify_texts (\<lambda>_. []) (\<lambda>_. []) [] True (FromFile (lit ''a'')) outs False))"
proof -
  let ?fs = "\<lambda>path. if path = lit ''a'' then Some (Inr (dumps (JDict []))) else None"
  let ?tool = "tool_main (None :: unit ed25519 option) None (\<lambda>_. None) (\<lambda>_. []) (\<lambda>_ w. (Inr [], w)) ?fs (Verify (FromFile (lit ''a'')) False) ()"
  have "loads (dumps (JDict [])) = Inr (JDict [])" using loads_dumps[of "JDict []"] by simp
  then have l: "fst (load_source (\<lambda>_. None) (\<lambda>_. []) (\<lambda>_ w. (Inr [], w)) ?fs (FromFile (lit ''a'')) ()) = Inr (Loaded (JDict []))"
    by (simp add: load_source_def load_from_file_def del: dumps.simps)
  obtain outs where "verify_record (None :: unit ed25519 option) None False (JDict []) = Inr (outs, False)"
    using empty_record_fails by blast
  then have c: "cmd_verify (None :: unit ed25519 option) None False (Inr (Loaded (JDict []))) = Inr (Inr (outs, False))"
    by (simp add: cmd_verify_def with_record_def)
  then have "cmd_verify (None :: unit ed25519 option) None False
      (fst (load_source (\<lambda>_. None) (\<lambda>_. []) (\<lambda>_ w. (Inr [], w)) ?fs (FromFile (lit ''a'')) ())) = Inr (Inr (outs, False))"
    unfolding l .
  from verify_texts_tell_status[OF this, where reps = "\<lambda>_. []" and reason = "[]" and nc = True] show ?thesis using c l
    by (auto simp: tool_main_def verify_status_def exit_status_def)
qed

end
