(* ===== verification/Py_Form.thy ===== *)
theory Py_Form
  imports Py_Text Json_Parse
begin

text \<open>
  Text from outside: \<open>str.strip\<close>, \<open>int(text)\<close>, \<open>str.split\<close> on one
  character, and \<open>urllib.parse.unquote_plus\<close>.
\<close>

section \<open>Numbers\<close>

text \<open>The characters \<open>str.isspace\<close> accepts.\<close>

definition is_space :: "nat \<Rightarrow> bool" where
  "is_space c \<longleftrightarrow> (9 \<le> c \<and> c \<le> 13) \<or> (28 \<le> c \<and> c \<le> 32) \<or> c \<in> {0x85, 0xA0, 0x1680} \<or>
     (0x2000 \<le> c \<and> c \<le> 0x200A) \<or> c \<in> {0x2028, 0x2029, 0x202F, 0x205F, 0x3000}"

definition strip_by :: "(nat \<Rightarrow> bool) \<Rightarrow> pystr \<Rightarrow> pystr" where
  "strip_by P s = rev (dropWhile P (rev (dropWhile P s)))"

definition py_strip :: "pystr \<Rightarrow> pystr" where
  "py_strip = strip_by is_space"

text \<open>\<open>int(text)\<close> for ASCII text: white space around, a sign, digits with single
  underscores between them, at most 4300 digits.\<close>

fun grouped_digits :: "pystr \<Rightarrow> bool" where
  "grouped_digits [] = False"
| "grouped_digits [c] = is_digit c"
| "grouped_digits (c # d # s) = (is_digit c \<and> (if d = 95 then grouped_digits s else grouped_digits (d # s)))"

definition py_int_text :: "pystr \<Rightarrow> int res" where
  "py_int_text s =
     (let t = strip_by (\<lambda>c. (9 \<le> c \<and> c \<le> 13) \<or> c = 32) s;
          (neg, u) = (if t \<noteq> [] \<and> hd t = 45 then (True, tl t)
            else if t \<noteq> [] \<and> hd t = 43 then (False, tl t) else (False, t));
          ds = filter (\<lambda>c. c \<noteq> 95) u in
      if grouped_digits u \<and> length ds \<le> 4300
      then Inr (if neg then - digits_val ds else digits_val ds)
      else raise ValueError [T ''invalid literal for int() with base 10: '', Q [s]])"

text \<open>\<open>format(n, ",")\<close>.\<close>

fun group3 :: "pystr \<Rightarrow> pystr" where
  "group3 (a # b # c # d # s) = a # b # c # 44 # group3 (d # s)"
| "group3 s = s"

definition with_commas :: "int \<Rightarrow> pystr" where
  "with_commas n = (if n < 0 then [45] else []) @ rev (group3 (rev (dec_nat \<bar>n\<bar>)))"

section \<open>Forms\<close>

fun split_on :: "nat \<Rightarrow> pystr \<Rightarrow> pystr list" where
  "split_on sep [] = [[]]"
| "split_on sep (c # s) = (if c = sep then [] # split_on sep s
     else (case split_on sep s of [] \<Rightarrow> [[c]] | p # ps \<Rightarrow> (c # p) # ps))"

text \<open>\<open>unquote_to_bytes\<close> of an ASCII text: a percent sign that does not start two hexadecimal
  digits stays.\<close>

fun unquote_bytes :: "pystr \<Rightarrow> bytes" where
  "unquote_bytes [] = []"
| "unquote_bytes (c # s) =
     (case s of
        a # b # r \<Rightarrow> (case (c = 37, hex_val a, hex_val b) of
            (True, Some x, Some y) \<Rightarrow> of_nat (16 * x + y) # unquote_bytes r
          | _ \<Rightarrow> of_nat c # unquote_bytes s)
      | _ \<Rightarrow> of_nat c # unquote_bytes s)"

text \<open>Each run of ASCII characters is decoded on its own. Where Python puts replacement
  characters for bytes that are not UTF-8, the model says nothing (\<open>None\<close>).\<close>

function unquote_runs :: "pystr \<Rightarrow> pystr option" where
  "unquote_runs s = (if s = [] then Some []
     else if hd s < 128 then
       (case utf8_decode (unquote_bytes (takeWhile (\<lambda>c. c < 128) s)) of
          Inl e \<Rightarrow> None
        | Inr t \<Rightarrow> map_option ((@) t) (unquote_runs (dropWhile (\<lambda>c. c < 128) s)))
     else map_option ((@) [hd s]) (unquote_runs (tl s)))"
  by pat_completeness auto
termination
proof (relation "measure length")
  fix s :: pystr and x and t
  assume "s \<noteq> []" "hd s < 128"
  then have "dropWhile (\<lambda>c. c < 128) s = dropWhile (\<lambda>c. c < 128) (tl s)" by (cases s) auto
  then show "(dropWhile (\<lambda>c. c < 128) s, s) \<in> measure length"
    using \<open>s \<noteq> []\<close> length_dropWhile_le[of "\<lambda>c. c < 128" "tl s"] by (cases s) auto
qed auto

definition unquote_plus :: "pystr \<Rightarrow> pystr option" where
  "unquote_plus s = unquote_runs (map (\<lambda>c. if c = 43 then 32 else c) s)"

text \<open>The loop over the parts of a form: a later value of a name replaces the earlier one.\<close>

fun read_form :: "pystr list \<Rightarrow> pystr dict \<Rightarrow> pystr dict option" where
  "read_form [] acc = Some acc"
| "read_form (part # rest) acc =
     (if 61 \<in> set part
      then (case (unquote_plus (takeWhile (\<lambda>c. c \<noteq> 61) part), unquote_plus (tl (dropWhile (\<lambda>c. c \<noteq> 61) part))) of
          (Some k, Some v) \<Rightarrow> read_form rest (dict_set k v acc)
        | _ \<Rightarrow> None)
      else read_form rest acc)"

definition form_field :: "pystr dict \<Rightarrow> string \<Rightarrow> string \<Rightarrow> pystr" where
  "form_field fields k d = (case map_of fields (lit k) of Some v \<Rightarrow> v | None \<Rightarrow> lit d)"

text \<open>\<open>int(text)\<close>, for texts of ASCII characters.\<close>

definition form_int :: "pystr \<Rightarrow> int res option" where
  "form_int s = (if ascii_text s then Some (py_int_text s) else None)"

end
