(* ===== verification/Cli.thy ===== *)
theory Cli
  imports Adapters Bridge Verify_Tool Py_Form
begin

text \<open>
  \<open>oracle_bridge/cli.py\<close>: the dry-run client and the four commands. A command returns the
  lines it prints and its exit code; messages on the error stream are left out, and so is the
  argument parser: a command starts from its parsed arguments. The database file is the queue it
  holds, None when it does not exist. Files, the network, the clock, key generation and the
  Prometheus client are parameters.
\<close>

section \<open>Dry run\<close>

definition dry_run_client :: "'w sub_client" where
  "dry_run_client = \<lparr>sc_price = (\<lambda>att. liftW (Inr (lit ''dry-run-tx''))),
     sc_price_cid = (\<lambda>att cid. liftW (Inr (lit ''dry-run-tx''))),
     sc_commit = (\<lambda>fid h. liftW (Inr (lit ''dry-run-tx''))),
     sc_reveal = (\<lambda>att salt. liftW (Inr (lit ''dry-run-tx'')))\<rparr>"

section \<open>Replaying the dead-letter queue\<close>

text \<open>What the adapters of the command need from outside.\<close>

record 'w net =
  n_sys :: "'w sys"
  n_prom :: "'w prom"
  n_rep :: "pystr list \<Rightarrow> pystr"
  n_epoch :: "pystr \<Rightarrow> int res"
  n_http :: "'w api"

text \<open>\<open>lower()\<close> as far as it matters for finding a word of ASCII letters: no other character
  has such a word as a part of its lower case.\<close>

definition lower :: "pystr \<Rightarrow> pystr" where
  "lower s = map (\<lambda>c. if 65 \<le> c \<and> c \<le> 90 then c + 32 else c) s"

datatype feed_kind = XpansivFeed | ToucanFeed | UnknownFeed

definition feed_kind_of :: "pystr \<Rightarrow> feed_kind" where
  "feed_kind_of fid =
     (if py_in (lit ''xpansiv'') (lower fid) \<or> py_in (lit ''cbl'') (lower fid) then XpansivFeed
      else if py_in (lit ''toucan'') (lower fid) \<or> fid = lit ''BCT'' \<or> fid = lit ''NCT'' then ToucanFeed
      else UnknownFeed)"

text \<open>\<open>adapter.replay_dlq_entry(entry.id)\<close> on a new adapter over the same database.\<close>

definition replay_with ::
    "'w net \<Rightarrow> feed_kind \<Rightarrow> dlq_entry \<Rightarrow> dlq \<Rightarrow> 'w \<Rightarrow> bool res \<times> dlq \<times> 'w" where
  "replay_with E kind entry db w =
     (let fid = e_feed entry;
          (name, price) = (if kind = XpansivFeed
            then (lit ''XpansivCBLAdapter'', xpansiv_fetch_price (n_sys E) (n_epoch E) (n_http E) default_xpansiv fid)
            else (lit ''ToucanProtocolAdapter'', toucan_fetch_price (n_sys E) (n_epoch E) (n_http E) default_toucan fid));
          (r, a) = replay_dlq_entry (n_sys E) (n_prom E) (n_rep E) name price (e_id entry)
            (mk_adapter (default_config fid) (Some db) w) in
      (r, (case a_dlq a of Some q \<Rightarrow> q | None \<Rightarrow> db), a_world a))"

text \<open>One round of the loop: the lines, whether the entry is counted as a success, and the database
  and world after it. The value \<open>replay_dlq_entry\<close> returns is not looked at.\<close>

definition replay_one :: "'w net \<Rightarrow> dlq_entry \<Rightarrow> dlq \<Rightarrow> 'w \<Rightarrow> (pystr list \<times> bool) res \<times> dlq \<times> 'w" where
  "replay_one E entry db w =
     (let intro = lit ''Replaying DLQ entry '' @ dec_int (e_id entry) @ lit '' (feed='' @ e_feed entry @ lit '')...''; kind = feed_kind_of (e_feed entry) in
      if kind = UnknownFeed
      then (Inr ([intro, lit ''  Unknown feed type for '' @ e_feed entry @ lit '', skipping''], False), db, w)
      else (case replay_with E kind entry db w of
        (Inr _, db', w') \<Rightarrow>
          (Inr ([intro, lit ''  Entry '' @ dec_int (e_id entry) @ lit '' replayed successfully''], True), db', w')
      | (Inl exc, db', w') \<Rightarrow>
          (if is_Exception exc
           then Inr ([intro, lit ''  Entry '' @ dec_int (e_id entry) @ lit '' replay failed: '' @ exn_str (n_rep E) exc], False)
           else Inl exc, db', w')))"

fun replay_loop ::
    "'w net \<Rightarrow> dlq_entry list \<Rightarrow> dlq \<Rightarrow> 'w \<Rightarrow> (pystr list \<times> nat) res \<times> dlq \<times> 'w" where
  "replay_loop E [] db w = (Inr ([], 0), db, w)"
| "replay_loop E (entry # entries) db w = (case replay_one E entry db w of
     (Inl exc, db1, w1) \<Rightarrow> (Inl exc, db1, w1)
   | (Inr (l1, counted), db1, w1) \<Rightarrow> (case replay_loop E entries db1 w1 of
       (Inl exc, db2, w2) \<Rightarrow> (Inl exc, db2, w2)
     | (Inr (l2, n), db2, w2) \<Rightarrow> (Inr (l1 @ l2, (if counted then n + 1 else n)), db2, w2)))"

definition entry_line :: "dlq_entry \<Rightarrow> pystr" where
  "entry_line e = lit ''  ['' @ dec_int (e_id e) @ lit ''] feed='' @ e_feed e @ lit '' attempts='' @
     dec_int (e_attempts e) @ lit '' error='' @ take 80 (e_error e)"

definition selected :: "int option \<Rightarrow> dlq \<Rightarrow> dlq_entry list" where
  "selected which db = (case which of
     None \<Rightarrow> list_unreplayed db | Some i \<Rightarrow> filter (\<lambda>e. e_id e = i) (list_unreplayed db))"

definition cmd_replay_dlq ::
    "'w net \<Rightarrow> int option \<Rightarrow> bool \<Rightarrow> dlq option \<Rightarrow> 'w \<Rightarrow> (pystr list \<times> int) res \<times> dlq option \<times> 'w" where
  "cmd_replay_dlq E which dry_run file w = (case file of
     None \<Rightarrow> (Inr ([], 1), None, w)
   | Some db \<Rightarrow>
     (let entries = selected which db; n = int (length entries) in
      if entries = []
      then (Inr (if which \<noteq> None then ([], 1) else ([lit ''No unreplayed DLQ entries found.''], 0)), file, w)
      else if dry_run
      then (Inr ((lit ''Found '' @ dec_int n @ lit '' unreplayed DLQ entr'' @ (if n = 1 then lit ''y'' else lit ''ies'') @ lit '':'')
             # map entry_line entries, 0), file, w)
      else (case replay_loop E entries db w of
        (Inl exc, db', w') \<Rightarrow> (Inl exc, Some db', w')
      | (Inr (ls, k), db', w') \<Rightarrow>
          (Inr (ls @ [lit ''Replayed '' @ dec_int (int k) @ lit ''/'' @ dec_int n @ lit '' DLQ entries successfully.''],
             if k = length entries then 0 else 1), Some db', w'))))"

section \<open>Statistics\<close>

definition cmd_dlq_stats :: "pystr \<Rightarrow> bool \<Rightarrow> dlq option \<Rightarrow> pystr list \<times> int" where
  "cmd_dlq_stats path as_json file = (case file of
     None \<Rightarrow> ([], 1)
   | Some db \<Rightarrow>
     (let total = dlq_count db; unreplayed = count_unreplayed db; replayed = total - unreplayed in
      ((if as_json
        then [pretty 0 (JDict [(lit ''total_entries'', JInt total), (lit ''replayed'', JInt replayed),
               (lit ''unreplayed'', JInt unreplayed), (lit ''db_path'', JStr path)])]
        else [lit ''Dead-letter queue stats for '' @ path @ lit '':'', lit ''  Total entries:  '' @ dec_int total,
              lit ''  Replayed:       '' @ dec_int replayed, lit ''  Unreplayed:     '' @ dec_int unreplayed]), 0)))"

section \<open>The metrics server\<close>

text \<open>The loop that sleeps until it is interrupted; it may never return.\<close>

partial_function (option) serve :: "'w sys \<Rightarrow> 'w \<Rightarrow> (unit res \<times> 'w) option" where
  "serve Y w = (case sys_sleep Y (Fin 3600) w of
     (Inr _, w') \<Rightarrow> serve Y w'
   | (Inl exc, w') \<Rightarrow> Some ((if ekind exc = KeyboardInterrupt then Inr () else Inl exc), w'))"

definition cmd_start_metrics_server ::
    "'w sys \<Rightarrow> 'w prom \<Rightarrow> int \<Rightarrow> pystr \<Rightarrow> 'w \<Rightarrow> ((pystr list \<times> int) res \<times> 'w) option" where
  "cmd_start_metrics_server Y P port addr w =
     (case start_metrics_server P port addr w of
        (Inl exc, w1) \<Rightarrow> Some (Inl exc, w1)
      | (Inr _, w1) \<Rightarrow> map_option (\<lambda>(r, w2). (bindE r (\<lambda>_. Inr
          ([lit ''Starting Prometheus metrics server on '' @ addr @ lit '':'' @ dec_int port @ lit '' ...'',
            lit ''Metrics server running (press Ctrl+C to stop).'', [10] @ lit ''Metrics server stopped.''], 0)), w2))
          (serve Y w1))"

section \<open>Submitting a results file\<close>

text \<open>
  The pipeline is modelled for entries whose fields have the declared types. An entry with a field
  of another type makes the whole command \<open>None\<close>: the model does not say what it does. So
  does a value that is a text with a character outside ASCII.
\<close>

definition py_int :: "json \<Rightarrow> int option res" where
  "py_int v = (case v of
     JInt i \<Rightarrow> Inr (Some i)
   | JBool b \<Rightarrow> Inr (Some (if b then 1 else 0))
   | JFloat f \<Rightarrow> bindE (int_of_float f) (\<lambda>i. Inr (Some i))
   | JStr s \<Rightarrow> if ascii_text s then bindE (py_int_text s) (\<lambda>i. Inr (Some i)) else Inr None
   | _ \<Rightarrow> raise TypeError [T ''int() argument must be a string, a bytes-like object or a real number''])"

text \<open>One entry of the file, up to the construction of its result.\<close>

definition read_entry :: "'w sys \<Rightarrow> pystr \<Rightarrow> json \<Rightarrow> (gee_result option, 'w) act" where
  "read_entry Y fid entry =
     bindW (liftW (get_or (lit ''script_source'') (js ''// dry-run'') entry)) (\<lambda>src.
     bindW (liftW (get_or (lit ''input_params'') (JDict []) entry)) (\<lambda>ps.
     bindW (liftW (index (lit ''output_value'') entry)) (\<lambda>ov.
     bindW (liftW (py_int ov)) (\<lambda>out.
     bindW (liftW (get_or (lit ''feed_id'') (JStr fid) entry)) (\<lambda>feed_v.
     bindW (liftW (get_or (lit ''timestamp_utc'') JNull entry)) (\<lambda>ts.
     let time = (case ts of JNull \<Rightarrow> Some None | JInt t \<Rightarrow> Some (Some t) | _ \<Rightarrow> None) in
     (case (src, ps, out, feed_v, time) of
        (JStr s, JDict d, Some n, JStr f, Some t) \<Rightarrow>
          bindW (mk_gee_result Y s d n (FStr f) t default_asset (lit ''untagged'')) (\<lambda>g. liftW (Inr (Some g)))
      | _ \<Rightarrow> liftW (Inr None))))))))"

text \<open>The loops over a dictionary and over a list; a later entry of the same source replaces the
  earlier one in its place.\<close>

fun read_dict ::
    "'w sys \<Rightarrow> pystr \<Rightarrow> json dict \<Rightarrow> (pystr \<times> gee_result) list \<Rightarrow> ((pystr \<times> gee_result) list option, 'w) act" where
  "read_dict Y fid [] acc = liftW (Inr (Some acc))"
| "read_dict Y fid ((key, entry) # rest) acc = bindW (read_entry Y fid entry) (\<lambda>g. case g of
     None \<Rightarrow> liftW (Inr None)
   | Some r \<Rightarrow> read_dict Y fid rest (dict_set key r acc))"

fun read_list ::
    "'w sys \<Rightarrow> pystr \<Rightarrow> nat \<Rightarrow> json list \<Rightarrow> (pystr \<times> gee_result) list \<Rightarrow> ((pystr \<times> gee_result) list option, 'w) act" where
  "read_list Y fid idx [] acc = liftW (Inr (Some acc))"
| "read_list Y fid idx (entry # rest) acc =
     bindW (liftW (get_or (lit ''source_id'') (JStr (lit ''source_'' @ dec_int (int idx))) entry)) (\<lambda>source_id.
     bindW (read_entry Y fid entry) (\<lambda>g. case (source_id, g) of
       (JStr key, Some r) \<Rightarrow> read_list Y fid (idx + 1) rest (dict_set key r acc)
     | _ \<Rightarrow> liftW (Inr None)))"

text \<open>The parsed arguments, and what the command needs from outside: \<open>make_ipfs\<close> builds the
  client of the chosen backend (true: local) and \<open>generate\<close> a throwaway key.\<close>

record submit_args =
  sa_feed :: pystr
  sa_results :: pystr
  sa_dry_run :: bool
  sa_key_file :: pystr
  sa_method :: outlier_method
  sa_iqr :: pyfloat
  sa_local :: bool
  sa_json :: bool

record ('k, 'w) submit_env =
  se_deps :: "('k, 'w) deps"
  se_files :: files
  se_ipfs :: "bool \<Rightarrow> 'w ipfs_client"
  se_generate :: "'w \<Rightarrow> 'k \<times> 'w"

definition read_results ::
    "'w sys \<Rightarrow> pystr \<Rightarrow> json \<Rightarrow> ((pystr \<times> gee_result) list option, 'w) act option" where
  "read_results Y fid doc = (case doc of
     JDict kvs \<Rightarrow> Some (read_dict Y fid kvs [])
   | JList xs \<Rightarrow> Some (read_list Y fid 0 xs [])
   | _ \<Rightarrow> None)"

definition default_agg_config :: "outlier_method \<Rightarrow> pyfloat \<Rightarrow> pystr list \<Rightarrow> agg_config res" where
  "default_agg_config meth iqr ids = mk_agg_config ids (map (\<lambda>i. (i, Fin 1)) ids) meth iqr default_mad 1"

definition submit_output :: "bool \<Rightarrow> aggregated \<Rightarrow> attestation \<Rightarrow> pystr \<Rightarrow> json dict res" where
  "submit_output dry result att tx =
     bindE (feed_text (ag_feed result)) (\<lambda>f. Inr [
       (lit ''feed_id'', JStr f),
       (lit ''aggregate_value'', JInt (ag_value result)),
       (lit ''source_values'', int_dict (ag_source_values result)),
       (lit ''weights_used'', float_dict (ag_weights result)),
       (lit ''rejected_sources'', JList (map JStr (ag_rejected result))),
       (lit ''outlier_method'', JStr (ag_outlier result)),
       (lit ''ipfs_cid'', (case ag_cid result of Some c \<Rightarrow> JStr c | None \<Rightarrow> JNull)),
       (lit ''tx_ref'', JStr tx),
       (lit ''attestation_public_key'', JStr (hex (public_key att))),
       (lit ''attestation_signature'', JStr (hex (signature att))),
       (lit ''dry_run'', JBool dry),
       (lit ''timestamp_utc'', JInt (ag_time result))])"

definition summary_lines :: "(pystr list \<Rightarrow> pystr) \<Rightarrow> bool \<Rightarrow> pystr \<Rightarrow> aggregated \<Rightarrow> attestation \<Rightarrow> pystr \<Rightarrow> pystr list" where
  "summary_lines rep dry f result att tx =
     [lit ''['' @ (if dry then lit ''DRY-RUN'' else lit ''LIVE'') @ lit ''] Oracle submission complete'',
      lit ''  Feed:         '' @ f,
      lit ''  Aggregate:    '' @ dec_int (ag_value result),
      lit ''  Sources:      '' @ dec_int (int (length (ag_source_values result)))] @
     (if ag_rejected result \<noteq> [] then [lit ''  Rejected:     '' @ rep (ag_rejected result)] else []) @
     [lit ''  IPFS CID:     '' @ (case ag_cid result of Some c \<Rightarrow> c | None \<Rightarrow> lit ''None''),
      lit ''  TX ref:       '' @ tx,
      lit ''  Oracle key:   '' @ take 16 (hex (public_key att)) @ [8230]]"

text \<open>The pipeline from the signer on; every Exception of it is a failed run.\<close>

definition run_pipeline ::
    "('k, 'w) submit_env \<Rightarrow> submit_args \<Rightarrow> 'k \<Rightarrow> (pystr \<times> gee_result) list \<Rightarrow> (pystr list \<times> int, 'w) act" where
  "run_pipeline E A signer results =
     bindW (liftW (default_agg_config (sa_method A) (sa_iqr A) (dict_keys results))) (\<lambda>cfg w.
     (case aggregate_and_submit (se_deps E)
          (mk_bridge (se_ipfs E False) signer dry_run_client (Some (se_ipfs E (sa_local A))) (Some cfg)) results w of
        (Inl exc, w') \<Rightarrow> (if is_Exception exc then Inr ([], 1) else Inl exc, w')
      | (Inr (result, att, tx, r), w') \<Rightarrow>
          (bindE (submit_output (sa_dry_run A) result att tx) (\<lambda>out. bindE (feed_text (ag_feed result)) (\<lambda>f.
             Inr (if sa_json A then [pretty 0 (JDict out)]
                  else summary_lines (d_rep (se_deps E)) (sa_dry_run A) f result att tx, 0))), w')))"

definition load_signer :: "('k, 'w) submit_env \<Rightarrow> submit_args \<Rightarrow> ('k option, 'w) act" where
  "load_signer E A =
     (if sa_key_file A \<noteq> [] then liftW (case se_files E (sa_key_file A) of
        None \<Rightarrow> Inr None
      | Some content \<Rightarrow> bindE content (\<lambda>pem. bindE (signer_from_pem (d_crypto (se_deps E)) (Inl pem) None) (\<lambda>k. Inr (Some k))))
      else bindW (readW (se_generate E)) (\<lambda>k. liftW (Inr (Some k))))"

text \<open>\<open>None\<close>: an entry is not of the declared types.\<close>

definition cmd_submit :: "('k, 'w) submit_env \<Rightarrow> submit_args \<Rightarrow> ((pystr list \<times> int) option, 'w) act" where
  "cmd_submit E A = (case se_files E (sa_results A) of
     None \<Rightarrow> liftW (Inr (Some ([], 1)))
   | Some content \<Rightarrow>
     bindW (liftW content) (\<lambda>t. case loads t of
       Inl e \<Rightarrow> if ekind e = JSONDecodeError then liftW (Inr (Some ([], 1))) else liftW (Inl e)
     | Inr doc \<Rightarrow> (case read_results (d_sys (se_deps E)) (sa_feed A) doc of
         None \<Rightarrow> liftW (Inr (Some ([], 1)))
       | Some act \<Rightarrow> bindW act (\<lambda>read. case read of
           None \<Rightarrow> liftW (Inr None)
         | Some results \<Rightarrow>
             if results = [] then liftW (Inr (Some ([], 1)))
             else bindW (load_signer E A) (\<lambda>signer. case signer of
               None \<Rightarrow> liftW (Inr (Some ([], 1)))
             | Some k \<Rightarrow>
                 if \<not> sa_dry_run A then liftW (Inr (Some ([], 1)))
                 else bindW (run_pipeline E A k results) (\<lambda>out. liftW (Inr (Some out))))))))"

section \<open>The entry point\<close>

text \<open>A parsed command line; without a command the help is printed, whose text is left out. The database
  files are found by their paths.\<close>

datatype cli_command =
    Submit submit_args
  | ReplayDlq pystr "int option" bool
  | DlqStats pystr bool
  | StartMetricsServer int pystr
  | NoCommand

type_synonym databases = "pystr \<Rightarrow> dlq option"

text \<open>\<open>None\<close> when the command does not return.\<close>

definition cli_main ::
    "('k, 'w) submit_env \<Rightarrow> 'w net \<Rightarrow> cli_command \<Rightarrow> databases \<Rightarrow> 'w \<Rightarrow>
     ((pystr list \<times> int) option res \<times> databases \<times> 'w) option" where
  "cli_main E N cmd dbs w = (case cmd of
     Submit A \<Rightarrow> (case cmd_submit E A w of (r, w1) \<Rightarrow> Some (r, dbs, w1))
   | ReplayDlq path which dry_run \<Rightarrow> (case cmd_replay_dlq N which dry_run (dbs path) w of
       (r, file, w1) \<Rightarrow> Some (bindE r (\<lambda>out. Inr (Some out)), dbs(path := file), w1))
   | DlqStats path as_json \<Rightarrow> Some (Inr (Some (cmd_dlq_stats path as_json (dbs path))), dbs, w)
   | StartMetricsServer port addr \<Rightarrow> map_option (\<lambda>(r, w1). (bindE r (\<lambda>out. Inr (Some out)), dbs, w1))
       (cmd_start_metrics_server (n_sys N) (n_prom N) port addr w)
   | NoCommand \<Rightarrow> Some (Inr (Some ([], 0)), dbs, w))"

end
