(* ===== verification/Cli_Properties.thy ===== *)
theory Cli_Properties
  imports Cli Adapters_Properties
begin

text \<open>
  What the replay command promises: it loses no entry, and its exit code says whether every entry was
  of a known feed, not whether any of them was replayed.
\<close>

section \<open>Replay\<close>

lemma replay_raises:
  "replay_dlq_entry Y P rep name price i a = (Inl e, a') \<Longrightarrow> \<not> is_Exception e"
  by (auto simp: replay_dlq_entry_def Let_def split: option.splits if_splits prod.splits sum.splits)

lemma adapter_dlq: "a_dlq (mk_adapter config (Some db) w) = Some db"
  by (simp add: mk_adapter_def)

lemma pending_set: "set (list_unreplayed q) = {e \<in> set (rows q). \<not> e_replayed e}"
  by (auto simp: list_unreplayed_def)

lemma pending_after_mark:
  "set (list_unreplayed (mark_replayed i now q)) = {e \<in> set (list_unreplayed q). e_id e \<noteq> i}"
proof -
  have "set (list_unreplayed (mark_replayed i now q)) = set (filter (\<lambda>e. \<not> e_replayed e) (rows (mark_replayed i now q)))"
    by (simp add: list_unreplayed_def)
  then show ?thesis unfolding unreplayed_mark pending_set by auto
qed

text \<open>One replay over a database keeps every pending entry, but possibly the one it is for.\<close>

lemma replay_with_run:
  assumes "replay_with E kind entry db w = (r, db', w')"
  shows "\<exists>name price a. replay_dlq_entry (n_sys E) (n_prom E) (n_rep E) name price (e_id entry)
      (mk_adapter (default_config (e_feed entry)) (Some db) w) = (r, a) \<and>
    db' = (case a_dlq a of Some q \<Rightarrow> q | None \<Rightarrow> db)"
  using assms by (auto simp: replay_with_def Let_def split: prod.splits)

lemma replay_with_keeps:
  assumes "\<forall>w. \<exists>q. fst (sys_time (n_sys E) w) = Fin q" "replay_with E kind entry db w = (r, db', w')"
  shows "{e \<in> set (list_unreplayed db). e_id e \<noteq> e_id entry} \<subseteq> set (list_unreplayed db') \<and>
    (\<forall>e. r = Inl e \<longrightarrow> \<not> is_Exception e)"
proof -
  from replay_with_run[OF assms(2)] obtain name price a where a: "replay_dlq_entry (n_sys E) (n_prom E) (n_rep E)
      name price (e_id entry) (mk_adapter (default_config (e_feed entry)) (Some db) w) = (r, a)"
    and e: "db' = (case a_dlq a of Some q \<Rightarrow> q | None \<Rightarrow> db)" by blast
  have exn: "\<forall>e. r = Inl e \<longrightarrow> \<not> is_Exception e" using replay_raises a by metis
  from replay_cases[OF assms(1) adapter_dlq a]
  show ?thesis
  proof (elim disjE conjE exE)
    fix now assume "r = Inr True" "a_dlq a = Some (mark_replayed (e_id entry) now db)"
    then show ?thesis using e exn by (simp add: pending_after_mark)
  next
    fix q' assume "a_dlq a = Some q'" "set (list_unreplayed db) \<subseteq> set (list_unreplayed q')"
    then show ?thesis using e exn by auto
  qed
qed

text \<open>A replay that returned False left everything pending.\<close>

lemma replay_with_lost:
  assumes "\<forall>w. \<exists>q. fst (sys_time (n_sys E) w) = Fin q" "replay_with E kind entry db w = (Inr False, db', w')"
  shows "set (list_unreplayed db) \<subseteq> set (list_unreplayed db')"
proof -
  from replay_with_run[OF assms(2)] obtain name price a where a: "replay_dlq_entry (n_sys E) (n_prom E) (n_rep E)
      name price (e_id entry) (mk_adapter (default_config (e_feed entry)) (Some db) w) = (Inr False, a)"
    and e: "db' = (case a_dlq a of Some q \<Rightarrow> q | None \<Rightarrow> db)" by blast
  from replay_cases[OF assms(1) adapter_dlq a] e show ?thesis by auto
qed

lemma replay_one_facts:
  assumes "\<forall>w. \<exists>q. fst (sys_time (n_sys E) w) = Fin q" "replay_one E entry db w = (Inr (ls, counted), db', w')"
  shows "{e \<in> set (list_unreplayed db). e_id e \<noteq> e_id entry} \<subseteq> set (list_unreplayed db') \<and>
    (counted \<longleftrightarrow> feed_kind_of (e_feed entry) \<noteq> UnknownFeed)"
proof (cases "feed_kind_of (e_feed entry) = UnknownFeed")
  case True
  then show ?thesis using assms(2) by (auto simp: replay_one_def Let_def)
next
  case False
  obtain r db1 w1 where r: "replay_with E (feed_kind_of (e_feed entry)) entry db w = (r, db1, w1)" by (metis prod.exhaust)
  note k = replay_with_keeps[OF assms(1) r]
  show ?thesis
  proof (cases r)
    case (Inl e)
    then show ?thesis using assms(2) r k False by (simp add: replay_one_def Let_def)
  next
    case (Inr b)
    then show ?thesis using assms(2) r k False by (simp add: replay_one_def Let_def)
  qed
qed

lemma replay_loop_facts:
  assumes "\<forall>w. \<exists>q. fst (sys_time (n_sys E) w) = Fin q" "replay_loop E entries db w = (Inr (ls, k), db', w')"
  shows "{e \<in> set (list_unreplayed db). e_id e \<notin> e_id ` set entries} \<subseteq> set (list_unreplayed db') \<and>
    k = length (filter (\<lambda>e. feed_kind_of (e_feed e) \<noteq> UnknownFeed) entries)"
  using assms(2)
proof (induction entries arbitrary: db w ls k)
  case (Cons entry entries)
  obtain x db1 w1 where o: "replay_one E entry db w = (x, db1, w1)" by (metis prod.exhaust)
  then obtain l1 counted where x: "x = Inr (l1, counted)" using Cons.prems by (cases x) auto
  obtain y db2 w2 where l: "replay_loop E entries db1 w1 = (y, db2, w2)" by (metis prod.exhaust)
  then obtain l2 n where y: "y = Inr (l2, n)" using Cons.prems o x by (cases y) auto
  have e: "k = (if counted then n + 1 else n)" "db2 = db'" "w2 = w'" using Cons.prems o x l y by auto
  note f = replay_one_facts[OF assms(1) o[unfolded x]] and g = Cons.IH[OF l[unfolded y e]]
  show ?case using f g e by auto
qed simp

text \<open>C38: a replay run over at least one entry ends with 0 exactly when every selected entry is of a
  known feed, whatever the replays returned; entries that were not selected are still pending.\<close>

theorem replay_command_reports:
  assumes "\<forall>w. \<exists>q. fst (sys_time (n_sys E) w) = Fin q" "selected which db \<noteq> []"
    "cmd_replay_dlq E which False (Some db) w = (Inr (ls, code), file, w')"
  shows "(code = 0 \<longleftrightarrow> (\<forall>e \<in> set (selected which db). feed_kind_of (e_feed e) \<noteq> UnknownFeed)) \<and>
    code \<in> {0, 1} \<and> (\<exists>db'. file = Some db' \<and>
      {e \<in> set (list_unreplayed db). e_id e \<notin> e_id ` set (selected which db)} \<subseteq> set (list_unreplayed db'))"
proof -
  obtain x db1 w1 where l: "replay_loop E (selected which db) db w = (x, db1, w1)" by (metis prod.exhaust)
  then obtain l1 k where x: "x = Inr (l1, k)" using assms(2,3) by (cases x) (auto simp: cmd_replay_dlq_def Let_def)
  have e: "code = (if k = length (selected which db) then 0 else 1)" "file = Some db1"
    using assms(2,3) l x by (auto simp: cmd_replay_dlq_def Let_def)
  note f = replay_loop_facts[OF assms(1) l[unfolded x]]
  have "k = length (selected which db) \<longleftrightarrow> (\<forall>e \<in> set (selected which db). feed_kind_of (e_feed e) \<noteq> UnknownFeed)"
    using f by (metis (mono_tags, lifting) filter_id_conv length_filter_less less_irrefl)
  then show ?thesis using e f by auto
qed

text \<open>With no network and an interrupted sleep, a Toucan entry is not replayed, and the run ends with 0.\<close>

definition offline :: "unit net" where
  "offline = \<lparr>n_sys = \<lparr>sys_time = (\<lambda>w. (Fin 1000, w)), sys_random = (\<lambda>w. (Fin 0, w)),
       sys_sleep = (\<lambda>d w. (raise RuntimeError [], w)), sys_iso_now = (\<lambda>w. ([], w))\<rparr>,
     n_prom = fake_prom, n_rep = (\<lambda>_. []), n_epoch = (\<lambda>_. Inr 0), n_http = (\<lambda>req w. (ConnFailed [], w))\<rparr>"

definition waiting :: dlq where
  "waiting = snd (enqueue (lit ''BCT'') [] [] 1 [] dlq_empty)"

lemma offline_fetch:
  "toucan_fetch_price (n_sys offline) (n_epoch offline) (n_http offline) default_toucan fid w =
     (raise RuntimeError [T ''Toucan'', T '' API connection failed for '',
        S (base_url default_toucan @ lit ''/pools/'' @ lit ''bct'' @ lit ''/price''), T '': '', S []], w)"
proof -
  have "map_of TOUCAN_POOL_MAP (product default_toucan) = Some (lit ''bct'')"
    by (simp add: TOUCAN_POOL_MAP_def default_toucan_def mk_toucan_def)
  then show ?thesis
    by (simp add: toucan_fetch_price_def offline_def json_body_def raise_def Let_def)
qed

lemma offline_retry:
  assumes "\<And>w. f w = (raise RuntimeError m, w)"
  shows "retry (n_sys offline) f default_retry is_Exception w = (raise RuntimeError [], w)"
proof -
  have "[0..<nat (max_retries default_retry + 1)] = 0 # [1..<4]" by (simp add: default_retry_def upt_rec)
  moreover have "\<exists>d. compute_backoff 0 default_retry (Fin 0) = Inr d"
    by (simp add: compute_backoff_def float_of_int_exact Let_def)
  ultimately show ?thesis
    using assms by (auto simp: retry_def offline_def raise_def is_Exception_def default_retry_def)
qed

lemma offline_replay:
  "\<exists>db'. replay_with offline ToucanFeed entry waiting () = (Inr False, db', ()) \<and>
     set (list_unreplayed waiting) \<subseteq> set (list_unreplayed db')"
proof -
  obtain a where a: "fetch (n_sys offline) (n_prom offline) (n_rep offline) (lit ''ToucanProtocolAdapter'')
      (toucan_fetch_price (n_sys offline) (n_epoch offline) (n_http offline) default_toucan (e_feed entry))
      (mk_adapter (default_config (e_feed entry)) (Some waiting) ()) = (raise RuntimeError [], a)"
    unfolding fetch_def
    by (simp add: offline_retry[OF offline_fetch] mk_adapter_def default_config_def raise_def is_Exception_def)
      (simp add: fetch_failure_def enqueue_failure_def read_fallback_def mk_degraded_def dg_failure_def offline_def
        waiting_def Let_def split: prod.splits)
  then have "fst (replay_with offline ToucanFeed entry waiting ()) = Inr False"
    by (simp add: replay_with_def replay_dlq_entry_def adapter_dlq raise_def is_Exception_def Let_def)
  then obtain db' where r: "replay_with offline ToucanFeed entry waiting () = (Inr False, db', ())"
    by (metis old.unit.exhaust prod.collapse)
  have "\<forall>w. \<exists>q. fst (sys_time (n_sys offline) w) = Fin q" by (simp add: offline_def)
  from replay_with_lost[OF this r] r show ?thesis by auto
qed

lemma replay_command_reports_witness:
  "\<exists>ls db'. cmd_replay_dlq offline None False (Some waiting) () = (Inr (ls, 0), Some db', ()) \<and>
     selected None waiting \<noteq> [] \<and> set (selected None waiting) \<subseteq> set (list_unreplayed db')"
proof -
  have f: "selected None waiting \<noteq> []" "\<forall>e \<in> set (selected None waiting). feed_kind_of (e_feed e) = ToucanFeed"
    by code_simp+
  obtain e where s: "list_unreplayed waiting = [e]" "selected None waiting = [e]"
    by (simp add: selected_def list_unreplayed_def waiting_def enqueue_def dlq_empty_def Let_def)
  obtain db' where r: "replay_with offline ToucanFeed e waiting () = (Inr False, db', ())"
    "set (list_unreplayed waiting) \<subseteq> set (list_unreplayed db')" using offline_replay by blast
  have "\<exists>ls. replay_loop offline [e] waiting () = (Inr (ls, 1), db', ())"
    using r(1) f s by (simp add: replay_one_def Let_def)
  then have "\<exists>ls code. cmd_replay_dlq offline None False (Some waiting) () = (Inr (ls, code), Some db', ())"
    by (auto simp: cmd_replay_dlq_def Let_def s(2) simp del: replay_loop.simps)
  then obtain ls code where c: "cmd_replay_dlq offline None False (Some waiting) () = (Inr (ls, code), Some db', ())" by blast
  have "\<forall>w. \<exists>q. fst (sys_time (n_sys offline) w) = Fin q" by (simp add: offline_def)
  from replay_command_reports[OF this f(1) c] c f r(2) s show ?thesis by auto
qed

end
