(* ===== verification/Arg_Parse.thy ===== *)
theory Arg_Parse
  imports Py_Form
begin

text \<open>
  What the tools use of \<open>argparse\<close> (as of Python 3.11.10): the classification of each argument, options
  with an attached or a following value, abbreviations, help, exclusive groups, required options and
  sub-commands. A run of the parser ends with the help text, with a usage error (exit code 2), or with
  the values of the options that were given; messages are left out. \<open>None\<close> marks what the model does
  not cover: the separator \<open>--\<close>, and characters outside ASCII where digits are looked for.
\<close>

section \<open>Option tables\<close>

datatype arg_kind = HelpOption | Flag | Text | Integer | Floating | Choice "string list"

datatype arg_value = VFlag | VText pystr | VInt int | VFloat pyfloat

record option_spec =
  op_name :: string
  op_kind :: arg_kind
  op_required :: bool
  op_exclusive :: bool

abbreviation optional :: "string \<Rightarrow> arg_kind \<Rightarrow> option_spec" where
  "optional name kind \<equiv> \<lparr>op_name = name, op_kind = kind, op_required = False, op_exclusive = False\<rparr>"

abbreviation required :: "string \<Rightarrow> arg_kind \<Rightarrow> option_spec" where
  "required name kind \<equiv> \<lparr>op_name = name, op_kind = kind, op_required = True, op_exclusive = False\<rparr>"

text \<open>A member of the parser's mutually exclusive group, one of which has to be given.\<close>

abbreviation one_of :: "string \<Rightarrow> arg_kind \<Rightarrow> option_spec" where
  "one_of name kind \<equiv> \<lparr>op_name = name, op_kind = kind, op_required = False, op_exclusive = True\<rparr>"

definition help_options :: "option_spec list" where
  "help_options = [optional ''-h'' HelpOption, optional ''--help'' HelpOption]"

section \<open>Values\<close>

text \<open>\<open>float(text)\<close> for ASCII text: white space around, a sign, an infinity or NaN in any case, or a
  decimal number with single underscores between digits.\<close>

definition ascii_strip_space :: "pystr \<Rightarrow> pystr" where
  "ascii_strip_space = strip_by (\<lambda>c. (9 \<le> c \<and> c \<le> 13) \<or> c = 32)"

definition ascii_lower :: "pystr \<Rightarrow> pystr" where
  "ascii_lower s = map (\<lambda>c. if 65 \<le> c \<and> c \<le> 90 then c + 32 else c) s"

fun drop_underscores :: "bool \<Rightarrow> pystr \<Rightarrow> pystr option" where
  "drop_underscores after_digit [] = Some []"
| "drop_underscores after_digit (c # s) =
     (if c = 95 then (case s of
          d # r \<Rightarrow> if after_digit \<and> is_digit d then map_option ((#) d) (drop_underscores True r) else None
        | [] \<Rightarrow> None)
      else map_option ((#) c) (drop_underscores (is_digit c) s))"

definition decimal_value :: "pystr \<Rightarrow> rat option" where
  "decimal_value u = (let
     ip = takeWhile is_digit u; r = dropWhile is_digit u;
     (fp, r2) = (if r \<noteq> [] \<and> hd r = 46 then (takeWhile is_digit (tl r), dropWhile is_digit (tl r)) else ([], r))
   in if ip @ fp = [] then None
      else map_option (\<lambda>e. of_int (digits_val (ip @ fp)) * pow10 (e - int (length fp)))
        (case r2 of [] \<Rightarrow> Some 0 | c # r3 \<Rightarrow> if c = 69 \<or> c = 101 then exp_val r3 else None))"

definition py_float_text :: "pystr \<Rightarrow> pyfloat res" where
  "py_float_text s =
     (let t = ascii_strip_space s;
          neg = (t \<noteq> [] \<and> hd t = 45);
          u = (if t \<noteq> [] \<and> (hd t = 45 \<or> hd t = 43) then tl t else t) in
      if ascii_lower u \<in> {lit ''inf'', lit ''infinity''} then Inr (if neg then NInf else PInf)
      else if ascii_lower u = lit ''nan'' then Inr NaN
      else (case Option.bind (drop_underscores False u) decimal_value of
          Some x \<Rightarrow> Inr (fl (if neg then - x else x))
        | None \<Rightarrow> raise ValueError [T ''could not convert string to float: '', Q [s]]))"

text \<open>The value of an option from its argument; \<open>Some None\<close> is an invalid one.\<close>

definition convert :: "arg_kind \<Rightarrow> pystr \<Rightarrow> arg_value option option" where
  "convert kind s = (case kind of
     Text \<Rightarrow> Some (Some (VText s))
   | Choice cs \<Rightarrow> Some (if s \<in> lit ` set cs then Some (VText s) else None)
   | Integer \<Rightarrow> map_option (\<lambda>r. case r of Inr n \<Rightarrow> Some (VInt n) | Inl e \<Rightarrow> None) (form_int s)
   | Floating \<Rightarrow> if ascii_text s then Some (case py_float_text s of Inr f \<Rightarrow> Some (VFloat f) | Inl e \<Rightarrow> None) else None
   | _ \<Rightarrow> Some None)"

section \<open>Classifying an argument\<close>

text \<open>\<open>-\\d+\<close> or \<open>-\\d*\\.\\d+\<close>, possibly before a final line break.\<close>

definition negative_number :: "pystr \<Rightarrow> bool" where
  "negative_number s = (s \<noteq> [] \<and> hd s = 45 \<and>
     (let u = (if last s = 10 then butlast (tl s) else tl s); r = dropWhile is_digit u in
      (r = [] \<and> u \<noteq> []) \<or> (r \<noteq> [] \<and> hd r = 46 \<and> tl r \<noteq> [] \<and> list_all is_digit (tl r))))"

datatype arg_class = Value | Known option_spec "pystr option" | Cluster pystr | Unknown | Ambiguous | Uncovered

definition before_eq :: "pystr \<Rightarrow> pystr" where
  "before_eq s = takeWhile (\<lambda>c. c \<noteq> 61) s"

definition attached :: "pystr \<Rightarrow> pystr option" where
  "attached s = (if 61 \<in> set s then Some (tl (dropWhile (\<lambda>c. c \<noteq> 61) s)) else None)"

definition named :: "option_spec list \<Rightarrow> pystr \<Rightarrow> option_spec option" where
  "named opts s = find (\<lambda>sp. lit (op_name sp) = s) opts"

text \<open>\<open>_get_option_tuples\<close>: the options an argument may abbreviate. The help option \<open>-h\<close> is the
  only one with one dash; what follows it in the same argument are more options of one letter.\<close>

definition candidates :: "option_spec list \<Rightarrow> pystr \<Rightarrow> arg_class list" where
  "candidates opts s =
     (if is_prefix [45, 45] s
      then map (\<lambda>sp. Known sp (attached s)) (filter (\<lambda>sp. is_prefix (before_eq s) (lit (op_name sp))) opts)
      else List.map_filter (\<lambda>sp. if lit (op_name sp) = take 2 s then Some (Cluster (drop 2 s))
        else if is_prefix s (lit (op_name sp)) then Some (Known sp None) else None) opts)"

definition classify :: "option_spec list \<Rightarrow> pystr \<Rightarrow> arg_class" where
  "classify opts s =
     (if s = [45, 45] then Uncovered
      else if s = [] \<or> hd s \<noteq> 45 then Value
      else case named opts s of
        Some sp \<Rightarrow> Known sp None
      | None \<Rightarrow>
          if length s = 1 then Value
          else (case (attached s, named opts (before_eq s)) of
            (Some v, Some sp) \<Rightarrow> Known sp (Some v)
          | _ \<Rightarrow> (case candidates opts s of
              [c] \<Rightarrow> c
            | _ # _ # _ \<Rightarrow> Ambiguous
            | [] \<Rightarrow> if \<not> ascii_text s then Uncovered
                else if negative_number s \<or> 32 \<in> set s then Value else Unknown)))"

section \<open>Parsing\<close>

datatype 'a parsed = Help | UsageError | Parsed 'a

text \<open>A help option takes no value. In a cluster the letters after it are looked at before it acts: a dash
  or an equals sign is an error, and a letter that is no option ends the cluster.\<close>

definition help_option :: "pystr option \<Rightarrow> 'a parsed" where
  "help_option v = (if v = None then Help else UsageError)"

fun help_cluster :: "pystr \<Rightarrow> 'a parsed" where
  "help_cluster [] = Help"
| "help_cluster (c # s) =
     (if c = 45 then UsageError
      else if c \<noteq> 104 then Help
      else if s \<noteq> [] \<and> hd s = 61 then UsageError
      else help_cluster s)"

type_synonym given = "(string \<times> arg_value) list"

text \<open>A second member of the exclusive group is an error, the same one again is not.\<close>

definition conflicts :: "option_spec list \<Rightarrow> option_spec \<Rightarrow> given \<Rightarrow> bool" where
  "conflicts opts sp given \<longleftrightarrow> op_exclusive sp \<and>
     (\<exists>other \<in> set opts. op_exclusive other \<and> op_name other \<noteq> op_name sp \<and> op_name other \<in> fst ` set given)"

text \<open>The options of one parser in their order: the values given so far (the last one of an option
  counts) and whether there were arguments nobody takes.\<close>

fun consume ::
    "option_spec list \<Rightarrow> (arg_class \<times> pystr) list \<Rightarrow> given \<Rightarrow> bool \<Rightarrow> (given \<times> bool) parsed option" where
  "consume opts [] given extras = Some (Parsed (given, extras))"
| "consume opts ((Known sp v, _) # rest) given extras = (case op_kind sp of
     HelpOption \<Rightarrow> Some (help_option v)
   | Flag \<Rightarrow> if v = None then consume opts rest ((op_name sp, VFlag) # given) extras else Some UsageError
   | kind \<Rightarrow>
       (case v of
          Some s \<Rightarrow> (case convert kind s of
              None \<Rightarrow> None
            | Some None \<Rightarrow> Some UsageError
            | Some (Some x) \<Rightarrow> if conflicts opts sp given then Some UsageError
                else consume opts rest ((op_name sp, x) # given) extras)
        | None \<Rightarrow> (case rest of
            (Value, s) # rest' \<Rightarrow> (case convert kind s of
              None \<Rightarrow> None
            | Some None \<Rightarrow> Some UsageError
            | Some (Some x) \<Rightarrow> if conflicts opts sp given then Some UsageError
                else consume opts rest' ((op_name sp, x) # given) extras)
          | _ \<Rightarrow> Some UsageError)))"
| "consume opts ((Cluster letters, _) # rest) given extras = Some (help_cluster letters)"
| "consume opts (_ # rest) given extras = consume opts rest given True"

definition satisfied :: "option_spec list \<Rightarrow> given \<Rightarrow> bool" where
  "satisfied opts given \<longleftrightarrow> (\<forall>sp \<in> set opts. op_required sp \<longrightarrow> op_name sp \<in> fst ` set given) \<and>
     ((\<exists>sp \<in> set opts. op_exclusive sp) \<longrightarrow> (\<exists>sp \<in> set opts. op_exclusive sp \<and> op_name sp \<in> fst ` set given))"

text \<open>\<open>parse_known_args\<close> of a parser without positional arguments; every argument is classified before
  the first one is used.\<close>

definition parse_options :: "option_spec list \<Rightarrow> pystr list \<Rightarrow> (given \<times> bool) parsed option" where
  "parse_options own args =
     (let opts = help_options @ own; cs = map (\<lambda>s. (classify opts s, s)) args in
      if Uncovered \<in> fst ` set cs then None
      else if Ambiguous \<in> fst ` set cs then Some UsageError
      else case consume opts cs [] False of
        Some (Parsed (given, extras)) \<Rightarrow> Some (if satisfied opts given then Parsed (given, extras) else UsageError)
      | r \<Rightarrow> r)"

text \<open>The main parser: help, then the sub-command, which takes every argument that is left. Arguments
  that nobody took are an error in the end.\<close>

fun parse_command ::
    "(string \<times> option_spec list) list \<Rightarrow> pystr list \<Rightarrow> bool \<Rightarrow> (string \<times> given) option parsed option" where
  "parse_command cmds [] extras = Some (if extras then UsageError else Parsed None)"
| "parse_command cmds (s # rest) extras = (case classify help_options s of
     Uncovered \<Rightarrow> None
   | Ambiguous \<Rightarrow> Some UsageError
   | Unknown \<Rightarrow> parse_command cmds rest True
   | Known sp v \<Rightarrow> Some (help_option v)
   | Cluster letters \<Rightarrow> Some (help_cluster letters)
   | Value \<Rightarrow> (case find (\<lambda>(name, own). lit name = s) cmds of
       None \<Rightarrow> Some UsageError
     | Some (name, own) \<Rightarrow> (case parse_options own rest of
         None \<Rightarrow> None
       | Some Help \<Rightarrow> Some Help
       | Some UsageError \<Rightarrow> Some UsageError
       | Some (Parsed (given, ignored)) \<Rightarrow> Some (if extras \<or> ignored then UsageError else Parsed (Some (name, given))))))"

section \<open>Reading the values\<close>

definition text_value :: "given \<Rightarrow> string \<Rightarrow> pystr option" where
  "text_value given name = (case map_of given name of Some (VText s) \<Rightarrow> Some s | _ \<Rightarrow> None)"

definition int_value :: "given \<Rightarrow> string \<Rightarrow> int option" where
  "int_value given name = (case map_of given name of Some (VInt n) \<Rightarrow> Some n | _ \<Rightarrow> None)"

definition float_value :: "given \<Rightarrow> string \<Rightarrow> pyfloat option" where
  "float_value given name = (case map_of given name of Some (VFloat f) \<Rightarrow> Some f | _ \<Rightarrow> None)"

definition flag_value :: "given \<Rightarrow> string \<Rightarrow> bool" where
  "flag_value given name \<longleftrightarrow> name \<in> fst ` set given"

definition or_default :: "'a option \<Rightarrow> 'a \<Rightarrow> 'a" where
  "or_default x d = (case x of Some v \<Rightarrow> v | None \<Rightarrow> d)"

end
