(* ===== verification/Command_Lines.thy ===== *)
theory Command_Lines
  imports Arg_Parse Cli
begin

text \<open>
  The argument parsers of the two command-line programs, and the programs from their argument vectors:
  \<open>build_parser\<close> and \<open>main\<close> of \<open>oracle_bridge/cli.py\<close> and of \<open>tools/verify_provenance.py\<close>.
\<close>

section \<open>The command line of the bridge\<close>

definition cli_parser :: "(string \<times> option_spec list) list" where
  "cli_parser = [
     (''submit'', [
       required ''--feed-id'' Text,
       required ''--results-file'' Text,
       optional ''--dry-run'' Flag,
       optional ''--key-file'' Text,
       optional ''--outlier-method'' (Choice [''iqr'', ''mad'', ''none'']),
       optional ''--iqr-multiplier'' Floating,
       optional ''--ipfs-mode'' (Choice [''simulated'', ''local'']),
       optional ''--json'' Flag]),
     (''replay-dlq'', [
       optional ''--db'' Text,
       optional ''--id'' Integer,
       optional ''--dry-run'' Flag]),
     (''dlq-stats'', [
       optional ''--db'' Text,
       optional ''--json'' Flag]),
     (''start-metrics-server'', [
       optional ''--port'' Integer,
       optional ''--addr'' Text])]"

definition outlier_map :: "pystr \<Rightarrow> outlier_method" where
  "outlier_map s = (if s = lit ''mad'' then MAD else if s = lit ''none'' then NONE else IQR)"

text \<open>The attributes of the namespace, with their defaults.\<close>

definition submit_namespace :: "given \<Rightarrow> submit_args" where
  "submit_namespace given = \<lparr>
     sa_feed = or_default (text_value given ''--feed-id'') [],
     sa_results = or_default (text_value given ''--results-file'') [],
     sa_dry_run = flag_value given ''--dry-run'',
     sa_key_file = or_default (text_value given ''--key-file'') [],
     sa_method = outlier_map (or_default (text_value given ''--outlier-method'') (lit ''iqr'')),
     sa_iqr = or_default (float_value given ''--iqr-multiplier'') (Fin (3 / 2)),
     sa_local = (or_default (text_value given ''--ipfs-mode'') (lit ''simulated'') = lit ''local''),
     sa_json = flag_value given ''--json''\<rparr>"

definition cli_namespace :: "(string \<times> given) option \<Rightarrow> cli_command" where
  "cli_namespace parsed = (case parsed of
     None \<Rightarrow> NoCommand
   | Some (command, given) \<Rightarrow>
       if command = ''submit'' then Submit (submit_namespace given)
       else if command = ''replay-dlq'' then ReplayDlq (or_default (text_value given ''--db'') (lit ''oracle_dlq.db''))
         (int_value given ''--id'') (flag_value given ''--dry-run'')
       else if command = ''dlq-stats'' then DlqStats (or_default (text_value given ''--db'') (lit ''oracle_dlq.db''))
         (flag_value given ''--json'')
       else if command = ''start-metrics-server'' then StartMetricsServer (or_default (int_value given ''--port'') 8000)
         (or_default (text_value given ''--addr'') (lit ''0.0.0.0''))
       else NoCommand)"

definition map_parsed :: "('a \<Rightarrow> 'b) \<Rightarrow> 'a parsed \<Rightarrow> 'b parsed" where
  "map_parsed f p = (case p of Help \<Rightarrow> Help | UsageError \<Rightarrow> UsageError | Parsed x \<Rightarrow> Parsed (f x))"

definition cli_parse :: "pystr list \<Rightarrow> cli_command parsed option" where
  "cli_parse argv = map_option (map_parsed cli_namespace) (parse_command cli_parser argv False)"

text \<open>\<open>main(argv)\<close>: help ends the program with 0 and a usage error with 2, before anything is done.\<close>

definition cli_program ::
    "('k, 'w) submit_env \<Rightarrow> 'w net \<Rightarrow> cli_command parsed \<Rightarrow> databases \<Rightarrow> 'w \<Rightarrow>
     ((pystr list \<times> int) option res \<times> databases \<times> 'w) option" where
  "cli_program E N p dbs w = (case p of
     Help \<Rightarrow> Some (Inr (Some ([], 0)), dbs, w)
   | UsageError \<Rightarrow> Some (Inr (Some ([], 2)), dbs, w)
   | Parsed cmd \<Rightarrow> cli_main E N cmd dbs w)"

section \<open>The command line of the verification tool\<close>

definition source_group :: "option_spec list" where
  "source_group = [one_of ''--cid'' Text, one_of ''--file'' Text]"

definition tool_parser :: "(string \<times> option_spec list) list" where
  "tool_parser = [
     (''verify'', source_group @ [optional ''--check-sig'' Flag]),
     (''show'', source_group),
     (''dump'', source_group)]"

definition source_namespace :: "given \<Rightarrow> source" where
  "source_namespace given = (case text_value given ''--cid'' of
     Some cid \<Rightarrow> FromCid cid
   | None \<Rightarrow> FromFile (or_default (text_value given ''--file'') []))"

definition tool_namespace :: "string \<Rightarrow> given \<Rightarrow> command" where
  "tool_namespace command given =
     (if command = ''verify'' then Verify (source_namespace given) (flag_value given ''--check-sig'')
      else if command = ''show'' then Show (source_namespace given)
      else Dump (source_namespace given))"

text \<open>The sub-command of this tool is required.\<close>

definition tool_parse :: "pystr list \<Rightarrow> command parsed option" where
  "tool_parse argv = map_option (\<lambda>p. case p of
       Help \<Rightarrow> Help
     | UsageError \<Rightarrow> UsageError
     | Parsed None \<Rightarrow> UsageError
     | Parsed (Some (command, given)) \<Rightarrow> Parsed (tool_namespace command given))
     (parse_command tool_parser argv False)"

definition tool_program ::
    "'k ed25519 option \<Rightarrow> schema_validator \<Rightarrow> (pystr \<Rightarrow> pystr option) \<Rightarrow> (json \<Rightarrow> pystr) \<Rightarrow> 'w transport \<Rightarrow> files \<Rightarrow>
     command parsed \<Rightarrow> 'w \<Rightarrow> int" where
  "tool_program C V env rep http fs p w = (case p of
     Help \<Rightarrow> 0 | UsageError \<Rightarrow> 2 | Parsed cmd \<Rightarrow> tool_main C V env rep http fs cmd w)"

end
