(* ===== verification/Py_Form_Properties.thy ===== *)
theory Py_Form_Properties
  imports Py_Form
begin

text \<open>
  Forms as a browser writes them: \<open>application/x-www-form-urlencoded\<close> text, every name and value as
  UTF-8 with a percent escape for each byte that is not unreserved and a plus sign for a space. Read by
  \<open>read_form\<close> it gives back the names and values, whatever characters they have; and the decimal text
  of a number is read back by \<open>int\<close>.
\<close>

section \<open>Numbers\<close>

lemma grouped_all: "s \<noteq> [] \<Longrightarrow> list_all is_digit s \<Longrightarrow> grouped_digits s"
  by (induction s rule: grouped_digits.induct) (auto simp: is_digit_def)

lemma strip_none: "\<forall>c \<in> set s. \<not> P c \<Longrightarrow> strip_by P s = s"
proof -
  have "dropWhile P t = t" if "\<forall>c \<in> set t. \<not> P c" for t using that by (cases t) auto
  note t = this
  assume "\<forall>c \<in> set s. \<not> P c"
  then have "dropWhile P s = s" "dropWhile P (rev s) = rev s" using t[of s] t[of "rev s"] by simp_all
  then show ?thesis by (simp add: strip_by_def)
qed

lemma int_text_back:
  assumes "length (dec_nat \<bar>n\<bar>) \<le> 4300"
  shows "form_int (dec_int n) = Some (Inr n)"
proof -
  have d: "list_all is_digit (dec_nat m)" for m using dec_nat_digits by (auto simp: list_all_iff is_digit_def)
  have u: "filter (\<lambda>c. c \<noteq> 95) (dec_nat m) = dec_nat m" for m
    using dec_nat_digits[of _ m] by (fastforce intro: filter_True)
  have g: "grouped_digits (dec_nat m)" for m by (rule grouped_all[OF _ d]) simp
  have h: "hd (dec_nat m) \<noteq> 45" "hd (dec_nat m) \<noteq> 43" for m
    using dec_nat_digits[of "hd (dec_nat m)" m] hd_in_set[OF dec_nat_nonempty, of m] by auto
  have "c = 45 \<or> 48 \<le> c \<and> c \<le> 57" if "c \<in> set (dec_int n)" for c
    using dec_nat_digits[of c] that by (auto simp: dec_int_def split: if_splits)
  then have s: "strip_by (\<lambda>c. (9 \<le> c \<and> c \<le> 13) \<or> c = 32) (dec_int n) = dec_int n"
    by (intro strip_none) fastforce
  have "py_int_text (dec_int n) = Inr n"
  proof (cases "n < 0")
    case True
    then show ?thesis using assms u[of "- n"] g[of "- n"] digits_val_dec_nat[of "- n"]
      unfolding py_int_text_def s by (simp add: dec_int_def)
  next
    case False
    then show ?thesis using assms u[of n] g[of n] h[of n] digits_val_dec_nat[of n]
      unfolding py_int_text_def s by (simp add: dec_int_def)
  qed
  then show ?thesis by (simp add: form_int_def ascii_dec_int)
qed

lemma length_dec_nat: "n < 10 ^ Suc k \<Longrightarrow> length (dec_nat n) \<le> Suc k"
proof (induction k arbitrary: n)
  case 0
  then show ?case by (subst dec_nat.simps) simp
next
  case (Suc k)
  show ?case
  proof (cases "n < 10")
    case True
    then show ?thesis by (subst dec_nat.simps) simp
  next
    case False
    then have "n div 10 < 10 ^ Suc k" using Suc.prems by simp
    then show ?thesis using Suc.IH[of "n div 10"] False by (subst dec_nat.simps) simp
  qed
qed

text \<open>The numbers of 64 bits are far from Python's limit on digits.\<close>

lemma int64_text_back:
  assumes "\<bar>n\<bar> \<le> 2 ^ 64"
  shows "form_int (dec_int n) = Some (Inr n)"
proof -
  have "\<bar>n\<bar> < 10 ^ Suc 19" using assms by simp
  then show ?thesis using length_dec_nat[of "\<bar>n\<bar>" 19] by (intro int_text_back) simp
qed

section \<open>Percent encoding\<close>

definition unreserved :: "nat \<Rightarrow> bool" where
  "unreserved c \<longleftrightarrow> (48 \<le> c \<and> c \<le> 57) \<or> (65 \<le> c \<and> c \<le> 90) \<or> (97 \<le> c \<and> c \<le> 122) \<or> c \<in> {42, 45, 46, 95}"

definition upper_digit :: "nat \<Rightarrow> nat" where
  "upper_digit d = (if d < 10 then 48 + d else 55 + d)"

definition quote_byte :: "nat \<Rightarrow> pystr" where
  "quote_byte b = (if unreserved b then [b] else if b = 32 then [43]
     else [37, upper_digit (b div 16), upper_digit (b mod 16)])"

definition form_quote :: "pystr \<Rightarrow> pystr" where
  "form_quote s = concat (map quote_byte (concat (map utf8_char s)))"

definition form_text :: "(pystr \<times> pystr) list \<Rightarrow> pystr" where
  "form_text fields = join [38] (map (\<lambda>(k, v). form_quote k @ 61 # form_quote v) fields)"

lemma upper_digit_char: "d < 16 \<Longrightarrow> upper_digit d < 128 \<and> 38 < upper_digit d \<and> upper_digit d \<noteq> 61"
  by (simp add: upper_digit_def)

lemma quoted_chars:
  assumes "b < 256" "c \<in> set (quote_byte b)"
  shows "c < 128 \<and> 36 < c \<and> c \<noteq> 38 \<and> c \<noteq> 61"
proof -
  have d: "b div 16 < 16" "b mod 16 < 16" using assms(1) by auto
  consider "unreserved b" "c = b" | "c = 43" | "c = 37" | "c = upper_digit (b div 16)" | "c = upper_digit (b mod 16)"
    using assms(2) by (auto simp: quote_byte_def split: if_splits)
  then show ?thesis
  proof cases
    case 1
    then show ?thesis by (auto simp: unreserved_def)
  qed (use d[THEN upper_digit_char] in simp_all)
qed

lemma form_quote_chars: "valid_text s \<Longrightarrow> c \<in> set (form_quote s) \<Longrightarrow> c < 128 \<and> 36 < c \<and> c \<noteq> 38 \<and> c \<noteq> 61"
  using quoted_chars utf8_char_bytes by (fastforce simp: form_quote_def valid_text_def)

lemma hex_val_upper: "d < 16 \<Longrightarrow> hex_val (upper_digit d) = Some d"
  by (auto simp: hex_val_def upper_digit_def)

lemma unquote_other: "c \<noteq> 37 \<Longrightarrow> unquote_bytes (c # s) = of_nat c # unquote_bytes s"
  by (auto split: list.split)

lemma unquote_escape:
  assumes "b < 256"
  shows "unquote_bytes (37 # upper_digit (b div 16) # upper_digit (b mod 16) # r) = of_nat b # unquote_bytes r"
proof -
  have "hex_val (upper_digit (b div 16)) = Some (b div 16)" "hex_val (upper_digit (b mod 16)) = Some (b mod 16)"
    using assms by (simp_all add: hex_val_upper)
  moreover have "16 * (b div 16) + b mod 16 = b" by simp
  ultimately show ?thesis by simp
qed

abbreviation plus_space :: "pystr \<Rightarrow> pystr" where
  "plus_space \<equiv> map (\<lambda>c. if c = 43 then 32 else c)"

lemma unquote_quoted:
  "\<forall>b \<in> set bs. b < 256 \<Longrightarrow> unquote_bytes (plus_space (concat (map quote_byte bs))) = map of_nat bs"
proof (induction bs)
  case (Cons b bs)
  have u: "upper_digit d \<noteq> 43" for d by (simp add: upper_digit_def)
  consider "unreserved b" | "\<not> unreserved b" "b = 32" | "\<not> unreserved b" "b \<noteq> 32" by blast
  then show ?case
  proof cases
    case 1
    then have "b \<noteq> 37" "b \<noteq> 43" by (auto simp: unreserved_def)
    then show ?thesis using 1 Cons by (simp add: quote_byte_def unquote_other del: unquote_bytes.simps)
  next
    case 2
    then show ?thesis using Cons by (simp add: quote_byte_def unquote_other del: unquote_bytes.simps)
  next
    case 3
    then show ?thesis using Cons u by (simp add: quote_byte_def unquote_escape del: unquote_bytes.simps)
  qed
qed simp

lemma unquote_form:
  assumes "valid_text s"
  shows "unquote_plus (form_quote s) = Some s"
proof (cases "s = []")
  case True
  then show ?thesis by (simp add: unquote_plus_def form_quote_def)
next
  case False
  let ?u = "plus_space (form_quote s)"
  have b: "\<forall>b \<in> set (concat (map utf8_char s)). b < 256"
    using assms utf8_char_bytes by (auto simp: valid_text_def)
  have a: "\<forall>c \<in> set ?u. c < 128" using form_quote_chars[OF assms] by auto
  then have t: "takeWhile (\<lambda>c. c < 128) ?u = ?u" "dropWhile (\<lambda>c. c < 128) ?u = []"
    by (simp_all only: takeWhile_eq_all_conv dropWhile_eq_Nil_conv)
  have "unquote_bytes ?u = map of_nat (concat (map utf8_char s))"
    unfolding form_quote_def by (rule unquote_quoted[OF b])
  moreover have "utf8_encode s = Inr (map of_nat (concat (map utf8_char s)))" using assms by (simp add: utf8_encode_def)
  ultimately have d: "utf8_decode (unquote_bytes ?u) = Inr s" using utf8_roundtrip by simp
  have ne: "?u \<noteq> []"
  proof
    assume "?u = []"
    then have "unquote_bytes ?u = []" by simp
    then show False using d False by (auto simp: utf8_decode_def)
  qed
  then have "hd ?u < 128" using a hd_in_set by blast
  with ne d have "unquote_runs ?u = Some s"
    by (subst unquote_runs.simps) (simp add: t unquote_runs.simps[of "[]"])
  then show ?thesis by (simp add: unquote_plus_def)
qed

lemma form_quote_nonempty: "valid_text s \<Longrightarrow> s \<noteq> [] \<Longrightarrow> form_quote s \<noteq> []"
  using unquote_form[of s] unquote_runs.simps[of "[]"] by (auto simp: unquote_plus_def)

section \<open>Forms\<close>

lemma split_on_none: "sep \<notin> set s \<Longrightarrow> split_on sep s = [s]"
  by (induction s) auto

lemma split_on_first: "sep \<notin> set s \<Longrightarrow> split_on sep (s @ sep # t) = s # split_on sep t"
  by (induction s) auto

lemma split_on_join: "ps \<noteq> [] \<Longrightarrow> \<forall>p \<in> set ps. sep \<notin> set p \<Longrightarrow> split_on sep (join [sep] ps) = ps"
proof (induction "[sep]" ps rule: join.induct)
  case (3 x y zs)
  then show ?case by (simp add: split_on_first)
qed (auto simp: split_on_none)

lemma read_form_parts:
  assumes "\<forall>(k, v) \<in> set fields. valid_text k \<and> valid_text v"
  shows "read_form (map (\<lambda>(k, v). form_quote k @ 61 # form_quote v) fields) acc =
    Some (fold (\<lambda>(k, v). dict_set k v) fields acc)"
  using assms
proof (induction fields arbitrary: acc)
  case (Cons kv fields)
  obtain k v where kv: "kv = (k, v)" by fastforce
  then have v: "valid_text k" "valid_text v" using Cons.prems by auto
  have "\<forall>c \<in> set (form_quote k). c \<noteq> 61" using form_quote_chars[OF v(1)] by blast
  then have "takeWhile (\<lambda>c. c \<noteq> 61) (form_quote k @ 61 # form_quote v) = form_quote k"
    "dropWhile (\<lambda>c. c \<noteq> 61) (form_quote k @ 61 # form_quote v) = 61 # form_quote v"
    by (simp_all add: takeWhile_append2 dropWhile_append2)
  then show ?case using Cons kv unquote_form[OF v(1)] unquote_form[OF v(2)] by simp
qed simp

lemma form_reads_back:
  assumes "fields \<noteq> []" "\<forall>(k, v) \<in> set fields. valid_text k \<and> valid_text v"
  shows "read_form (split_on 38 (form_text fields)) [] = Some (fold (\<lambda>(k, v). dict_set k v) fields [])"
proof -
  have "38 \<notin> set (form_quote k @ 61 # form_quote v)" if "(k, v) \<in> set fields" for k v
    using assms(2) that form_quote_chars by fastforce
  then have "split_on 38 (form_text fields) = map (\<lambda>(k, v). form_quote k @ 61 # form_quote v) fields"
    unfolding form_text_def using assms(1) by (intro split_on_join) auto
  then show ?thesis by (simp add: read_form_parts[OF assms(2)])
qed

lemma ascii_form_text:
  assumes "\<forall>(k, v) \<in> set fields. valid_text k \<and> valid_text v"
  shows "ascii_text (form_text fields)"
proof -
  have a: "ascii_text (join [38] ps)" if "list_all ascii_text ps" for ps :: "pystr list"
    using that by (induction "[38 :: nat]" ps rule: join.induct) (auto simp: ascii_text_def)
  have "ascii_text (form_quote k @ 61 # form_quote v)" if "(k, v) \<in> set fields" for k v
    using assms that form_quote_chars by (fastforce simp: ascii_text_def)
  then show ?thesis unfolding form_text_def by (intro a) (auto simp: list_all_iff)
qed

end
