(* ===== verification/Command_Lines_Properties.thy ===== *)
theory Command_Lines_Properties
  imports Command_Lines Cli_Properties Verify_Tool_Properties Py_Form_Properties
begin

text \<open>
  What the command lines promise: every command of the two programs can be written down so that the
  parser reads it back.
\<close>

section \<open>Writing a command line\<close>

definition given_as :: "string \<Rightarrow> pystr \<Rightarrow> pystr" where
  "given_as name v = lit name @ 61 # v"

text \<open>An option with an attached value is found whatever the value is, as no name has an equals sign.\<close>

lemma no_equals_sign: "CHR ''='' \<notin> set s \<Longrightarrow> 61 \<notin> set (lit s)"
proof
  assume n: "CHR ''='' \<notin> set s"
  assume "61 \<in> set (lit s)"
  then obtain c where c: "c \<in> set s" "of_char c = (61 :: nat)" by (auto simp: lit_def)
  then have "of_char c = (of_char CHR ''='' :: nat)" by simp
  then have "c = CHR ''=''" by (simp only: of_char_eq_iff)
  then show False using c(1) n by simp
qed

lemma named_attached:
  assumes "\<forall>sp \<in> set opts. CHR ''='' \<notin> set (op_name sp)"
  shows "named opts (given_as name v) = None"
proof -
  have "61 \<in> set (given_as name v)" by (simp add: given_as_def)
  then have "lit (op_name sp) \<noteq> given_as name v" if "sp \<in> set opts" for sp using assms that no_equals_sign by metis
  then show ?thesis by (simp add: named_def find_None_iff)
qed

lemma classify_attached:
  assumes "\<forall>sp \<in> set opts. CHR ''='' \<notin> set (op_name sp)" "named opts (lit name) = Some sp"
    "take 2 name = ''--''" "CHR ''='' \<notin> set name"
  shows "classify opts (given_as name v) = Known sp (Some v)"
proof -
  obtain r where r: "name = CHR ''-'' # CHR ''-'' # r" using assms(3) by (cases name; cases "tl name") auto
  have e: "c \<noteq> 61" if "c \<in> set (lit name)" for c using no_equals_sign[OF assms(4)] that by metis
  have "attached (given_as name v) = Some v" "before_eq (given_as name v) = lit name"
    using e by (simp_all add: attached_def before_eq_def given_as_def takeWhile_append2 dropWhile_append2)
  moreover have "given_as name v \<noteq> [45, 45]" "given_as name v \<noteq> []" "hd (given_as name v) = 45" "length (given_as name v) \<noteq> 1"
    by (auto simp: given_as_def r lit_def)
  ultimately show ?thesis using named_attached[OF assms(1), of name v] assms(2) by (simp add: classify_def)
qed

section \<open>Reading it back\<close>

definition flag_if :: "bool \<Rightarrow> string \<Rightarrow> pystr list" where
  "flag_if b name = (if b then [lit name] else [])"

text \<open>The argument vector of a command; the multiplier of the submit command is written as \<open>t\<close>.\<close>

definition cli_argv :: "pystr \<Rightarrow> cli_command \<Rightarrow> pystr list" where
  "cli_argv t cmd = (case cmd of
     Submit A \<Rightarrow> [lit ''submit'', given_as ''--feed-id'' (sa_feed A), given_as ''--results-file'' (sa_results A)] @
       flag_if (sa_dry_run A) ''--dry-run'' @
       [given_as ''--key-file'' (sa_key_file A), given_as ''--outlier-method'' (method_value (sa_method A)),
        given_as ''--iqr-multiplier'' t, given_as ''--ipfs-mode'' (if sa_local A then lit ''local'' else lit ''simulated'')] @
       flag_if (sa_json A) ''--json''
   | ReplayDlq path which dry_run \<Rightarrow> [lit ''replay-dlq'', given_as ''--db'' path] @
       (case which of None \<Rightarrow> [] | Some i \<Rightarrow> [given_as ''--id'' (dec_int i)]) @ flag_if dry_run ''--dry-run''
   | DlqStats path as_json \<Rightarrow> [lit ''dlq-stats'', given_as ''--db'' path] @ flag_if as_json ''--json''
   | StartMetricsServer port addr \<Rightarrow>
       [lit ''start-metrics-server'', given_as ''--port'' (dec_int port), given_as ''--addr'' addr]
   | NoCommand \<Rightarrow> [])"

definition source_arg :: "source \<Rightarrow> pystr" where
  "source_arg so = (case so of FromCid cid \<Rightarrow> given_as ''--cid'' cid | FromFile path \<Rightarrow> given_as ''--file'' path)"

definition tool_argv :: "command \<Rightarrow> pystr list" where
  "tool_argv cmd = (case cmd of
     Verify so check_sig \<Rightarrow> [lit ''verify'', source_arg so] @ flag_if check_sig ''--check-sig''
   | Show so \<Rightarrow> [lit ''show'', source_arg so]
   | Dump so \<Rightarrow> [lit ''dump'', source_arg so])"

text \<open>A plain word is the name of a command, and a flag stands for itself.\<close>

lemma classify_word: "s \<noteq> [] \<Longrightarrow> hd s \<noteq> 45 \<Longrightarrow> classify opts s = Value"
  by (auto simp: classify_def)

lemma classify_name:
  assumes "named opts (lit name) = Some sp" "take 2 name = ''--''" "name \<noteq> ''--''"
  shows "classify opts (lit name) = Known sp None"
proof -
  obtain r where r: "name = CHR ''-'' # CHR ''-'' # r" using assms(2) by (cases name; cases "tl name") auto
  have "lit name \<noteq> [45, 45]" using assms(3) r by (auto simp: lit_def)
  then show ?thesis using assms(1) r by (simp add: classify_def) (simp add: lit_def)
qed

lemma hd_lit: "hd (lit (c # s)) = of_char c"
  by (simp add: lit_def)

lemmas reading = hd_lit classify_word classify_attached classify_name named_def help_options_def convert_def conflicts_def satisfied_def
  given_as_def[symmetric] text_value_def int_value_def float_value_def flag_value_def or_default_def map_parsed_def Let_def

lemma tool_back: "tool_parse (tool_argv cmd) = Some (Parsed cmd)"
proof -
  note simps = tool_argv_def source_arg_def tool_parse_def tool_parser_def source_group_def parse_options_def reading
    flag_if_def tool_namespace_def source_namespace_def
  show ?thesis
  proof (cases cmd)
    case (Verify so check_sig)
    then show ?thesis by (cases so) (simp_all add: simps)
  next
    case (Show so)
    then show ?thesis by (cases so) (simp_all add: simps)
  next
    case (Dump so)
    then show ?thesis by (cases so) (simp_all add: simps)
  qed
qed

definition writable :: "pystr \<Rightarrow> cli_command \<Rightarrow> bool" where
  "writable t cmd \<longleftrightarrow> (case cmd of
     Submit A \<Rightarrow> ascii_text t \<and> py_float_text t = Inr (sa_iqr A)
   | ReplayDlq path (Some i) dry_run \<Rightarrow> length (dec_nat \<bar>i\<bar>) \<le> 4300
   | StartMetricsServer port addr \<Rightarrow> length (dec_nat \<bar>port\<bar>) \<le> 4300
   | _ \<Rightarrow> True)"

lemma cli_back:
  assumes "writable t cmd"
  shows "cli_parse (cli_argv t cmd) = Some (Parsed cmd)"
proof -
  note simps = cli_argv_def cli_parse_def cli_parser_def parse_options_def reading flag_if_def cli_namespace_def
  show ?thesis
  proof (cases cmd)
    case (Submit A)
    have "method_value (sa_method A) \<in> lit ` set [''iqr'', ''mad'', ''none''] \<and> outlier_map (method_value (sa_method A)) = sa_method A"
      by (cases "sa_method A") (auto simp: outlier_map_def)
    then show ?thesis using Submit assms
      by (simp add: simps submit_namespace_def writable_def)
  next
    case (ReplayDlq path which dry_run)
    then show ?thesis using assms by (cases which) (simp_all add: simps writable_def int_text_back)
  next
    case (DlqStats path as_json)
    then show ?thesis by (simp add: simps)
  next
    case (StartMetricsServer port addr)
    then show ?thesis using assms by (simp add: simps writable_def int_text_back)
  next
    case NoCommand
    then show ?thesis by (simp add: simps)
  qed
qed

text \<open>C21: every command of the two programs has an argument vector that is read back as this command, with
  any texts as values (also empty ones, or ones that look like options); integers may have up to 4300
  digits, and the multiplier stands in any form that denotes it.\<close>

theorem command_lines_read_back:
  assumes "writable t cmd"
  shows "cli_parse (cli_argv t cmd) = Some (Parsed cmd) \<and> tool_parse (tool_argv tool_cmd) = Some (Parsed tool_cmd)"
  using cli_back[OF assms] tool_back by blast

lemma command_lines_read_back_witness:
  "cli_parse [lit ''replay-dlq'', given_as ''--db'' (lit ''--id=3''), given_as ''--id'' (dec_int (- 7)), lit ''--dry-run''] =
     Some (Parsed (ReplayDlq (lit ''--id=3'') (Some (- 7)) True)) \<and>
   tool_parse [lit ''verify'', given_as ''--file'' (lit ''-x y''), lit ''--check-sig''] =
     Some (Parsed (Verify (FromFile (lit ''-x y'')) True))"
proof -
  have "writable [] (ReplayDlq (lit ''--id=3'') (Some (- 7)) True)" by (simp add: writable_def dec_nat.simps)
  from command_lines_read_back[OF this, of "Verify (FromFile (lit ''-x y'')) True"] show ?thesis
    by (simp add: cli_argv_def tool_argv_def source_arg_def flag_if_def)
qed

end
