(* ===== verification/Submit_Properties.thy ===== *)
theory Submit_Properties
  imports Cli Bridge_Properties Aggregation_Properties Verify_Tool_Properties
begin

text \<open>
  The submit command end to end: it succeeds only as a dry run over at least one result of its file, and
  then what it prints is what was aggregated from that file, signed under the given key and pinned. And the metrics server, whose command ends
  exactly when a sleep is interrupted.
\<close>

section \<open>Submitting\<close>

definition submit_bridge :: "('k, 'w) submit_env \<Rightarrow> submit_args \<Rightarrow> 'k \<Rightarrow> agg_config \<Rightarrow> ('k, 'w) bridge" where
  "submit_bridge E A signer cfg = mk_bridge (se_ipfs E False) signer dry_run_client (Some (se_ipfs E (sa_local A))) (Some cfg)"

lemma pipeline_ok:
  assumes "run_pipeline E A signer results w = (Inr (ls, 0), w')"
  shows "\<exists>cfg ag att tx r out f. default_agg_config (sa_method A) (sa_iqr A) (dict_keys results) = Inr cfg \<and>
    aggregate_and_submit (se_deps E) (submit_bridge E A signer cfg) results w = (Inr (ag, att, tx, r), w') \<and>
    submit_output (sa_dry_run A) ag att tx = Inr out \<and> feed_text (ag_feed ag) = Inr f \<and>
    ls = (if sa_json A then [pretty 0 (JDict out)] else summary_lines (d_rep (se_deps E)) (sa_dry_run A) f ag att tx)"
proof -
  from assms obtain cfg where cfg: "default_agg_config (sa_method A) (sa_iqr A) (dict_keys results) = Inr cfg"
    by (auto simp: run_pipeline_def res_simps)
  obtain x w1 where x: "aggregate_and_submit (se_deps E) (submit_bridge E A signer cfg) results w = (x, w1)" by fastforce
  note run = assms[unfolded run_pipeline_def cfg bindW_lift, folded submit_bridge_def, unfolded x]
  show ?thesis
  proof (cases x)
    case (Inl e)
    then show ?thesis using run by (simp split: if_splits)
  next
    case (Inr y)
    obtain ag att tx r where y: "y = (ag, att, tx, r)" by (cases y)
    from run Inr y obtain out f where o: "submit_output (sa_dry_run A) ag att tx = Inr out" "feed_text (ag_feed ag) = Inr f"
      "ls = (if sa_json A then [pretty 0 (JDict out)] else summary_lines (d_rep (se_deps E)) (sa_dry_run A) f ag att tx)"
      "w1 = w'" by (auto simp: res_simps)
    then show ?thesis using cfg x Inr y by blast
  qed
qed

lemma pipeline_runs:
  assumes cfg: "default_agg_config (sa_method A) (sa_iqr A) (dict_keys results) = Inr cfg"
    and x: "aggregate_and_submit (se_deps E) (submit_bridge E A signer cfg) results w = (Inr (ag, att, tx, r), w')"
    and f: "feed_text (ag_feed ag) = Inr f"
  shows "\<exists>ls. run_pipeline E A signer results w = (Inr (ls, 0), w')"
  unfolding run_pipeline_def cfg bindW_lift submit_bridge_def[symmetric] x
  by (simp add: f submit_output_def del: pretty.simps)

text \<open>The results come from the file, and a run without \<open>--dry-run\<close> ends with 1.\<close>

lemma submit_ok:
  assumes "cmd_submit E A w = (Inr (Some (ls, 0)), w')"
  shows "sa_dry_run A \<and> (\<exists>text doc act results w1 signer w2. se_files E (sa_results A) = Some (Inr text) \<and> loads text = Inr doc \<and>
    read_results (d_sys (se_deps E)) (sa_feed A) doc = Some act \<and> act w = (Inr (Some results), w1) \<and> results \<noteq> [] \<and>
    load_signer E A w1 = (Inr (Some signer), w2) \<and> run_pipeline E A signer results w2 = (Inr (ls, 0), w'))"
proof -
  from assms obtain c where c: "se_files E (sa_results A) = Some c"
    by (cases "se_files E (sa_results A)") (simp_all add: cmd_submit_def)
  note a = assms[unfolded cmd_submit_def c option.case]
  from a obtain t where t: "c = Inr t" by (cases c) simp_all
  note a = a[unfolded t bindW_lift]
  from a obtain doc where doc: "loads t = Inr doc" by (cases "loads t") (simp_all split: if_splits)
  note a = a[unfolded doc sum.case]
  from a obtain act where act: "read_results (d_sys (se_deps E)) (sa_feed A) doc = Some act"
    by (cases "read_results (d_sys (se_deps E)) (sa_feed A) doc") simp_all
  note a = a[unfolded act option.case bindW_ok]
  from a obtain rd w1 where r: "act w = (Inr rd, w1)" and a: "(case rd of None \<Rightarrow> liftW (Inr None)
      | Some results \<Rightarrow> if results = [] then liftW (Inr (Some ([], 1)))
          else bindW (load_signer E A) (\<lambda>signer. case signer of None \<Rightarrow> liftW (Inr (Some ([], 1)))
            | Some k \<Rightarrow> if \<not> sa_dry_run A then liftW (Inr (Some ([], 1)))
                else bindW (run_pipeline E A k results) (\<lambda>out. liftW (Inr (Some out))))) w1 = (Inr (Some (ls, 0)), w')"
    by blast
  from a obtain results where results: "rd = Some results" "results \<noteq> []" by (cases rd) (auto split: if_splits)
  from a results obtain k w2 where k: "load_signer E A w1 = (Inr k, w2)"
    and a: "(case k of None \<Rightarrow> liftW (Inr (Some ([], 1)))
            | Some k \<Rightarrow> if \<not> sa_dry_run A then liftW (Inr (Some ([], 1)))
                else bindW (run_pipeline E A k results) (\<lambda>out. liftW (Inr (Some out)))) w2 = (Inr (Some (ls, 0)), w')"
    by (auto simp: bindW_ok)
  from a obtain signer where signer: "k = Some signer" by (cases k) simp_all
  from a signer have "sa_dry_run A" by (simp split: if_splits)
  moreover from a signer this have "run_pipeline E A signer results w2 = (Inr (ls, 0), w')" by (auto simp: bindW_ok)
  ultimately show ?thesis using c t doc act r results k signer by blast
qed

lemma aggregate_is_provided:
  assumes "aggregate cfg provided = Inr ar"
  shows "ar_value ar \<in> ps_value ` set provided"
proof -
  from assms obtain acc rej agg where r: "reject_outliers cfg (sort_key ps_id provided) = Inr (acc, rej)"
    "weighted_median acc = Inr agg" "ar_value ar = agg" by (rule aggregateE) auto
  then show ?thesis using weighted_median_member[OF r(2)] any.accepted_subset[OF r(1)] by auto
qed

text \<open>The dry-run client answers every submission the same way.\<close>

lemma dry_run_reference:
  assumes "submit_with_cid D (submit_bridge E A signer cfg) att cid w = (Inr tx, w')"
  shows "tx = lit ''dry-run-tx''"
proof -
  have "b_client (submit_bridge E A signer cfg) = dry_run_client" by (simp add: submit_bridge_def mk_bridge_def)
  then show ?thesis using assms by (auto simp: submit_with_cid_def dry_run_client_def tryW_def res_simps)
qed

text \<open>What an entry of a results file stands for, and a whole file: an object is read by its keys, a list
  by the identifiers of its entries or their positions; of two entries of one source the later one
  counts.\<close>

definition entry_stands :: "'w sys \<Rightarrow> pystr \<Rightarrow> json \<Rightarrow> gee_result \<Rightarrow> bool" where
  "entry_stands Y fid entry g \<longleftrightarrow> (\<exists>kvs ov. entry = JDict kvs \<and>
     map_of kvs (lit ''output_value'') = Some ov \<and> py_int ov = Inr (Some (g_output g)) \<and>
     JStr (g_source g) = (case map_of kvs (lit ''script_source'') of Some v \<Rightarrow> v | None \<Rightarrow> js ''// dry-run'') \<and>
     JDict (g_params g) = (case map_of kvs (lit ''input_params'') of Some v \<Rightarrow> v | None \<Rightarrow> JDict []) \<and>
     (\<exists>f. g_feed g = FStr f \<and> JStr f = (case map_of kvs (lit ''feed_id'') of Some v \<Rightarrow> v | None \<Rightarrow> JStr fid)) \<and>
     (if map_of kvs (lit ''timestamp_utc'') \<in> {None, Some JNull} then \<exists>w. int_of_float (fst (sys_time Y w)) = Inr (g_time g)
      else map_of kvs (lit ''timestamp_utc'') = Some (JInt (g_time g))) \<and>
     g_asset g = default_asset \<and> g_tag g = lit ''untagged'')"

definition file_stands :: "'w sys \<Rightarrow> pystr \<Rightarrow> json \<Rightarrow> (pystr \<times> gee_result) list \<Rightarrow> bool" where
  "file_stands Y fid doc results \<longleftrightarrow> (\<exists>gs. results = dict_of gs \<and> (case doc of
     JDict kvs \<Rightarrow> list_all2 (\<lambda>(k, entry) (i, g). i = k \<and> entry_stands Y fid entry g) kvs gs
   | JList xs \<Rightarrow> list_all2 (\<lambda>(n, entry) (i, g). entry_stands Y fid entry g \<and>
        get_or (lit ''source_id'') (JStr (lit ''source_'' @ dec_int (int n))) entry = Inr (JStr i)) (enumerate 0 xs) gs
   | _ \<Rightarrow> False))"

lemma read_entry_stands:
  assumes "read_entry Y fid entry w = (Inr (Some g), w')"
  shows "entry_stands Y fid entry g"
proof -
  from assms obtain src ps ov out fv ts where e: "get_or (lit ''script_source'') (js ''// dry-run'') entry = Inr src"
    "get_or (lit ''input_params'') (JDict []) entry = Inr ps" "index (lit ''output_value'') entry = Inr ov"
    "py_int ov = Inr out" "get_or (lit ''feed_id'') (JStr fid) entry = Inr fv" "get_or (lit ''timestamp_utc'') JNull entry = Inr ts" and
    c: "(let time = (case ts of JNull \<Rightarrow> Some None | JInt t \<Rightarrow> Some (Some t) | _ \<Rightarrow> None) in
     (case (src, ps, out, fv, time) of
        (JStr s, JDict d, Some n, JStr f, Some t) \<Rightarrow>
          bindW (mk_gee_result Y s d n (FStr f) t default_asset (lit ''untagged'')) (\<lambda>g. liftW (Inr (Some g)))
      | _ \<Rightarrow> liftW (Inr None))) w = (Inr (Some g), w')"
    unfolding read_entry_def bindW_ok by auto
  obtain kvs where k: "entry = JDict kvs" using e(1) by (cases entry) (auto simp: get_or_def raise_def)
  obtain s d n f where v: "src = JStr s" "ps = JDict d" "out = Some n" "fv = JStr f"
    using c by (auto simp: Let_def split: json.splits option.splits)
  obtain t where t: "ts = JNull \<and> t = None \<or> (\<exists>i. ts = JInt i \<and> t = Some i)" and
    m: "bindW (mk_gee_result Y s d n (FStr f) t default_asset (lit ''untagged'')) (\<lambda>g. liftW (Inr (Some g))) w = (Inr (Some g), w')"
    using c v by (cases ts) auto
  have g: "g_source g = s" "g_params g = d" "g_output g = n" "g_feed g = FStr f" "g_asset g = default_asset" "g_tag g = lit ''untagged''"
    "case t of Some i \<Rightarrow> g_time g = i | None \<Rightarrow> \<exists>w. int_of_float (fst (sys_time Y w)) = Inr (g_time g)"
    using m by (auto simp: mk_gee_result_def bindW_ok readW_ok split: option.splits intro!: exI[of _ w])
  have ts: "map_of kvs (lit ''timestamp_utc'') \<in> {None, Some JNull} \<longleftrightarrow> t = None"
    "t = Some i \<Longrightarrow> map_of kvs (lit ''timestamp_utc'') = Some (JInt i)" for i
    using e(6) t k by (auto split: option.splits)
  show ?thesis
    unfolding entry_stands_def using e k v g ts by (cases t) (auto simp: dict_at_ok split: option.splits)
qed

lemma read_dict_stands:
  "read_dict Y fid kvs acc w = (Inr (Some results), w') \<Longrightarrow>
     \<exists>gs. results = fold (\<lambda>(k, v) d. dict_set k v d) gs acc \<and>
       list_all2 (\<lambda>(k, entry) (i, g). i = k \<and> entry_stands Y fid entry g) kvs gs"
proof (induction kvs arbitrary: acc w)
  case (Cons p kvs)
  obtain k entry where p: "p = (k, entry)" by fastforce
  from Cons.prems obtain g w1 where g: "read_entry Y fid entry w = (Inr (Some g), w1)"
    "read_dict Y fid kvs (dict_set k g acc) w1 = (Inr (Some results), w')"
    by (auto simp: p bindW_ok split: option.splits)
  from Cons.IH[OF g(2)] obtain gs where "results = fold (\<lambda>(k, v) d. dict_set k v d) gs (dict_set k g acc)"
    "list_all2 (\<lambda>(k, entry) (i, g). i = k \<and> entry_stands Y fid entry g) kvs gs" by blast
  then show ?case using read_entry_stands[OF g(1)] p by (intro exI[of _ "(k, g) # gs"]) simp
qed auto

lemma read_list_stands:
  "read_list Y fid idx xs acc w = (Inr (Some results), w') \<Longrightarrow>
     \<exists>gs. results = fold (\<lambda>(k, v) d. dict_set k v d) gs acc \<and>
       list_all2 (\<lambda>(n, entry) (i, g). entry_stands Y fid entry g \<and>
         get_or (lit ''source_id'') (JStr (lit ''source_'' @ dec_int (int n))) entry = Inr (JStr i)) (enumerate idx xs) gs"
proof (induction xs arbitrary: idx acc w)
  case (Cons entry xs)
  from Cons.prems obtain i x w1 where i: "get_or (lit ''source_id'') (JStr (lit ''source_'' @ dec_int (int idx))) entry = Inr i"
    "read_entry Y fid entry w = (Inr x, w1)" "(case (i, x) of (JStr key, Some r) \<Rightarrow> read_list Y fid (idx + 1) xs (dict_set key r acc)
       | _ \<Rightarrow> liftW (Inr None)) w1 = (Inr (Some results), w')"
    by (auto simp: bindW_ok)
  obtain key g where k: "i = JStr key" "x = Some g" using i(3) by (cases i; cases x) simp_all
  have g: "get_or (lit ''source_id'') (JStr (lit ''source_'' @ dec_int (int idx))) entry = Inr (JStr key)"
    "read_entry Y fid entry w = (Inr (Some g), w1)" "read_list Y fid (idx + 1) xs (dict_set key g acc) w1 = (Inr (Some results), w')"
    using i k by simp_all
  from Cons.IH[OF g(3)] obtain gs where "results = fold (\<lambda>(k, v) d. dict_set k v d) gs (dict_set key g acc)"
    "list_all2 (\<lambda>(n, entry) (i, g). entry_stands Y fid entry g \<and>
         get_or (lit ''source_id'') (JStr (lit ''source_'' @ dec_int (int n))) entry = Inr (JStr i)) (enumerate (idx + 1) xs) gs" by blast
  then show ?case using read_entry_stands[OF g(2)] g(1) by (intro exI[of _ "(key, g) # gs"]) simp
qed auto

lemma results_stand:
  assumes "read_results Y fid doc = Some act" "act w = (Inr (Some results), w')"
  shows "file_stands Y fid doc results"
proof (cases doc)
  case (JDict kvs)
  then show ?thesis using assms read_dict_stands[of Y fid kvs "[]"] by (auto simp: read_results_def file_stands_def dict_of_def)
next
  case (JList xs)
  then show ?thesis using assms read_list_stands[of Y fid 0 xs "[]"] by (auto simp: read_results_def file_stands_def dict_of_def)
qed (use assms in \<open>simp_all add: read_results_def\<close>)

lemma signer_loaded:
  assumes "load_signer E A w = (Inr (Some signer), w')"
  shows "if sa_key_file A = [] then signer = fst (se_generate E w)
    else \<exists>pem. se_files E (sa_key_file A) = Some (Inr pem) \<and> signer_from_pem (d_crypto (se_deps E)) (Inl pem) None = Inr signer"
  using assms by (auto simp: load_signer_def res_simps split: if_splits option.splits)

lemma config_given:
  assumes "default_agg_config meth iqr ids = Inr cfg"
  shows "cfg = \<lparr>cfg_sources = ids, cfg_weights = map (\<lambda>i. (i, Fin 1)) ids, cfg_method = meth, cfg_iqr = iqr,
    cfg_mad = default_mad, cfg_min = 1\<rparr>"
  using assms by (auto simp: default_agg_config_def mk_agg_config_def res_simps)

lemma unit_weights: "map_of (map (\<lambda>i. (i, w)) ids) k = Some v \<Longrightarrow> v = w"
  by (induction ids) (auto split: if_splits)

text \<open>C11: the submit command ends with 0 only as a dry run. Then the results file was read: its entries,
  at least one, stand for the results that were aggregated, each with its value, script, parameters,
  feed and time or their defaults. The key is that of the key file when one is given, and a generated one
  otherwise. The sources with weight one each, the chosen outlier method and multiplier and a minimum of
  one source gave the aggregate, which is attested with the newest time under that key for the feed of
  the first result; the attestation verifies and its record is pinned on the chosen backend. The printed
  object has the signed value and time, the identifier, the used and the rejected sources, the key and
  the signature of that attestation, and the reference of the dry run; with \<open>--json\<close> the printed text
  reads back as that object.\<close>

theorem submit_command_succeeds:
  assumes "ed25519_laws (d_crypto (se_deps E))" "cmd_submit E A w = (Inr (Some (ls, 0)), w')"
  shows "sa_dry_run A \<and> (\<exists>content doc results w1 signer cfg sources ar att r cid f out.
    se_files E (sa_results A) = Some (Inr content) \<and> loads content = Inr doc \<and>
    file_stands (d_sys (se_deps E)) (sa_feed A) doc results \<and> results \<noteq> [] \<and>
    (if sa_key_file A = [] then signer = fst (se_generate E w1)
     else \<exists>pem. se_files E (sa_key_file A) = Some (Inr pem) \<and> signer_from_pem (d_crypto (se_deps E)) (Inl pem) None = Inr signer) \<and>
    cfg = \<lparr>cfg_sources = map fst results, cfg_weights = map (\<lambda>i. (i, Fin 1)) (map fst results), cfg_method = sa_method A,
      cfg_iqr = sa_iqr A, cfg_mad = default_mad, cfg_min = 1\<rparr> \<and>
    map ps_id sources = map fst results \<and> map ps_value sources = map (g_output \<circ> snd) results \<and>
    (\<forall>s \<in> set sources. ps_weight s = Fin 1) \<and> aggregate cfg sources = Inr ar \<and>
    output_value (att_payload att) = ar_value ar \<and> timestamp_utc (att_payload att) = Max (set (map (g_time \<circ> snd) results)) \<and>
    pad_feed_id (g_feed (snd (hd results))) = Inr (feed_id (att_payload att)) \<and> feed_text (g_feed (snd (hd results))) = Inr f \<and>
    input_params_hash (att_payload att) = canonical_params_hash (synthetic_params ar) \<and>
    public_key att = public_key_bytes (d_crypto (se_deps E)) signer \<and> verify (d_crypto (se_deps E)) (public_key att) att \<and>
    published (se_deps E) (mk_bridge (se_ipfs E False) signer dry_run_client (Some (se_ipfs E (sa_local A))) (Some cfg)) att
      (lit ''dry-run-tx'') r \<and> ipfs_cid r = JStr cid \<and>
    output_value (att_payload att) \<in> set (map (g_output \<circ> snd) results) \<and>
    out = [(lit ''feed_id'', JStr f), (lit ''aggregate_value'', JInt (output_value (att_payload att))),
       (lit ''source_values'', int_dict (ar_source_values ar)), (lit ''weights_used'', float_dict (ar_weights ar)),
       (lit ''rejected_sources'', JList (map JStr (ar_rejected ar))), (lit ''outlier_method'', JStr (method_value (sa_method A))),
       (lit ''ipfs_cid'', JStr cid), (lit ''tx_ref'', js ''dry-run-tx''),
       (lit ''attestation_public_key'', JStr (hex (public_key att))),
       (lit ''attestation_signature'', JStr (hex (signature att))), (lit ''dry_run'', JBool True),
       (lit ''timestamp_utc'', JInt (timestamp_utc (att_payload att)))] \<and>
    (sa_json A \<longrightarrow> ls = [pretty 0 (JDict out)] \<and> (json_ok (JDict out) \<longrightarrow> loads (concat ls) = Inr (JDict out))) \<and>
    (\<not> sa_json A \<longrightarrow> lit ''  IPFS CID:     '' @ cid \<in> set ls \<and> lit ''  Aggregate:    '' @ dec_int (output_value (att_payload att)) \<in> set ls))"
proof -
  from submit_ok[OF assms(2)] obtain content doc act results w1 signer w2 where s: "sa_dry_run A" "results \<noteq> []"
    "run_pipeline E A signer results w2 = (Inr (ls, 0), w')" "se_files E (sa_results A) = Some (Inr content)" "loads content = Inr doc"
    "read_results (d_sys (se_deps E)) (sa_feed A) doc = Some act" "act w = (Inr (Some results), w1)"
    "load_signer E A w1 = (Inr (Some signer), w2)"
    by (elim exE conjE) (rule that)
  have dry: "sa_dry_run A = True" using s(1) by simp
  from pipeline_ok[OF s(3), unfolded dry] obtain cfg ag att tx r out f where p:
    "default_agg_config (sa_method A) (sa_iqr A) (map fst results) = Inr cfg"
    "aggregate_and_submit (se_deps E) (submit_bridge E A signer cfg) results w2 = (Inr (ag, att, tx, r), w')"
    "submit_output True ag att tx = Inr out" "feed_text (ag_feed ag) = Inr f"
    "ls = (if sa_json A then [pretty 0 (JDict out)] else summary_lines (d_rep (se_deps E)) True f ag att tx)"
    by (elim exE conjE) (rule that)
  note cfg = config_given[OF p(1)]
  note a = aggregate_attests[OF assms(1) p(2)]
  from aggregate_ends_with[OF p(2)] obtain cid w3 where c: "submit_with_cid (se_deps E) (submit_bridge E A signer cfg) att cid w3 = (Inr tx, w')"
    "ag_cid ag = Some cid" "ipfs_cid r = JStr cid" by blast
  have tx: "tx = lit ''dry-run-tx''" using dry_run_reference[OF c(1)] .
  let ?ts = "Max (set (map (\<lambda>p. g_time (snd p)) results))"
  from aggregate_ok[OF p(2)] obtain cfg' sources ar q qs cid' where o: "b_agg (submit_bridge E A signer cfg) = Some cfg'"
    "mapE (source_of cfg') results = Inr sources" "aggregate cfg' sources = Inr ar" "results = q # qs"
    "attest (d_crypto (se_deps E)) (b_signer (submit_bridge E A signer cfg)) AGGREGATED_HASH (ParamsDict (synthetic_params ar))
      (ar_value ar) ?ts (g_feed (snd q)) = Inr att" and
    ag: "ag = \<lparr>ag_value = ar_value ar, ag_source_values = ar_source_values ar, ag_weights = ar_weights ar,
      ag_rejected = ar_rejected ar, ag_feed = g_feed (snd q), ag_time = ?ts, ag_outlier = ar_outlier ar, ag_cid = Some cid'\<rparr>"
    by (elim exE conjE) (rule that)
  have b: "b_signer (submit_bridge E A signer cfg) = signer" "cfg' = cfg"
    using o(1) by (simp_all add: submit_bridge_def mk_bridge_def)
  note src = sources_of[OF o(2)[unfolded b]]
  have v: "ar_value ar \<in> set (map (g_output \<circ> snd) results)"
    using aggregate_is_provided[OF o(3)] src by (metis image_set)
  have k: "public_key att = public_key_bytes (d_crypto (se_deps E)) signer"
    "input_params_hash (att_payload att) = canonical_params_hash (synthetic_params ar)"
    using attest_ok[OF o(5)[unfolded b]] by (auto simp: public_key_bytes_def)
  have w: "\<forall>s \<in> set sources. ps_weight s = Fin 1"
    using src unit_weights[of "Fin 1" "map fst results"] unfolding cfg agg_config.select_convs by blast
  from o(3)[unfolded b] have m: "ar_outlier ar = method_value (sa_method A)" by (rule aggregateE) (simp add: cfg)
  have e: "output_value (att_payload att) = ar_value ar" "timestamp_utc (att_payload att) = ?ts"
    "verify (d_crypto (se_deps E)) (public_key att) att" "published (se_deps E) (submit_bridge E A signer cfg) att tx r"
    "pad_feed_id (g_feed (snd (hd results))) = Inr (feed_id (att_payload att))" using a ag by simp_all
  have d: "out = [
       (lit ''feed_id'', JStr f), (lit ''aggregate_value'', JInt (ar_value ar)),
       (lit ''source_values'', int_dict (ar_source_values ar)), (lit ''weights_used'', float_dict (ar_weights ar)),
       (lit ''rejected_sources'', JList (map JStr (ar_rejected ar))), (lit ''outlier_method'', JStr (ar_outlier ar)),
       (lit ''ipfs_cid'', JStr cid), (lit ''tx_ref'', JStr tx), (lit ''attestation_public_key'', JStr (hex (public_key att))),
       (lit ''attestation_signature'', JStr (hex (signature att))), (lit ''dry_run'', JBool True),
       (lit ''timestamp_utc'', JInt ?ts)]" using p(3,4) c(2) ag by (simp add: submit_output_def)
  have l: "lit ''  IPFS CID:     '' @ cid \<in> set ls \<and> lit ''  Aggregate:    '' @ dec_int (ar_value ar) \<in> set ls" if "\<not> sa_json A"
    using p(5) that c(2) ag by (simp add: summary_lines_def)
  have j: "sa_json A \<longrightarrow> ls = [pretty 0 (JDict out)] \<and> (json_ok (JDict out) \<longrightarrow> loads (concat ls) = Inr (JDict out))"
    using p(5) by (simp add: loads_pretty[of _ "[]", simplified] del: pretty.simps json_ok.simps)
  have f: "feed_text (g_feed (snd (hd results))) = Inr f" using p(4) ag o(4) by simp
  show ?thesis
    by (intro conjI s(1) exI[of _ content] exI[of _ doc] exI[of _ results] exI[of _ w1] exI[of _ signer] exI[of _ cfg]
        exI[of _ sources] exI[of _ ar] exI[of _ att] exI[of _ r] exI[of _ cid] exI[of _ f] exI[of _ out] s(2,4,5)
        results_stand[OF s(6,7)] signer_loaded[OF s(8)] cfg k w e(1,3,5) c(3) o(3)[unfolded b] f j
        e(4)[unfolded tx submit_bridge_def])
      (use src v l in \<open>simp_all add: e(1,2) d m js_def tx comp_def\<close>)
qed

section \<open>The metrics server\<close>

text \<open>The world after \<open>n\<close> sleeps that were not interrupted.\<close>

fun slept :: "'w sys \<Rightarrow> nat \<Rightarrow> 'w \<Rightarrow> 'w option" where
  "slept Y 0 w = Some w"
| "slept Y (Suc n) w = (case sys_sleep Y (Fin 3600) w of (Inr _, w') \<Rightarrow> slept Y n w' | (Inl _, _) \<Rightarrow> None)"

definition woken :: "exn \<Rightarrow> unit res" where
  "woken e = (if ekind e = KeyboardInterrupt then Inr () else Inl e)"

lemma serve_wakes:
  "slept Y n w = Some w1 \<Longrightarrow> sys_sleep Y (Fin 3600) w1 = (Inl e, w') \<Longrightarrow> serve Y w = Some (woken e, w')"
proof (induction n arbitrary: w)
  case 0
  then show ?case by (subst serve.simps) (simp add: woken_def)
next
  case (Suc n)
  then obtain w2 where "sys_sleep Y (Fin 3600) w = (Inr (), w2)" "slept Y n w2 = Some w1"
    by (auto split: prod.splits sum.splits)
  then show ?case using Suc by (subst serve.simps) simp
qed

lemma serve_returns:
  assumes "serve Y w = Some (r, w')"
  shows "\<exists>n w1 e. slept Y n w = Some w1 \<and> sys_sleep Y (Fin 3600) w1 = (Inl e, w') \<and> r = woken e"
proof -
  let ?P = "\<lambda>Y w x. \<exists>n w1 e. slept Y n w = Some w1 \<and> sys_sleep Y (Fin 3600) w1 = (Inl e, snd x) \<and> fst x = woken e"
  have "?P Y w (r, w')"
  proof (rule serve.raw_induct[of ?P, OF _ assms])
    fix S :: "'a sys \<Rightarrow> 'a \<Rightarrow> (unit res \<times> 'a) option" and Y :: "'a sys" and w x
    assume ih: "\<And>Y w y. S Y w = Some y \<Longrightarrow> ?P Y w y"
      and step: "(case sys_sleep Y (Fin 3600) w of
        (Inl exc, w') \<Rightarrow> Some (if ekind exc = KeyboardInterrupt then Inr () else Inl exc, w')
      | (Inr _, w') \<Rightarrow> S Y w') = Some x"
    obtain y w1 where s: "sys_sleep Y (Fin 3600) w = (y, w1)" by fastforce
    show "?P Y w x"
    proof (cases y)
      case (Inl e)
      then show ?thesis using step s by (intro exI[of _ 0]) (auto simp: woken_def)
    next
      case (Inr u)
      then have "S Y w1 = Some x" using step s by simp
      from ih[OF this] obtain n w2 e where "slept Y n w1 = Some w2" "sys_sleep Y (Fin 3600) w2 = (Inl e, snd x)"
        "fst x = woken e" by blast
      then show ?thesis using s Inr by (intro exI[of _ "Suc n"]) auto
    qed
  qed
  then show ?thesis by simp
qed

lemma slept_last:
  "slept Y n w = Some w1 \<Longrightarrow> sys_sleep Y (Fin 3600) w1 = (Inl e, w') \<Longrightarrow> slept Y (Suc n) w = None"
proof (induction n arbitrary: w)
  case (Suc n)
  then obtain w2 where "sys_sleep Y (Fin 3600) w = (Inr (), w2)" "slept Y n w2 = Some w1"
    by (auto split: prod.splits sum.splits)
  then show ?case using Suc.IH Suc.prems(2) by (subst slept.simps(2)) simp
qed simp

lemma serve_forever: "serve Y w = None \<longleftrightarrow> (\<forall>n. slept Y n w \<noteq> None)"
proof
  assume n: "serve Y w = None"
  show "\<forall>n. slept Y n w \<noteq> None"
  proof
    fix n
    show "slept Y n w \<noteq> None" using n
    proof (induction n arbitrary: w)
      case (Suc n)
      then show ?case by (subst (asm) (2) serve.simps) (auto split: prod.splits sum.splits)
    qed simp
  qed
next
  assume f: "\<forall>n. slept Y n w \<noteq> None"
  have "serve Y w \<noteq> Some (r, w')" for r w'
    using serve_returns[of Y w r w'] slept_last[of Y _ w] f by metis
  then show "serve Y w = None" by (cases "serve Y w") auto
qed

text \<open>C39: the metrics command ends with 0 exactly when the server started and one of its sleeps was
  interrupted from the keyboard; it never returns exactly when the server started and no sleep is ever
  cut short, and otherwise an exception ends it.\<close>

theorem metrics_server_ends:
  "(cmd_start_metrics_server Y P port addr w = Some (Inr (ls, code), w') \<longleftrightarrow> code = 0 \<and>
     ls = [lit ''Starting Prometheus metrics server on '' @ addr @ lit '':'' @ dec_int port @ lit '' ...'',
       lit ''Metrics server running (press Ctrl+C to stop).'', [10] @ lit ''Metrics server stopped.''] \<and>
     (\<exists>w1 n w2 e. start_metrics_server P port addr w = (Inr (), w1) \<and> slept Y n w1 = Some w2 \<and>
        sys_sleep Y (Fin 3600) w2 = (Inl e, w') \<and> ekind e = KeyboardInterrupt)) \<and>
   (cmd_start_metrics_server Y P port addr w = None \<longleftrightarrow>
     (\<exists>w1. start_metrics_server P port addr w = (Inr (), w1) \<and> (\<forall>n. slept Y n w1 \<noteq> None)))"
proof -
  obtain x w1 where s: "start_metrics_server P port addr w = (x, w1)" by fastforce
  show ?thesis
  proof (cases x)
    case (Inl e)
    then show ?thesis using s by (simp add: cmd_start_metrics_server_def)
  next
    case (Inr u)
    have "serve Y w1 = Some (Inr (), w') \<longleftrightarrow> (\<exists>n w2 e. slept Y n w1 = Some w2 \<and>
        sys_sleep Y (Fin 3600) w2 = (Inl e, w') \<and> ekind e = KeyboardInterrupt)"
    proof
      assume "serve Y w1 = Some (Inr (), w')"
      from serve_returns[OF this] obtain n w2 e where "slept Y n w1 = Some w2" "sys_sleep Y (Fin 3600) w2 = (Inl e, w')"
        "Inr () = woken e" by blast
      then show "\<exists>n w2 e. slept Y n w1 = Some w2 \<and> sys_sleep Y (Fin 3600) w2 = (Inl e, w') \<and> ekind e = KeyboardInterrupt"
        by (intro exI[of _ n] exI[of _ w2] exI[of _ e]) (auto simp: woken_def split: if_splits)
    next
      assume "\<exists>n w2 e. slept Y n w1 = Some w2 \<and> sys_sleep Y (Fin 3600) w2 = (Inl e, w') \<and> ekind e = KeyboardInterrupt"
      then show "serve Y w1 = Some (Inr (), w')" using serve_wakes[of Y _ w1] by (auto simp: woken_def)
    qed
    then show ?thesis using s Inr serve_forever[of Y w1]
      by (auto simp: cmd_start_metrics_server_def res_simps)
  qed
qed

section \<open>A concrete run\<close>

definition results_doc :: json where
  "results_doc = JDict [(lit ''a'', JDict [(lit ''input_params'', JDict [(lit ''aoi'', JInt 4)]),
     (lit ''output_value'', JInt 4815162342), (lit ''script_source'', js ''code''), (lit ''timestamp_utc'', JInt 1720051200)])]"

definition sample_env :: "(bytes, store) submit_env" where
  "sample_env = \<lparr>se_deps = sample_deps, se_files = (\<lambda>path. if path = lit ''r.json'' then Some (Inr (dumps results_doc)) else None),
     se_ipfs = (\<lambda>_. sim_client), se_generate = (\<lambda>w. (replicate 32 7, w))\<rparr>"

definition sample_args :: submit_args where
  "sample_args = \<lparr>sa_feed = lit ''BCT'', sa_results = lit ''r.json'', sa_dry_run = True, sa_key_file = [],
     sa_method = NONE, sa_iqr = Fin (3 / 2), sa_local = False, sa_json = True\<rparr>"

lemma results_read: "loads (dumps results_doc) = Inr results_doc"
proof -
  have "json_ok results_doc" by (simp add: results_doc_def js_def valid_literal)
  moreover have "canon results_doc = results_doc" by (simp add: results_doc_def js_def) (simp add: lit_def)
  ultimately show ?thesis using loads_dumps by metis
qed

lemma results_entries:
  "\<exists>act. read_results (d_sys sample_deps) (lit ''BCT'') results_doc = Some act \<and>
     act w = (Inr (Some [(lit ''a'', sample_result)]), w)"
  by (simp add: read_results_def results_doc_def read_entry_def index_def dict_at_def py_int_def mk_gee_result_def
      js_def bindW_def sample_result_def)

lemma sample_config: "\<exists>cfg sources ar. default_agg_config NONE (Fin (3 / 2)) [lit ''a''] = Inr cfg \<and>
    mapE (source_of cfg) [(lit ''a'', sample_result)] = Inr sources \<and> aggregate cfg sources = Inr ar \<and> ar_value ar = 4815162342"
proof -
  obtain sh where "script_hash_of sample_result = Inr sh" using sample_script_hash by blast
  then show ?thesis
    by (simp add: default_agg_config_def mk_agg_config_def source_of_def dict_at_def mk_price_source_def aggregate_def single_median)
      (simp add: sample_result_def)
qed

lemma sample_dry_run: "\<exists>ls w'. cmd_submit sample_env sample_args [] = (Inr (Some (ls, 0)), w')"
proof -
  obtain cfg sources ar where c: "default_agg_config NONE (Fin (3 / 2)) [lit ''a''] = Inr cfg"
    "mapE (source_of cfg) [(lit ''a'', sample_result)] = Inr sources" "aggregate cfg sources = Inr ar" "ar_value ar = 4815162342"
    using sample_config by blast
  let ?B = "submit_bridge sample_env sample_args (replicate 32 7) cfg"
  have b: "b_agg ?B = Some cfg" "b_ipfs ?B = sim_client" "b_client ?B = dry_run_client"
    by (simp_all add: submit_bridge_def mk_bridge_def sample_env_def)
  from sample_aggregate_chain[OF b(1) c(2-4), of "[]"] obtain ag att d r where
    a: "aggregate_and_submit sample_deps ?B [(lit ''a'', sample_result)] [] =
      bindW (pin_provenance_record sim_client d) (\<lambda>cid. bindW (submit_with_cid sample_deps ?B att cid) (\<lambda>tx.
        liftW (Inr (ag\<lparr>ag_cid := Some cid\<rparr>, att, tx, r\<lparr>ipfs_cid := JStr cid, tx_ref := JStr tx\<rparr>)))) []"
    "ag_feed ag = FStr (lit ''BCT'')" unfolding b by blast
  have v: "validate_cid (simulated_cid (dumps_bytes d)) = Inr ()" by (simp add: validate_cid_ok simulated_cid_def)
  have "pin_provenance_record sim_client d [] = (Inr (simulated_cid (dumps_bytes d)), snd (sim_pin (dumps_bytes d) []))"
    by (simp add: pin_provenance_record_def sim_client_def sim_pin_def Let_def)
  then have "\<exists>ag' r' w'. aggregate_and_submit sample_deps ?B [(lit ''a'', sample_result)] [] =
      (Inr (ag', att, lit ''dry-run-tx'', r'), w') \<and> ag_feed ag' = FStr (lit ''BCT'')"
    using v a(2) by (simp add: a(1) bindW_def submit_with_cid_def b dry_run_client_def tryW_def)
  then obtain ag' r' w' where g: "aggregate_and_submit sample_deps ?B [(lit ''a'', sample_result)] [] =
      (Inr (ag', att, lit ''dry-run-tx'', r'), w')" "ag_feed ag' = FStr (lit ''BCT'')" by blast
  obtain act where act: "read_results (d_sys (sample_deps :: (bytes, store) deps)) (lit ''BCT'') results_doc = Some act"
    "act [] = (Inr (Some [(lit ''a'', sample_result)]), [])" using results_entries[of "[]"] by (elim exE conjE) (rule that)
  have e: "se_deps sample_env = sample_deps" "se_files sample_env (lit ''r.json'') = Some (Inr (dumps results_doc))"
    "se_generate sample_env = (\<lambda>w. (replicate 32 7, w))" by (simp_all add: sample_env_def)
  have s: "sa_feed sample_args = lit ''BCT''" "sa_results sample_args = lit ''r.json''" "sa_dry_run sample_args" "sa_key_file sample_args = []"
    "sa_method sample_args = NONE" "sa_iqr sample_args = Fin (3 / 2)" by (simp_all add: sample_args_def)
  have f: "feed_text (ag_feed ag') = Inr (lit ''BCT'')" using g(2) by (simp add: feed_text_def)
  have "default_agg_config (sa_method sample_args) (sa_iqr sample_args) (dict_keys [(lit ''a'', sample_result)]) = Inr cfg"
    using c(1) s by simp
  from pipeline_runs[OF this g(1)[folded e(1)] f] obtain ls where
    "run_pipeline sample_env sample_args (replicate 32 7) [(lit ''a'', sample_result)] [] = (Inr (ls, 0), w')" by blast
  then have "cmd_submit sample_env sample_args [] = (Inr (Some (ls, 0)), w')"
    by (simp add: cmd_submit_def s e results_read act bindW_def load_signer_def readW_def)
  then show ?thesis by blast
qed

lemma submit_command_succeeds_witness:
  "\<exists>ls w' att (r :: prov) results. cmd_submit sample_env sample_args [] = (Inr (Some (ls, 0)), w') \<and>
     file_stands (d_sys (se_deps sample_env)) (lit ''BCT'') results_doc results \<and>
     verify echo_scheme (public_key att) att \<and> output_value (att_payload att) \<in> set (map (g_output \<circ> snd) results)"
proof -
  obtain ls w' where c: "cmd_submit sample_env sample_args [] = (Inr (Some (ls, 0)), w')" using sample_dry_run by blast
  have d: "d_crypto (se_deps sample_env) = echo_scheme" by (simp add: sample_env_def sample_deps_def)
  have doc: "doc = results_doc" if "se_files sample_env (sa_results sample_args) = Some (Inr content)" "loads content = Inr doc" for content doc
    using that results_read by (simp add: sample_env_def sample_args_def)
  have f: "sa_feed sample_args = lit ''BCT''" by (simp add: sample_args_def)
  from submit_command_succeeds[OF _ c, unfolded d, OF echo_laws] obtain content doc att results where
    "se_files sample_env (sa_results sample_args) = Some (Inr content)" "loads content = Inr doc"
    "file_stands (d_sys (se_deps sample_env)) (sa_feed sample_args) doc results"
    "verify echo_scheme (public_key att) att" "output_value (att_payload att) \<in> set (map (g_output \<circ> snd) results)"
    by (elim exE conjE) (rule that)
  with doc f c show ?thesis by metis
qed

end
