(* ===== verification/Demo_Server.thy ===== *)
theory Demo_Server
  imports Bridge Verify_Tool Py_Form
begin

text \<open>
  \<open>tools/demo_server.py\<close>: the module's state, the fake submission client, the bridge
  over them and the request handlers. A page is the values it shows, in the order of the page; the
  markup is left out, and so are the sockets. A request is its path, the \<open>cid\<close> of its
  query (empty when there is none) and its body. The clock and the other libraries act on the
  environment \<open>'w\<close>, which is a part of the state.
\<close>

section \<open>State\<close>

text \<open>An entry of \<open>ONCHAIN\<close>, and one of \<open>LOG\<close>.\<close>

record chain_entry =
  oc_value :: int
  oc_time :: int
  oc_script :: pystr
  oc_params :: pystr
  oc_cid :: pystr
  oc_tx :: pystr

record log_entry =
  lg_feed :: pystr
  lg_value :: int
  lg_cid :: json
  lg_tx :: pystr
  lg_at :: json

record 'w demo =
  dm_store :: store
  dm_chain :: "chain_entry dict"
  dm_log :: "log_entry list"
  dm_counter :: int
  dm_env :: 'w

definition demo_start :: "'w \<Rightarrow> 'w demo" where
  "demo_start w = \<lparr>dm_store = [], dm_chain = [], dm_log = [], dm_counter = 0, dm_env = w\<rparr>"

definition GEE_SCRIPT :: pystr where
  "GEE_SCRIPT = concat (map (\<lambda>line. lit line @ [10]) [
     ''// GEE carbon sequestration estimator v1.2.3'',
     ''// Pinned: users/stellarkraal/scripts/carbon_seq_v1 @ v1.2.3'',
     ''var dataset = ee.ImageCollection('MODIS/061/MOD13A3')'',
     ''  .filterDate(params.startDate, params.endDate)'',
     ''  .filterBounds(params.aoi);'',
     ''var ndvi = dataset.mean().select('NDVI');'',
     ''return ndvi.reduceRegion({'',
     ''  reducer: ee.Reducer.mean(),'',
     ''  geometry: params.aoi,'',
     ''}).get('NDVI');''])"

section \<open>The fake client\<close>

text \<open>\<open>f"tx_{n:04d}"\<close> for a number that is not negative.\<close>

definition tx_name :: "int \<Rightarrow> pystr" where
  "tx_name n = lit ''tx_'' @ replicate (4 - length (dec_nat n)) 48 @ dec_nat n"

definition fake_submit :: "attestation \<Rightarrow> pystr \<Rightarrow> (pystr, 'w demo) act" where
  "fake_submit att cid s =
     (let n = dm_counter s + 1; s1 = s\<lparr>dm_counter := n\<rparr>; tx = tx_name n; p = att_payload att in
      case pad_feed_id (FBytes (feed_id p)) of
        Inl e \<Rightarrow> (Inl e, s1)
      | Inr padded \<Rightarrow>
          (Inr tx, s1\<lparr>dm_chain := dict_set (hex padded)
             \<lparr>oc_value = output_value p, oc_time = timestamp_utc p, oc_script = hex (script_hash p),
              oc_params = hex (input_params_hash p), oc_cid = cid, oc_tx = tx\<rparr> (dm_chain s1)\<rparr>))"

definition no_method :: "string \<Rightarrow> ('a, 'w) act" where
  "no_method name = liftW (raise AttributeError [S (39 # lit ''FakeClient'' @ 39 # lit '' object has no attribute '' @ 39 # lit name @ [39])])"

definition fake_client :: "'w demo sub_client" where
  "fake_client = \<lparr>sc_price = (\<lambda>att. fake_submit att []), sc_price_cid = fake_submit,
     sc_commit = (\<lambda>fid h. no_method ''commit_price''), sc_reveal = (\<lambda>att salt. no_method ''reveal_price'')\<rparr>"

section \<open>The bridge over the state\<close>

text \<open>The libraries of the environment, on the whole state.\<close>

definition on_env :: "('w \<Rightarrow> 'a \<times> 'w) \<Rightarrow> 'w demo \<Rightarrow> 'a \<times> 'w demo" where
  "on_env f s = (case f (dm_env s) of (x, w) \<Rightarrow> (x, s\<lparr>dm_env := w\<rparr>))"

definition demo_deps :: "('k, 'w) deps \<Rightarrow> ('k, 'w demo) deps" where
  "demo_deps E = \<lparr>d_crypto = d_crypto E,
     d_sys = \<lparr>sys_time = on_env (sys_time (d_sys E)), sys_random = on_env (sys_random (d_sys E)),
       sys_sleep = (\<lambda>d. on_env (sys_sleep (d_sys E) d)), sys_iso_now = on_env (sys_iso_now (d_sys E))\<rparr>,
     d_schema = d_schema E, d_rep = d_rep E, d_urandom = (\<lambda>n. on_env (d_urandom E n)),
     d_alert = (\<lambda>a s. s\<lparr>dm_env := d_alert E a (dm_env s)\<rparr>)\<rparr>"

definition demo_ipfs :: "'w demo ipfs_client" where
  "demo_ipfs = \<lparr>ic_pin = (\<lambda>content s. case sim_pin content (dm_store s) of (cid, st) \<Rightarrow> (Inr cid, s\<lparr>dm_store := st\<rparr>)),
     ic_get = (\<lambda>cid s. (sim_get cid (dm_store s), s))\<rparr>"

definition demo_bridge :: "'k \<Rightarrow> ('k, 'w demo) bridge" where
  "demo_bridge signer = mk_bridge demo_ipfs signer fake_client (Some demo_ipfs) None"

text \<open>The chain of the demo changes only through the bridge's submissions.\<close>

interpretation demo: bridge_world "demo_deps E" "demo_bridge signer" "\<lambda>s. (dm_chain s, dm_counter s)" for E signer
  by unfold_locales
    (simp_all add: demo_deps_def on_env_def demo_bridge_def mk_bridge_def demo_ipfs_def split_beta)

section \<open>Submitting\<close>

datatype notice = NoNotice | Failed pystr | Submitted pystr json

datatype verified = NoRecord | UnknownCid | Checked "pystr list" bool bool "int option" "int option" "unit res" "pystr list" pystr

datatype page =
    HomePage pystr int int int
  | SubmitPage notice
  | SubmissionsPage "pystr list list"
  | VerifyPage pystr verified
  | SchemaPage pystr
  | NotFound pystr

text \<open>The entry appended to the log after a submission.\<close>

definition append_log :: "pystr \<Rightarrow> int \<Rightarrow> pystr \<Rightarrow> prov \<Rightarrow> (unit, 'w demo) act" where
  "append_log fid out tx r =
     bindW (liftW (bindE (prov_to_dict r) (\<lambda>d. bindE (index (lit ''submission'') d) (index (lit ''submitted_at_iso''))))) (\<lambda>iso_at.
     updateW (\<lambda>s. s\<lparr>dm_log := dm_log s @ [\<lparr>lg_feed = fid, lg_value = out, lg_cid = ipfs_cid r, lg_tx = tx, lg_at = iso_at\<rparr>]\<rparr>))"

definition demo_submit ::
    "('k, 'w) deps \<Rightarrow> 'k \<Rightarrow> gee_result \<Rightarrow> pystr \<Rightarrow> int \<Rightarrow> (notice, 'w demo) act" where
  "demo_submit E signer result fid out s = (case process (demo_deps E) (demo_bridge signer) result s of
     (Inl e, s1) \<Rightarrow> (if is_Exception e then Inr (Failed (lit ''Submission failed: '' @ exn_str (d_rep E) e)) else Inl e, s1)
   | (Inr (att, tx, r), s1) \<Rightarrow>
       bindW (append_log fid out tx r) (\<lambda>_. liftW (Inr (Submitted tx (ipfs_cid r)))) s1)"

text \<open>\<open>None\<close>: a form the model does not say anything about (bytes that need replacement
  characters, a number with characters outside ASCII, parameters that are not an object).\<close>

definition handle_submit_post :: "('k, 'w) deps \<Rightarrow> 'k \<Rightarrow> bytes \<Rightarrow> (page option, 'w demo) act" where
  "handle_submit_post E signer body =
     (let page = (\<lambda>n. liftW (Inr (Some (SubmitPage n)))) in
     bindW (liftW (utf8_decode body)) (\<lambda>txt. case read_form (split_on 38 txt) [] of
       None \<Rightarrow> liftW (Inr None)
     | Some form \<Rightarrow>
     (let fid = py_strip (form_field form ''feed_id'' '''') in
     case form_int (form_field form ''output_value'' ''0'') of
       None \<Rightarrow> liftW (Inr None)
     | Some (Inl e) \<Rightarrow> if ekind e = ValueError then page (Failed (lit ''output_value must be an integer'')) else liftW (Inl e)
     | Some (Inr out) \<Rightarrow>
     (let ts_text = form_field form ''timestamp_utc'' ''0'' in
     case form_int (if ts_text = [] then lit ''0'' else ts_text) of
       None \<Rightarrow> liftW (Inr None)
     | Some (Inl e) \<Rightarrow> liftW (Inl e)
     | Some (Inr t) \<Rightarrow>
     bindW (if t = 0 then int_now (d_sys (demo_deps E)) else liftW (Inr t)) (\<lambda>ts.
     case loads (py_strip (form_field form ''input_params'' ''{}'')) of
       Inl e \<Rightarrow> if ekind e = JSONDecodeError
         then page (Failed (lit ''Invalid JSON in input_params: '' @ exn_str (d_rep E) e)) else liftW (Inl e)
     | Inr (JDict ps) \<Rightarrow>
         bindW (mk_gee_result (d_sys (demo_deps E)) GEE_SCRIPT ps out (FStr fid) (Some ts)
           (py_strip (form_field form ''asset_path'' ''users/oracle/scripts/carbon_seq''))
           (py_strip (form_field form ''version_tag'' ''untagged''))) (\<lambda>result.
         bindW (demo_submit E signer result fid out) page)
     | Inr _ \<Rightarrow> liftW (Inr None))))))"

text \<open>\<open>_seed\<close>: the two example submissions; an exception ends the program.\<close>

definition seed_result :: "string \<Rightarrow> int \<Rightarrow> string \<Rightarrow> gee_result" where
  "seed_result fid out aoi = \<lparr>g_source = GEE_SCRIPT,
     g_params = [(lit ''aoi'', js aoi), (lit ''startDate'', js ''2024-01-01''), (lit ''endDate'', js ''2024-06-30'')],
     g_output = out, g_feed = FStr (lit fid), g_time = 1720051200,
     g_asset = lit ''users/stellarkraal/scripts/carbon_seq_v1'', g_tag = lit ''v1.2.3''\<rparr>"

definition seed_one :: "('k, 'w) deps \<Rightarrow> 'k \<Rightarrow> string \<Rightarrow> int \<Rightarrow> string \<Rightarrow> (unit, 'w demo) act" where
  "seed_one E signer fid out aoi =
     bindW (process (demo_deps E) (demo_bridge signer) (seed_result fid out aoi)) (\<lambda>(att, tx, r).
     append_log (lit fid) out tx r)"

definition seed :: "('k, 'w) deps \<Rightarrow> 'k \<Rightarrow> (unit, 'w demo) act" where
  "seed E signer =
     bindW (seed_one E signer ''carbon/rwanda/2024'' 4815162342 ''POLYGON((30.1 -1.2,30.3 -1.0))'') (\<lambda>_.
     seed_one E signer ''carbon/kenya/2024'' 3221456789 ''POLYGON((36.8 -1.3,37.0 -1.1))'')"

section \<open>Verifying\<close>

text \<open>A comparison with a value that may be None.\<close>

definition eq_opt :: "int option \<Rightarrow> json \<Rightarrow> bool" where
  "eq_opt x v = (case x of Some n \<Rightarrow> eq_int v n | None \<Rightarrow> v = JNull)"

definition payload_int :: "nat \<Rightarrow> nat \<Rightarrow> bytes \<Rightarrow> int option" where
  "payload_int lo hi payload = (if length payload = 113 then Some (int_from_bytes (slice lo hi payload)) else None)"

text \<open>The signature check, with the exception that its result shows. The libraries raise a ValueError for
  a key of a wrong size, and an \<open>InvalidSignature\<close> with an empty text.\<close>

definition demo_signature :: "'k ed25519 \<Rightarrow> json \<Rightarrow> bytes \<Rightarrow> unit res" where
  "demo_signature C att payload =
     bindE (decode_hex_field ''public_key'' att) (\<lambda>raw_key.
     bindE (mk_verifier C raw_key) (\<lambda>pk.
     bindE (decode_hex_field ''signature'' att) (\<lambda>sg.
     guardE (ed_verify C pk sg payload) (OtherException (lit ''InvalidSignature'')) [])))"

text \<open>\<open>f"{v:,}"\<close>; the text of a float is left to \<open>rep\<close>.\<close>

definition comma_text :: "(json \<Rightarrow> pystr) \<Rightarrow> json \<Rightarrow> pystr res" where
  "comma_text rep v = (case v of
     JInt n \<Rightarrow> Inr (with_commas n)
   | JBool b \<Rightarrow> Inr (if b then lit ''1'' else lit ''0'')
   | JFloat f \<Rightarrow> Inr (rep v)
   | JStr s \<Rightarrow> raise ValueError [T ''Cannot specify ',' with 's'.'']
   | _ \<Rightarrow> raise TypeError [T ''unsupported format string passed to __format__''])"

definition cell :: "(json \<Rightarrow> pystr) \<Rightarrow> string \<Rightarrow> json \<Rightarrow> json \<Rightarrow> pystr res" where
  "cell rep k dflt v = bindE (get_or (lit k) dflt v) (\<lambda>x. Inr (str_of rep x))"

definition aggregation_cells :: "(json \<Rightarrow> pystr) \<Rightarrow> json \<Rightarrow> pystr list res" where
  "aggregation_cells rep doc =
     bindE (get_or (lit ''aggregation'') JNull doc) (\<lambda>present.
     if \<not> truthy present then Inr []
     else bindE (index (lit ''aggregation'') doc) (\<lambda>agg.
       bindE (cell rep ''method'' JNull agg) (\<lambda>c1.
       bindE (cell rep ''outlier_method'' JNull agg) (\<lambda>c2.
       bindE (get_or (lit ''rejected_sources'') (JList []) agg) (\<lambda>rs.
       bindE (join_texts rs) (\<lambda>s. Inr [c1, c2, if s = [] then lit ''none'' else s]))))))"

definition detail_cells :: "(json \<Rightarrow> pystr) \<Rightarrow> json \<Rightarrow> json \<Rightarrow> json \<Rightarrow> json \<Rightarrow> json \<Rightarrow> pystr list res" where
  "detail_cells rep doc gs cmp att sub = bindE (aggregation_cells rep doc) (\<lambda>agg.
     bindE (mapE (\<lambda>m. m) [
       cell rep ''schema_version'' JNull doc, cell rep ''record_type'' JNull doc,
       cell rep ''asset_path'' JNull gs, cell rep ''version_tag'' JNull gs, cell rep ''version_hash'' (JStr []) gs,
       cell rep ''feed_id'' JNull cmp, bindE (get_or (lit ''output_value'') JNull cmp) (comma_text rep),
       cell rep ''timestamp_iso'' JNull cmp, cell rep ''public_key'' (JStr []) att,
       cell rep ''submitted_at_iso'' JNull sub, cell rep ''tx_ref'' (js ''N/A'') sub,
       cell rep ''ipfs_cid'' (js ''N/A'') sub]) (\<lambda>cells. Inr (cells @ agg)))"

text \<open>The checks of a fetched record and the page that shows them.\<close>

definition verify_page :: "'k ed25519 \<Rightarrow> schema_validator \<Rightarrow> (json \<Rightarrow> pystr) \<Rightarrow> json \<Rightarrow> verified res" where
  "verify_page C V rep doc =
     bindE (case validate_provenance_record V doc of
        Inr _ \<Rightarrow> Inr []
      | Inl e \<Rightarrow> if ekind e = ProvenanceValidationError then Inr (validation_errors e) else Inl e) (\<lambda>errors.
     bindE (index (lit ''gee_script'') doc) (\<lambda>gs.
     bindE (index (lit ''input_params'') doc) (\<lambda>ip.
     bindE (index (lit ''computation'') doc) (\<lambda>cmp.
     bindE (index (lit ''attestation'') doc) (\<lambda>att.
     bindE (index (lit ''submission'') doc) (\<lambda>sub.
     bindE (index (lit ''params'') ip) (\<lambda>ps.
     bindE (index (lit ''params_hash'') ip) (\<lambda>stored.
     bindE (decode_hex_field ''payload_hex'' att) (\<lambda>payload.
     let ov = payload_int 65 73 payload; ts = payload_int 73 81 payload in
     bindE (index (lit ''output_value'') cmp) (\<lambda>expected_ov.
     bindE (if eq_opt ov expected_ov then bindE (index (lit ''timestamp_utc'') cmp) (\<lambda>expected_ts. Inr (eq_opt ts expected_ts))
            else Inr False) (\<lambda>payload_ok.
     bindE (detail_cells rep doc gs cmp att sub) (\<lambda>cells.
     Inr (Checked errors (eq_str stored (params_hash_hex ps)) payload_ok ov ts
       (demo_signature C att payload) cells (pretty 0 doc))))))))))))))"

definition handle_verify :: "('k, 'w) deps \<Rightarrow> (json \<Rightarrow> pystr) \<Rightarrow> pystr \<Rightarrow> (page, 'w demo) act" where
  "handle_verify E rep cid =
     (if cid = [] then liftW (Inr (VerifyPage [] NoRecord))
      else (\<lambda>s. case fetch_provenance_record demo_ipfs cid s of
          (Inl e, s1) \<Rightarrow> (if ekind e = KeyError then Inr (VerifyPage cid UnknownCid) else Inl e, s1)
        | (Inr doc, s1) \<Rightarrow> (bindE (verify_page (d_crypto E) (d_schema E) rep doc) (\<lambda>v. Inr (VerifyPage cid v)), s1)))"

section \<open>The other pages and the routes\<close>

definition handle_home :: "('k, 'w) deps \<Rightarrow> 'k \<Rightarrow> 'w demo \<Rightarrow> page" where
  "handle_home E signer s = HomePage (hex (public_key_bytes (d_crypto E) signer)) (int (length (dm_log s)))
     (int (length (dm_chain s))) (int (length (dm_store s)))"

text \<open>The rows, newest first; the identifier whole and cut to 30 characters.\<close>

definition submission_row :: "(json \<Rightarrow> pystr) \<Rightarrow> log_entry \<Rightarrow> pystr list res" where
  "submission_row rep e = bindE (py_head 30 (lg_cid e)) (\<lambda>short.
     Inr [str_of rep (lg_at e), lg_feed e, with_commas (lg_value e), lg_tx e, str_of rep (lg_cid e), str_of rep short])"

definition handle_submissions :: "(json \<Rightarrow> pystr) \<Rightarrow> 'w demo \<Rightarrow> page res" where
  "handle_submissions rep s = bindE (mapE (submission_row rep) (rev (dm_log s))) (\<lambda>rows. Inr (SubmissionsPage rows))"

definition handle_schema :: page where
  "handle_schema = SchemaPage (pretty 0 PROVENANCE_SCHEMA)"

datatype request = Get pystr pystr | Post pystr bytes

text \<open>The status code and the page of a request; an exception ends the request without one.\<close>

definition do_GET :: "('k, 'w) deps \<Rightarrow> 'k \<Rightarrow> (json \<Rightarrow> pystr) \<Rightarrow> pystr \<Rightarrow> pystr \<Rightarrow> (int \<times> page, 'w demo) act" where
  "do_GET E signer rep path cid s =
     (if path = lit ''/'' then (Inr (200, handle_home E signer s), s)
      else if path = lit ''/submit'' then (Inr (200, SubmitPage NoNotice), s)
      else if path = lit ''/submissions'' then (bindE (handle_submissions rep s) (\<lambda>p. Inr (200, p)), s)
      else if path = lit ''/verify'' then bindW (handle_verify E rep cid) (\<lambda>p. liftW (Inr (200, p))) s
      else if path = lit ''/schema'' then (Inr (200, handle_schema), s)
      else (Inr (404, NotFound (lit ''<p>Page not found.</p>'')), s))"

definition do_POST :: "('k, 'w) deps \<Rightarrow> 'k \<Rightarrow> pystr \<Rightarrow> bytes \<Rightarrow> ((int \<times> page) option, 'w demo) act" where
  "do_POST E signer path body =
     (if path = lit ''/submit'' then bindW (handle_submit_post E signer body) (\<lambda>p. liftW (Inr (map_option (Pair 200) p)))
      else liftW (Inr (Some (404, NotFound (lit ''<p>Not found.</p>'')))))"

definition answer ::
    "('k, 'w) deps \<Rightarrow> 'k \<Rightarrow> (json \<Rightarrow> pystr) \<Rightarrow> request \<Rightarrow> ((int \<times> page) option, 'w demo) act" where
  "answer E signer rep req = (case req of
     Get path cid \<Rightarrow> bindW (do_GET E signer rep path cid) (\<lambda>p. liftW (Inr (Some p)))
   | Post path body \<Rightarrow> do_POST E signer path body)"

text \<open>The states of the running server: the seeded start, then any requests.\<close>

inductive demo_reachable :: "('k, 'w) deps \<Rightarrow> 'k \<Rightarrow> (json \<Rightarrow> pystr) \<Rightarrow> 'w demo \<Rightarrow> bool"
  for E signer rep where
  seeded: "seed E signer (demo_start w) = (Inr (), s) \<Longrightarrow> demo_reachable E signer rep s"
| answered: "demo_reachable E signer rep s \<Longrightarrow> answer E signer rep req s = (r, s') \<Longrightarrow> demo_reachable E signer rep s'"

end
