(* ===== verification/Demo_Server_Properties.thy ===== *)
theory Demo_Server_Properties
  imports Demo_Server Verify_Tool_Properties
begin

text \<open>
  What the demo server promises: in every state it reaches, whatever is on its chain or in its log
  refers to a pinned record and to a transaction that happened; and a submission it confirms is on
  the chain with the submitted data and passes every check of the verification page.
\<close>

section \<open>What one submission does to the state\<close>

text \<open>The store is content addressed, and an action only adds to it.\<close>

definition addressed :: "'w demo \<Rightarrow> bool" where
  "addressed s \<longleftrightarrow> (\<forall>(cid, b) \<in> set (dm_store s). cid = simulated_cid b)"

definition pinned :: "'w demo \<Rightarrow> pystr set" where
  "pinned s = set (dict_keys (dm_store s))"

definition adds :: "('a, 'w demo) act \<Rightarrow> bool" where
  "adds m \<longleftrightarrow> (\<forall>s. (addressed s \<longrightarrow> addressed (snd (m s))) \<and> pinned s \<subseteq> pinned (snd (m s)) \<and>
     dm_log (snd (m s)) = dm_log s)"

lemma adds_lift [intro]: "adds (liftW x)"
  by (simp add: adds_def)

lemma adds_bind [intro]: "adds m \<Longrightarrow> (\<And>x. adds (f x)) \<Longrightarrow> adds (bindW m f)"
  unfolding adds_def bindW_def by (auto split: prod.splits sum.splits) (metis snd_conv subsetD)+

lemma adds_try [intro]: "adds m \<Longrightarrow> (\<And>e. adds (h e)) \<Longrightarrow> adds (tryW m h)"
  unfolding adds_def tryW_def by (auto split: prod.splits sum.splits) (metis snd_conv subsetD)+

lemma adds_env: "adds (readW (on_env f))" "adds (updateW (\<lambda>s. s\<lparr>dm_env := g s\<rparr>))"
  by (simp_all add: adds_def readW_def on_env_def addressed_def pinned_def split: prod.split)

lemma set_dict_set: "set (dict_set k v d) \<subseteq> insert (k, v) (set d)"
  by (induction d) (auto split: if_splits)

lemma values_dict_set: "x \<in> snd ` set (dict_set k v d) \<Longrightarrow> x = v \<or> x \<in> snd ` set d"
  using set_dict_set[of k v d] by auto

lemma adds_pin: "adds (ic_pin demo_ipfs content)"
proof -
  have "addressed (s\<lparr>dm_store := dict_set (simulated_cid content) content (dm_store s)\<rparr>)" if "addressed s" for s :: "'w demo"
    using that set_dict_set[of "simulated_cid content" content "dm_store s"] by (auto simp: addressed_def)
  then show ?thesis by (auto simp: adds_def demo_ipfs_def sim_pin_def Let_def pinned_def)
qed

lemma adds_fake_submit: "adds (fake_submit att cid)"
  by (simp add: adds_def fake_submit_def Let_def addressed_def pinned_def split: sum.split)

lemma adds_process: "adds (process (demo_deps E) (demo_bridge signer) g)"
proof -
  have b: "b_ipfs (demo_bridge signer) = demo_ipfs" "b_client (demo_bridge signer) = fake_client"
    by (simp_all add: demo_bridge_def mk_bridge_def)
  have "adds (submit_with_circuit_breaker_alert (demo_deps E) (demo_bridge signer) att)" for att
    unfolding submit_with_circuit_breaker_alert_def b Let_def
    by (intro adds_try) (auto simp: fake_client_def demo_deps_def intro: adds_fake_submit adds_env)
  then have "adds (submit_with_cid (demo_deps E) (demo_bridge signer) att cid)" for att cid
    unfolding submit_with_cid_def b
    by (intro adds_bind adds_try adds_lift) (auto simp: fake_client_def intro: adds_fake_submit)
  moreover have "adds (pin_provenance_record demo_ipfs d)" for d
    using adds_pin[of "dumps_bytes d"] by (simp add: adds_def pin_provenance_record_def)
  ultimately have "adds (publish (demo_deps E) (demo_bridge signer) att r)" for att r
    unfolding publish_def b by (intro adds_bind adds_lift)
  moreover have "adds (int_now (d_sys (demo_deps E)))"
    unfolding int_now_def by (intro adds_bind adds_lift) (simp add: demo_deps_def adds_env)
  ultimately have "adds (record_and_publish (demo_deps E) (demo_bridge signer) att mk)" for att mk
    unfolding record_and_publish_def by (intro adds_bind adds_lift)
  then show ?thesis unfolding process_def by (auto intro!: adds_bind split: prod.split)
qed

text \<open>A validated identifier goes to the fake client, which always counts the call.\<close>

definition listed :: "attestation \<Rightarrow> pystr \<Rightarrow> pystr \<Rightarrow> chain_entry" where
  "listed att cid tx = \<lparr>oc_value = output_value (att_payload att), oc_time = timestamp_utc (att_payload att),
     oc_script = hex (script_hash (att_payload att)), oc_params = hex (input_params_hash (att_payload att)),
     oc_cid = cid, oc_tx = tx\<rparr>"

lemma fake_submit_cases:
  "fake_submit att cid s =
     (if length (feed_id (att_payload att)) \<le> 32
      then (Inr (tx_name (dm_counter s + 1)), s\<lparr>dm_counter := dm_counter s + 1, dm_chain :=
        dict_set (hex (feed_id (att_payload att) @ replicate (32 - length (feed_id (att_payload att))) 0))
          (listed att cid (tx_name (dm_counter s + 1))) (dm_chain s)\<rparr>)
      else (raise ValueError [T ''feed_id exceeds 32 bytes: '', I (int (length (feed_id (att_payload att)))), T '' bytes given''],
        s\<lparr>dm_counter := dm_counter s + 1\<rparr>))"
  by (simp add: fake_submit_def pad_feed_id_def Let_def listed_def raise_def)

lemma submit_demo:
  "validate_cid cid = Inr () \<Longrightarrow> submit_with_cid (demo_deps E) (demo_bridge signer) att cid s = fake_submit att cid s"
  by (simp add: submit_with_cid_def demo_bridge_def mk_bridge_def fake_client_def tryW_def fake_submit_cases raise_def)

lemma demo_ipfs_used: "b_ipfs (demo_bridge signer) = demo_ipfs"
  by (simp add: demo_bridge_def mk_bridge_def)

lemma pin_demo:
  "pin_provenance_record demo_ipfs d s = (Inr (simulated_cid (dumps_bytes d)),
     s\<lparr>dm_store := dict_set (simulated_cid (dumps_bytes d)) (dumps_bytes d) (dm_store s)\<rparr>)"
  by (simp add: pin_provenance_record_def demo_ipfs_def sim_pin_def Let_def)

lemma demo_now: "int_now (d_sys (demo_deps E)) s = (x, s1) \<Longrightarrow> \<exists>w. s1 = s\<lparr>dm_env := w\<rparr>"
  by (auto simp: int_now_def demo_deps_def on_env_def bindW_def readW_def split: prod.splits)

text \<open>The state after a submission that succeeds.\<close>

lemma process_success:
  assumes "process (demo_deps E) (demo_bridge signer) g s = (Inr (att, tx, r), s')"
  shows "\<exists>d w. prov_to_dict (unsubmitted r) = Inr d \<and> ipfs_cid r = JStr (simulated_cid (dumps_bytes d)) \<and>
    tx_ref r = JStr tx \<and> tx = tx_name (dm_counter s + 1) \<and> length (feed_id (att_payload att)) \<le> 32 \<and>
    s' = s\<lparr>dm_store := dict_set (simulated_cid (dumps_bytes d)) (dumps_bytes d) (dm_store s),
      dm_counter := dm_counter s + 1, dm_env := w, dm_chain := dict_set (hex (feed_id (att_payload att) @
        replicate (32 - length (feed_id (att_payload att))) 0)) (listed att (simulated_cid (dumps_bytes d)) tx) (dm_chain s)\<rparr>"
proof -
  from process_ok[OF assms] obtain sh s1 t r0 cid where p: "int_now (d_sys (demo_deps E)) s = (Inr t, s1)"
    "single_record g sh att t = Inr r0" "publish (demo_deps E) (demo_bridge signer) att r0 s1 = (Inr (cid, tx, r), s')" by blast
  obtain w where w: "s1 = s\<lparr>dm_env := w\<rparr>" using demo_now[OF p(1)] by blast
  from publish_ok[OF p(3)] obtain d s2 where d: "prov_to_dict r0 = Inr d" "pin_provenance_record demo_ipfs d s1 = (Inr cid, s2)"
    "validate_cid cid = Inr ()" "submit_with_cid (demo_deps E) (demo_bridge signer) att cid s2 = (Inr tx, s')"
    "r = r0\<lparr>ipfs_cid := JStr cid, tx_ref := JStr tx\<rparr>" unfolding demo_ipfs_used by blast
  have "tx_ref r0 = JNull" "ipfs_cid r0 = JNull" using p(2) by (auto simp: single_record_def res_simps)
  then have "unsubmitted r = r0" using d(5) by (simp add: unsubmitted_def)
  moreover have "cid = simulated_cid (dumps_bytes d)" "s2 = s1\<lparr>dm_store := dict_set cid (dumps_bytes d) (dm_store s1)\<rparr>"
    using d(2) by (auto simp: pin_demo)
  moreover have "length (feed_id (att_payload att)) \<le> 32" "tx = tx_name (dm_counter s2 + 1)"
    using d(4)[unfolded submit_demo[OF d(3)]] by (simp_all add: fake_submit_cases raise_def split: if_splits)
  ultimately show ?thesis
    using d(1,5) d(4)[unfolded submit_demo[OF d(3)]] w
    by (intro exI[of _ d] exI[of _ w]) (auto simp: fake_submit_cases)
qed

section \<open>The invariant of the reachable states\<close>

definition happened :: "'w demo \<Rightarrow> pystr \<Rightarrow> bool" where
  "happened s tx \<longleftrightarrow> (\<exists>n. 1 \<le> n \<and> n \<le> dm_counter s \<and> tx = tx_name n)"

definition demo_ok :: "'w demo \<Rightarrow> bool" where
  "demo_ok s \<longleftrightarrow> addressed s \<and> int (length (dm_log s)) \<le> dm_counter s \<and>
     (\<forall>e \<in> snd ` set (dm_chain s). oc_cid e \<in> pinned s \<and> happened s (oc_tx e)) \<and>
     (\<forall>l \<in> set (dm_log s). (\<exists>cid \<in> pinned s. lg_cid l = JStr cid) \<and> happened s (lg_tx l))"

lemma happened_later: "happened s tx \<Longrightarrow> dm_counter s \<le> dm_counter s' \<Longrightarrow> happened s' tx"
  by (auto simp: happened_def)

lemma demo_ok_grows:
  assumes "demo_ok s" "addressed s'" "pinned s \<subseteq> pinned s'" "dm_log s' = dm_log s" "dm_counter s \<le> dm_counter s'"
    "\<forall>e \<in> snd ` set (dm_chain s'). e \<in> snd ` set (dm_chain s) \<or> (oc_cid e \<in> pinned s' \<and> happened s' (oc_tx e))"
  shows "demo_ok s'"
  unfolding demo_ok_def
proof (intro conjI ballI)
  show "addressed s'" "int (length (dm_log s')) \<le> dm_counter s'" using assms by (auto simp: demo_ok_def)
next
  fix e assume "e \<in> snd ` set (dm_chain s')"
  then consider "e \<in> snd ` set (dm_chain s)" | "oc_cid e \<in> pinned s' \<and> happened s' (oc_tx e)" using assms(6) by blast
  then have "oc_cid e \<in> pinned s' \<and> happened s' (oc_tx e)"
  proof cases
    case 1
    then have "oc_cid e \<in> pinned s" "happened s (oc_tx e)" using assms(1) unfolding demo_ok_def by blast+
    then show ?thesis using assms(3) happened_later[OF _ assms(5)] by blast
  qed
  then show "oc_cid e \<in> pinned s'" "happened s' (oc_tx e)" by simp_all
next
  fix l assume "l \<in> set (dm_log s')"
  then have "l \<in> set (dm_log s)" using assms(4) by simp
  then have l: "\<exists>cid \<in> pinned s. lg_cid l = JStr cid" "happened s (lg_tx l)" using assms(1) unfolding demo_ok_def by blast+
  show "\<exists>cid \<in> pinned s'. lg_cid l = JStr cid" using l(1) assms(3) by blast
  show "happened s' (lg_tx l)" using l(2) assms(5) by (rule happened_later)
qed

lemma process_keeps_ok:
  assumes "demo_ok s" "process (demo_deps E) (demo_bridge signer) g s = (x, s')"
  shows "demo_ok s' \<and> dm_log s' = dm_log s"
proof -
  have s': "s' = snd (process (demo_deps E) (demo_bridge signer) g s)" using assms(2) by simp
  have a: "addressed s'" "pinned s \<subseteq> pinned s'" "dm_log s' = dm_log s"
    using adds_process[of E signer g] assms unfolding adds_def s' demo_ok_def by blast+
  show ?thesis
  proof (cases "(dm_chain s', dm_counter s') = (dm_chain s, dm_counter s)")
    case True
    have "demo_ok s'" by (rule demo_ok_grows[OF assms(1) a]) (use True in auto)
    then show ?thesis using a(3) by simp
  next
    case False
    from demo.process_submits[OF False[unfolded s'], unfolded demo.submitted_record_def demo_ipfs_used, folded s']
    obtain att d cid s1 s2 where f: "pin_provenance_record demo_ipfs d s1 = (Inr cid, s2)" "validate_cid cid = Inr ()"
      "(dm_chain s2, dm_counter s2) = (dm_chain s, dm_counter s)"
      "s' = snd (submit_with_cid (demo_deps E) (demo_bridge signer) att cid s2)" by blast
    have s2: "cid \<in> pinned s2" "0 \<le> dm_counter s2" using f(1,3) assms(1) by (auto simp: pin_demo pinned_def demo_ok_def)
    have "demo_ok s'"
    proof (rule demo_ok_grows[OF assms(1) a])
      show "dm_counter s \<le> dm_counter s'" using f(3,4) by (simp add: submit_demo[OF f(2)] fake_submit_cases)
      have "happened s' (tx_name (dm_counter s2 + 1))" if "length (feed_id (att_payload att)) \<le> 32"
        using that f(4) s2(2) unfolding happened_def
        by (intro exI[of _ "dm_counter s2 + 1"]) (simp add: submit_demo[OF f(2)] fake_submit_cases)
      moreover have "dm_chain s' = dm_chain s \<or> (length (feed_id (att_payload att)) \<le> 32 \<and>
          (\<exists>k. dm_chain s' = dict_set k (listed att cid (tx_name (dm_counter s2 + 1))) (dm_chain s)))"
        using f(3,4) by (auto simp: submit_demo[OF f(2)] fake_submit_cases)
      moreover have "cid \<in> pinned s'"
        using f(4) s2(1) by (auto simp: submit_demo[OF f(2)] fake_submit_cases pinned_def split: if_splits)
      ultimately show "\<forall>e \<in> snd ` set (dm_chain s'). e \<in> snd ` set (dm_chain s) \<or> (oc_cid e \<in> pinned s' \<and> happened s' (oc_tx e))"
        using values_dict_set[of _ _ "listed att cid (tx_name (dm_counter s2 + 1))" "dm_chain s"]
        by (metis chain_entry.select_convs(5,6) listed_def)
    qed
    then show ?thesis using a(3) by simp
  qed
qed

text \<open>Actions that keep the invariant.\<close>

definition safe :: "('a, 'w demo) act \<Rightarrow> bool" where
  "safe m \<longleftrightarrow> (\<forall>s. demo_ok s \<longrightarrow> demo_ok (snd (m s)))"

lemma safe_lift [intro]: "safe (liftW x)"
  by (simp add: safe_def)

lemma safe_Pair: "safe (Pair x)"
  by (simp add: safe_def)

lemma safe_bind [intro]: "safe m \<Longrightarrow> (\<And>x. safe (f x)) \<Longrightarrow> safe (bindW m f)"
  unfolding safe_def bindW_def by (fastforce split: prod.splits sum.splits)

lemma safe_now:
  fixes E :: "('k, 'w) deps"
  shows "safe (int_now (d_sys (demo_deps E)))"
  unfolding safe_def
proof (intro allI impI)
  fix s :: "'w demo"
  assume "demo_ok s"
  moreover obtain w where "snd (int_now (d_sys (demo_deps E)) s) = s\<lparr>dm_env := w\<rparr>" using demo_now by (metis prod.collapse)
  ultimately show "demo_ok (snd (int_now (d_sys (demo_deps E)) s))"
    by (simp add: demo_ok_def addressed_def pinned_def happened_def)
qed

lemma safe_logged:
  assumes "demo_ok s" "process (demo_deps E) (demo_bridge signer) g s = (Inr (att, tx, r), s1)"
  shows "demo_ok (snd (append_log fid out tx r s1))"
proof -
  have k: "demo_ok s1" "dm_log s1 = dm_log s" using process_keeps_ok[OF assms] by auto
  from process_success[OF assms(2)] obtain d where d: "ipfs_cid r = JStr (simulated_cid (dumps_bytes d))"
    "simulated_cid (dumps_bytes d) \<in> pinned s1" "tx = tx_name (dm_counter s1)" "dm_counter s1 = dm_counter s + 1"
    by (auto simp: pinned_def)
  have n: "int (length (dm_log s1)) < dm_counter s1" "happened s1 tx"
    using assms(1) k(2) d(3,4) by (auto simp: demo_ok_def happened_def intro!: exI[of _ "dm_counter s + 1"])
  have ok: "demo_ok (s1\<lparr>dm_log := dm_log s1 @ [\<lparr>lg_feed = fid, lg_value = out, lg_cid = ipfs_cid r, lg_tx = tx, lg_at = t\<rparr>]\<rparr>)" for t
    using k(1) n d(1,2) by (auto simp: demo_ok_def addressed_def pinned_def happened_def)
  have "snd (append_log fid out tx r s1) = s1 \<or> (\<exists>t. snd (append_log fid out tx r s1) =
      s1\<lparr>dm_log := dm_log s1 @ [\<lparr>lg_feed = fid, lg_value = out, lg_cid = ipfs_cid r, lg_tx = tx, lg_at = t\<rparr>]\<rparr>)"
    unfolding append_log_def by (auto simp: bindW_def split: sum.split)
  then show ?thesis using k(1) ok by metis
qed

lemma safe_submit:
  fixes E :: "('k, 'w) deps"
  shows "safe (demo_submit E signer g fid out)"
  unfolding safe_def
proof (intro allI impI)
  fix s :: "'w demo"
  assume ok: "demo_ok s"
  obtain x s1 where p: "process (demo_deps E) (demo_bridge signer) g s = (x, s1)" by fastforce
  show "demo_ok (snd (demo_submit E signer g fid out s))"
  proof (cases x)
    case (Inl e)
    then show ?thesis using process_keeps_ok[OF ok p] p by (simp add: demo_submit_def)
  next
    case (Inr y)
    then obtain att tx r where "x = Inr (att, tx, r)" by (cases y) auto
    then have "demo_ok (snd (append_log fid out tx r s1))" "demo_submit E signer g fid out s =
        bindW (append_log fid out tx r) (\<lambda>_. liftW (Inr (Submitted tx (ipfs_cid r)))) s1"
      using safe_logged[OF ok, of E signer g att tx r s1 fid out] p by (simp_all add: demo_submit_def)
    then show ?thesis by (auto simp: bindW_def split: prod.split sum.split)
  qed
qed

lemma safe_post: "safe (handle_submit_post E signer body)"
  unfolding handle_submit_post_def Let_def mk_gee_result_def
  by (auto split: option.split sum.split json.split intro!: safe_bind safe_lift safe_Pair safe_now safe_submit)

lemma safe_answer:
  fixes E :: "('k, 'w) deps"
  shows "safe (answer E signer rep req)"
proof (cases req)
  case (Get path cid)
  have "snd (answer E signer rep (Get path cid) s) = s" for s :: "'w demo"
    by (simp add: answer_def do_GET_def handle_verify_def fetch_provenance_record_def demo_ipfs_def bindW_def
        split: sum.split)
  then show ?thesis using Get by (simp add: safe_def)
next
  case (Post path body)
  then show ?thesis by (auto simp: answer_def do_POST_def intro!: safe_bind safe_post)
qed

lemma safe_seed:
  fixes E :: "('k, 'w) deps"
  shows "safe (seed E signer)"
proof -
  have "safe (seed_one E signer fid out aoi)" for fid out aoi
    unfolding safe_def
  proof (intro allI impI)
    fix s :: "'w demo"
    assume ok: "demo_ok s"
    obtain x s1 where p: "process (demo_deps E) (demo_bridge signer) (seed_result fid out aoi) s = (x, s1)" by fastforce
    show "demo_ok (snd (seed_one E signer fid out aoi s))"
      using process_keeps_ok[OF ok p] safe_logged[OF ok] p
      by (cases x) (auto simp: seed_one_def bindW_def)
  qed
  then show ?thesis unfolding seed_def by (intro safe_bind)
qed

text \<open>C24: in every state the running server reaches, the store is content addressed; each entry of the
  chain and of the log has an identifier that is in the store and the name of one of the
  transactions counted so far; and there are at least as many transactions as log entries.\<close>

theorem demo_invariant:
  assumes "demo_reachable E signer rep s"
  shows "(\<forall>(cid, b) \<in> set (dm_store s). cid = simulated_cid b) \<and> int (length (dm_log s)) \<le> dm_counter s \<and>
    (\<forall>e \<in> snd ` set (dm_chain s). oc_cid e \<in> pinned s \<and> happened s (oc_tx e)) \<and>
    (\<forall>l \<in> set (dm_log s). (\<exists>cid \<in> pinned s. lg_cid l = JStr cid) \<and> happened s (lg_tx l))"
proof -
  have "demo_ok s" using assms
  proof induction
    case (seeded w s)
    have "demo_ok (demo_start w)" by (simp add: demo_ok_def demo_start_def addressed_def)
    then show ?case using safe_seed seeded unfolding safe_def by (metis snd_conv)
  next
    case (answered s req r s')
    then show ?case using safe_answer unfolding safe_def by (metis snd_conv)
  qed
  then show ?thesis unfolding demo_ok_def addressed_def by blast
qed

section \<open>Verifying what was submitted\<close>

lemma in_key_order: "json_ok (JDict kvs) \<Longrightarrow> \<exists>kvs'. canon (JDict kvs) = JDict kvs'"
  by simp

lemma cell_total: "\<exists>c. cell rep k dflt (canon (JDict kvs)) = Inr c"
  by (simp add: cell_def)

lemma no_surprise: "(\<And>m. m \<in> set ms \<Longrightarrow> \<exists>x. m = Inr x) \<Longrightarrow> \<exists>xs. mapE (\<lambda>m. m) ms = Inr xs"
  by (induction ms) force+

lemma details_total:
  assumes "get_or (lit ''aggregation'') JNull (canon (JDict doc)) = Inr JNull"
    "get_or (lit ''output_value'') JNull (canon (JDict cmp)) = Inr (JInt n)"
  shows "\<exists>cells. detail_cells rep (canon (JDict doc)) (canon (JDict gs)) (canon (JDict cmp)) (canon (JDict att))
    (canon (JDict sub)) = Inr cells"
proof -
  have "aggregation_cells rep (canon (JDict doc)) = Inr []"
    using assms(1) by (simp add: aggregation_cells_def truthy_def del: canon.simps)
  moreover have "\<exists>c. bindE (get_or (lit ''output_value'') JNull (canon (JDict cmp))) (comma_text rep) = Inr c"
    using assms(2) by (simp add: comma_text_def del: canon.simps)
  ultimately show ?thesis unfolding detail_cells_def
    using no_surprise[of "[cell rep ''schema_version'' JNull (canon (JDict doc)), cell rep ''record_type'' JNull (canon (JDict doc)),
       cell rep ''asset_path'' JNull (canon (JDict gs)), cell rep ''version_tag'' JNull (canon (JDict gs)),
       cell rep ''version_hash'' (JStr []) (canon (JDict gs)), cell rep ''feed_id'' JNull (canon (JDict cmp)),
       bindE (get_or (lit ''output_value'') JNull (canon (JDict cmp))) (comma_text rep),
       cell rep ''timestamp_iso'' JNull (canon (JDict cmp)), cell rep ''public_key'' (JStr []) (canon (JDict att)),
       cell rep ''submitted_at_iso'' JNull (canon (JDict sub)), cell rep ''tx_ref'' (js ''N/A'') (canon (JDict sub)),
       cell rep ''ipfs_cid'' (js ''N/A'') (canon (JDict sub))]"] cell_total
    by (force simp del: canon.simps mapE.simps)
qed

lemma page_own:
  assumes "prov_to_dict r = Inr d" "json_ok d" "lightweight_validate d = Inr []" "agg_meta r = JNull"
    "from_bytes (payload_bytes r) = Inr p" "out_value r = JInt (output_value p)" "ts_utc r = JInt (timestamp_utc p)"
    "att_public_key r = JStr (hex pk)" "att_signature r = JStr (hex sg)" "ed_public_ok C pk"
    "ed_verify C pk sg (payload_bytes r)"
  shows "\<exists>cells raw. verify_page C None rep (canon d) =
    Inr (Checked [] True True (Some (output_value p)) (Some (timestamp_utc p)) (Inr ()) cells raw)"
proof -
  from assms(1) obtain preview sub_iso ts_iso where
    d: "d = record_block r (gee_script_block r preview) (submission_block r sub_iso)
          (params_hash_hex (input_params r)) ts_iso"
    unfolding prov_to_dict_ok by blast
  note f = from_bytes_fields[OF assms(5)]
  note i = record_fields(1-5)[of r "gee_script_block r preview" "submission_block r sub_iso"
      "params_hash_hex (input_params r)" ts_iso, folded d, THEN index_canon[OF assms(2)]]
  have v: "validate_provenance_record None (canon d) = Inr ()"
    using assms(3) lightweight_canon[OF assms(2)] by (simp add: validate_provenance_record_def)
  define ip cmp att where ip: "ip = [(lit ''params'', input_params r), (lit ''params_hash'', JStr (params_hash_hex (input_params r)))]"
    and cmp: "cmp = [(lit ''output_value'', out_value r), (lit ''feed_id'', feed r), (lit ''timestamp_utc'', ts_utc r),
      (lit ''timestamp_iso'', JStr ts_iso)]"
    and att: "att = [(lit ''schema_version'', JInt 1), (lit ''public_key'', att_public_key r),
      (lit ''signature'', att_signature r), (lit ''payload_hex'', JStr (hex (payload_bytes r)))]"
  note i = i[folded ip cmp att]
  have "index (lit ''params'') (JDict ip) = Inr (input_params r)"
    "index (lit ''params_hash'') (JDict ip) = Inr (JStr (params_hash_hex (input_params r)))"
    "index (lit ''output_value'') (JDict cmp) = Inr (JInt (output_value p))"
    "index (lit ''timestamp_utc'') (JDict cmp) = Inr (JInt (timestamp_utc p))"
    unfolding ip cmp using assms(6,7) by simp_all
  from this(1,2)[THEN index_canon[OF conjunct2[OF i(5)]]] this(3,4)[THEN index_canon[OF conjunct2[OF i(3)]]]
  have x: "index (lit ''params'') (canon (JDict ip)) = Inr (canon (input_params r))"
    "index (lit ''params_hash'') (canon (JDict ip)) = Inr (JStr (params_hash_hex (input_params r)))"
    "index (lit ''output_value'') (canon (JDict cmp)) = Inr (JInt (output_value p))"
    "index (lit ''timestamp_utc'') (canon (JDict cmp)) = Inr (JInt (timestamp_utc p))"
    by (simp_all del: canon.simps(2))
  have a: "decode_hex_field ''payload_hex'' (canon (JDict att)) = Inr (payload_bytes r)"
    "decode_hex_field ''public_key'' (canon (JDict att)) = Inr pk" "decode_hex_field ''signature'' (canon (JDict att)) = Inr sg"
    unfolding decode_canon[OF conjunct2[OF i(2)]] unfolding att decode_hex_field_def using assms(8,9) by simp_all
  have m: "agg_meta (written r) = JNull" using assms(4) by (simp add: written_def truthy_def)
  have "get_or (lit ''aggregation'') JNull d = Inr JNull" unfolding d record_fields(7) m ..
  from get_or_canon[OF assms(2) this] have g: "get_or (lit ''aggregation'') JNull (canon d) = Inr JNull" by simp
  obtain kvs where kvs: "d = JDict kvs" using d by (simp add: record_block_def)
  obtain cells where "detail_cells rep (canon d) (canon (gee_script_block r preview)) (canon (JDict cmp)) (canon (JDict att))
      (canon (submission_block r sub_iso)) = Inr cells"
    using details_total[of kvs cmp "output_value p" rep] g get_index[OF x(3)]
    unfolding kvs gee_script_block_def submission_block_def by blast
  then show ?thesis
    unfolding verify_page_def v i[THEN conjunct1] sum.case bindE.simps x a Let_def
    using f(1) f(2,3)[symmetric] assms(10,11)
    by (simp add: payload_int_def eq_opt_def demo_signature_def mk_verifier_def a eq_str_def params_hash_canon del: canon.simps(2))
qed

lemma utc_iso_valid: "utc_iso v = Inr x \<Longrightarrow> valid_text x"
  by (cases v) (auto simp: utc_iso_def res_simps valid_iso)

lemma single_document:
  assumes "single_record g sh att t = Inr r" "prov_to_dict r = Inr d" "g_feed g = FStr fid" "valid_text fid"
    "valid_text (g_source g)" "valid_text (g_asset g)" "valid_text (g_tag g)" "json_ok (JDict (g_params g))"
  shows "json_ok d"
proof -
  obtain pb where pb: "to_bytes (att_payload att) = Inr pb" using assms(1) by (auto simp: single_record_def res_simps)
  have r: "asset_path r = JStr (g_asset g)" "version_hash r = JStr (hex sh)" "version_tag r = JStr (g_tag g)"
    "input_params r = JDict (g_params g)" "out_value r = JInt (g_output g)" "feed r = JStr fid" "ts_utc r = JInt (g_time g)"
    "att_public_key r = JStr (hex (public_key att))" "att_signature r = JStr (hex (signature att))"
    "record_type r = JStr (lit ''single'')" "agg_meta r = JNull" "tx_ref r = JNull" "ipfs_cid r = JNull"
    "submitted_at r = JInt t" "source_preview r = JStr (take 512 (g_source g))"
    using assms(1,3) pb by (auto simp: single_record_def feed_text_def res_simps)
  from assms(2) obtain preview sub_iso ts_iso where p: "preview_of r = Inr preview" "utc_iso (JInt t) = Inr sub_iso"
    "utc_iso (JInt (g_time g)) = Inr ts_iso" and
    d: "d = record_block r (gee_script_block r preview) (submission_block r sub_iso)
          (params_hash_hex (input_params r)) ts_iso"
    unfolding prov_to_dict_ok r by blast
  have "valid_text (take n (g_source g))" for n
    using assms(5) by (auto simp: valid_text_def dest: in_set_takeD)
  then have "list_all (\<lambda>(k, v). valid_text k \<and> json_ok v) preview \<and> set (dict_keys preview) \<subseteq> {lit ''source_preview''} \<and>
      distinct (dict_keys preview)"
    using p(1) by (auto simp: preview_of_def r preview512_def valid_literal split: if_splits)
  moreover have "valid_text sub_iso" "valid_text ts_iso" using p(2,3)[THEN utc_iso_valid] by simp_all
  ultimately show ?thesis
    using assms(4,6,7,8) unfolding d
    by (auto simp: record_block_def gee_script_block_def submission_block_def r opt_field_def truthy_def eq_str_def
        valid_literal valid_hex params_hash_hex_def)
qed

lemma append_total:
  assumes "process (demo_deps E) (demo_bridge signer) g s = (Inr (att, tx, r), s1)"
  shows "\<exists>t. append_log fid out tx r s1 =
    (Inr (), s1\<lparr>dm_log := dm_log s1 @ [\<lparr>lg_feed = fid, lg_value = out, lg_cid = ipfs_cid r, lg_tx = tx, lg_at = t\<rparr>]\<rparr>)"
proof -
  from process_success[OF assms] obtain d where "prov_to_dict (unsubmitted r) = Inr d" by blast
  then obtain d' where d: "prov_to_dict r = Inr d'"
    using references_keep_writing[where r = r and x = "ipfs_cid r" and y = "tx_ref r"]
      references_keep_writing[where r = r and x = JNull and y = JNull]
    by (auto simp: unsubmitted_def)
  then obtain t where "bindE (index (lit ''submission'') d') (index (lit ''submitted_at_iso'')) = Inr t"
    unfolding prov_to_dict_ok by (auto simp: record_fields submission_block_def)
  with d show ?thesis by (auto simp: append_log_def)
qed

lemma confirmed_details:
  assumes "ed25519_laws (d_crypto E)" "d_schema E = None" "g_feed g = FStr fid"
    "json_ok (JDict (g_params g))" "valid_text (g_asset g)" "valid_text (g_tag g)"
    "demo_submit E signer g fid (g_output g) s = (Inr (Submitted tx v), s')"
  shows "\<exists>cid sh padded entry cells raw d. v = JStr cid \<and> tx = tx_name (dm_counter s + 1) \<and>
    script_hash_of g = Inr sh \<and> pad_feed_id (FStr fid) = Inr padded \<and>
    map_of (dm_chain s') (hex padded) = Some \<lparr>oc_value = g_output g, oc_time = g_time g, oc_script = hex sh,
      oc_params = hex (canonical_params_hash (g_params g)), oc_cid = cid, oc_tx = tx\<rparr> \<and>
    dm_log s' = dm_log s @ [entry] \<and> lg_feed entry = fid \<and> lg_value entry = g_output g \<and> lg_cid entry = v \<and> lg_tx entry = tx \<and>
    handle_verify E rep cid s' = (Inr (VerifyPage cid
      (Checked [] True True (Some (g_output g)) (Some (g_time g)) (Inr ()) cells raw)), s') \<and>
    json_ok d \<and> fetch_provenance_record demo_ipfs cid s' = (Inr (canon d), s') \<and> cid = simulated_cid (dumps_bytes d)"
proof -
  obtain x s1 where p: "process (demo_deps E) (demo_bridge signer) g s = (x, s1)" by fastforce
  have "\<exists>att r. x = Inr (att, tx, r) \<and> v = ipfs_cid r \<and> snd (append_log fid (g_output g) tx r s1) = s'"
    using assms(7) p by (cases x) (auto simp: demo_submit_def bindW_def split: if_splits prod.splits sum.splits)
  then obtain att r where x: "process (demo_deps E) (demo_bridge signer) g s = (Inr (att, tx, r), s1)" "v = ipfs_cid r"
    "snd (append_log fid (g_output g) tx r s1) = s'" using p by blast
  have c: "d_crypto (demo_deps E) = d_crypto E" "d_schema (demo_deps E) = None" using assms(2) by (simp_all add: demo_deps_def)
  have b: "b_signer (demo_bridge signer) = signer" by (simp add: demo_bridge_def mk_bridge_def)
  from process_ok[OF x(1), unfolded c b] obtain sh w1 t r0 cid0 where q: "script_hash_of g = Inr sh"
    "attest (d_crypto E) signer sh (ParamsDict (g_params g)) (g_output g) (g_time g) (g_feed g) = Inr att"
    "single_record g sh att t = Inr r0" "publish (demo_deps E) (demo_bridge signer) att r0 w1 = (Inr (cid0, tx, r), s1)" by blast
  note a = attested[OF assms(1) q(2)]
  note f = single_record_ok[OF q(3) a(4)]
  from a(3) assms(3) obtain padded where pad: "pad_feed_id (FStr fid) = Inr padded" "att_payload att =
      \<lparr>script_hash = sh, input_params_hash = canonical_params_hash (g_params g), output_value = g_output g,
       timestamp_utc = g_time g, feed_id = padded, schema_version = 1\<rparr>" by auto
  have len: "length padded = 32" and fv: "valid_text fid" using pad(1) utf8_encode_ok by (auto simp: pad_feed_id_ok)
  from process_success[OF x(1)] obtain d w where d: "prov_to_dict (unsubmitted r) = Inr d"
    "ipfs_cid r = JStr (simulated_cid (dumps_bytes d))" "tx = tx_name (dm_counter s + 1)"
    "s1 = s\<lparr>dm_store := dict_set (simulated_cid (dumps_bytes d)) (dumps_bytes d) (dm_store s),
      dm_counter := dm_counter s + 1, dm_env := w, dm_chain := dict_set (hex padded)
        (listed att (simulated_cid (dumps_bytes d)) tx) (dm_chain s)\<rparr>"
    unfolding pad(2) payload.select_convs len by auto
  from publish_ok[OF q(4), unfolded c] obtain d0 where d0: "prov_to_dict r0 = Inr d0"
    "validate_provenance_record None d0 = Inr ()" "r = r0\<lparr>ipfs_cid := JStr cid0, tx_ref := JStr tx\<rparr>" by blast
  have u: "unsubmitted r = r0" using d0(3) f by (simp add: unsubmitted_def)
  then have val: "validate_provenance_record None d = Inr ()" using d(1) d0 by simp
  have "valid_text (g_source g)" using q(1) utf8_encode_ok by (auto simp: script_hash_of_def res_simps)
  then have ok: "json_ok d" using single_document[OF q(3) d(1)[unfolded u] assms(3) fv] assms(4-6) by blast
  have "lightweight_validate d = Inr []"
    using val by (auto simp: validate_provenance_record_def res_simps validation_failed_def split: if_splits)
  moreover have "ed_public_ok (d_crypto E) (public_key att)" using a(1) by (auto simp: mk_verifier_def raise_def split: if_splits)
  moreover have "ed_verify (d_crypto E) (public_key att) (signature att) (payload_bytes r0)"
    using a(2,4) f by (simp add: verify_def)
  ultimately obtain cells raw where page: "verify_page (d_crypto E) None rep (canon d) =
      Inr (Checked [] True True (Some (g_output g)) (Some (g_time g)) (Inr ()) cells raw)"
    using page_own[OF d(1)[unfolded u] ok, of "att_payload att" "public_key att" "signature att" "d_crypto E" rep] f a(6) pad(2)
    by auto
  obtain iso_at where l: "s' = s1\<lparr>dm_log := dm_log s1 @ [\<lparr>lg_feed = fid, lg_value = g_output g, lg_cid = ipfs_cid r,
      lg_tx = tx, lg_at = iso_at\<rparr>]\<rparr>"
    using append_total[OF x(1), of fid "g_output g"] x(3) by auto
  have fetched: "fetch_provenance_record demo_ipfs (simulated_cid (dumps_bytes d)) s' = (Inr (canon d), s')"
    using loads_bytes_dumps[OF ok]
    by (simp add: l d(4) fetch_provenance_record_def demo_ipfs_def sim_get_def dict_simps)
  have "simulated_cid (dumps_bytes d) \<noteq> []" by (metis length_simulated_cid list.size(3) zero_neq_numeral)
  with fetched have "handle_verify E rep (simulated_cid (dumps_bytes d)) s' = (Inr (VerifyPage (simulated_cid (dumps_bytes d))
      (Checked [] True True (Some (g_output g)) (Some (g_time g)) (Inr ()) cells raw)), s')"
    using assms(2) page by (simp add: handle_verify_def)
  moreover have "map_of (dm_chain s') (hex padded) = Some \<lparr>oc_value = g_output g, oc_time = g_time g, oc_script = hex sh,
      oc_params = hex (canonical_params_hash (g_params g)), oc_cid = simulated_cid (dumps_bytes d), oc_tx = tx\<rparr>"
    using pad(2) by (simp add: l d(4) dict_simps listed_def)
  moreover have "dm_log s' = dm_log s @ [\<lparr>lg_feed = fid, lg_value = g_output g, lg_cid = ipfs_cid r, lg_tx = tx, lg_at = iso_at\<rparr>]"
    by (simp add: l d(4))
  ultimately show ?thesis using x(2) d(2,3) q(1) pad(1) ok fetched by fastforce
qed

text \<open>A submission the demo confirms, with texts and parameters that are JSON values, put its data on
  the chain under its padded feed, logged it, and its identifier, given to the verification page,
  passes the four checks: structure, parameter hash, payload fields and signature.\<close>

theorem demo_confirms_verifiable:
  assumes "ed25519_laws (d_crypto E)" "d_schema E = None" "g_feed g = FStr fid"
    "json_ok (JDict (g_params g))" "valid_text (g_asset g)" "valid_text (g_tag g)"
    "demo_submit E signer g fid (g_output g) s = (Inr (Submitted tx v), s')"
  shows "\<exists>cid sh padded entry cells raw. v = JStr cid \<and> tx = tx_name (dm_counter s + 1) \<and>
    script_hash_of g = Inr sh \<and> pad_feed_id (FStr fid) = Inr padded \<and>
    map_of (dm_chain s') (hex padded) = Some \<lparr>oc_value = g_output g, oc_time = g_time g, oc_script = hex sh,
      oc_params = hex (canonical_params_hash (g_params g)), oc_cid = cid, oc_tx = tx\<rparr> \<and>
    dm_log s' = dm_log s @ [entry] \<and> lg_feed entry = fid \<and> lg_value entry = g_output g \<and> lg_cid entry = v \<and> lg_tx entry = tx \<and>
    handle_verify E rep cid s' = (Inr (VerifyPage cid
      (Checked [] True True (Some (g_output g)) (Some (g_time g)) (Inr ()) cells raw)), s')"
  using confirmed_details[OF assms, of rep] by (elim exE conjE, intro exI conjI) assumption+

section \<open>A running demo\<close>

lemma process_demo_total:
  assumes "ed25519_laws (d_crypto E)" "d_schema E = None" "submittable g"
    "int_now (d_sys (demo_deps E)) s = (Inr t, s1)" "MIN_TS \<le> t" "t \<le> MAX_TS"
  shows "\<exists>att tx r s'. process (demo_deps E) (demo_bridge signer) g s = (Inr (att, tx, r), s')"
proof -
  have "ed25519_laws (d_crypto (demo_deps E))" "d_schema (demo_deps E) = None" using assms(1,2) by (simp_all add: demo_deps_def)
  from process_chain[OF this assms(3-6), of "demo_bridge signer"] obtain att r d where
    c: "length (feed_id (att_payload att)) = 32" "process (demo_deps E) (demo_bridge signer) g s =
      bindW (pin_provenance_record demo_ipfs d) (\<lambda>cid. bindW (submit_with_cid (demo_deps E) (demo_bridge signer) att cid)
        (\<lambda>tx. liftW (Inr (att, tx, r\<lparr>ipfs_cid := JStr cid, tx_ref := JStr tx\<rparr>)))) s1"
    unfolding demo_ipfs_used by blast
  have "validate_cid (simulated_cid (dumps_bytes d)) = Inr ()"
    using length_simulated_cid[of "dumps_bytes d"] by (auto simp: validate_cid_ok simp del: length_simulated_cid)
  then show ?thesis
    using c(1) by (simp add: c(2) pin_demo bindW_def submit_demo fake_submit_cases)
qed

lemma demo_sample_now: "int_now (d_sys (demo_deps sample_deps)) s = (Inr 1720051200, s)"
proof -
  have "rat_trunc 1720051200 = 1720051200" using rat_trunc_of_int[of 1720051200] by simp
  then show ?thesis by (simp add: int_now_def sample_deps_def demo_deps_def on_env_def bindW_def readW_def)
qed

lemma sample_demo_total:
  assumes "submittable g"
  shows "\<exists>att tx r s'. process (demo_deps sample_deps) (demo_bridge signer) g s = (Inr (att, tx, r), s')"
  by (rule process_demo_total[OF _ _ assms demo_sample_now])
    (simp_all add: sample_deps_def echo_laws MIN_TS_def MAX_TS_def)

lemma script_valid: "valid_text GEE_SCRIPT"
proof -
  have "ascii_text GEE_SCRIPT" by (simp add: GEE_SCRIPT_def ascii_lit)
  then show ?thesis by (rule ascii_valid)
qed

lemma seeds_submittable:
  "submittable (seed_result ''carbon/rwanda/2024'' 4815162342 aoi)" "submittable (seed_result ''carbon/kenya/2024'' 3221456789 aoi)"
  by (simp_all add: submittable_def seed_result_def script_valid in_signed_def MIN_TS_def MAX_TS_def utf8_encode_ascii
      ascii_lit feed_text_def)

lemma seed_one_total:
  assumes "submittable (seed_result fid out aoi)"
  shows "\<exists>s'. seed_one sample_deps signer fid out aoi s = (Inr (), s') \<and> length (dm_log s') = length (dm_log s) + 1"
proof -
  obtain att tx r s1 where p: "process (demo_deps sample_deps) (demo_bridge signer) (seed_result fid out aoi) s = (Inr (att, tx, r), s1)"
    using sample_demo_total[OF assms] by blast
  have "dm_log s1 = dm_log s" using process_success[OF p] by auto
  then show ?thesis using append_total[OF p, of "lit fid" out] p by (auto simp: seed_one_def bindW_def)
qed

lemma seeded_demo:
  "\<exists>s. demo_reachable (sample_deps :: (bytes, unit) deps) (replicate 32 7) (\<lambda>_. []) s \<and> length (dm_log s) = 2"
proof -
  obtain s1 where s1: "seed_one sample_deps (replicate 32 7) ''carbon/rwanda/2024'' 4815162342 ''POLYGON((30.1 -1.2,30.3 -1.0))''
      (demo_start ()) = (Inr (), s1)" "length (dm_log s1) = 1"
    using seed_one_total[OF seeds_submittable(1)] by (fastforce simp: demo_start_def)
  obtain s2 where s2: "seed_one sample_deps (replicate 32 7) ''carbon/kenya/2024'' 3221456789 ''POLYGON((36.8 -1.3,37.0 -1.1))''
      s1 = (Inr (), s2)" "length (dm_log s2) = 2"
    using seed_one_total[OF seeds_submittable(2)] s1(2) by fastforce
  have "seed sample_deps (replicate 32 7) (demo_start ()) = (Inr (), s2)"
    by (simp add: seed_def bindW_def s1(1) s2(1))
  then have "demo_reachable sample_deps (replicate 32 7) (\<lambda>_. []) s2" by (rule demo_reachable.seeded)
  then show ?thesis using s2(2) by blast
qed

lemma demo_invariant_witness:
  "\<exists>s. demo_reachable (sample_deps :: (bytes, unit) deps) (replicate 32 7) (\<lambda>_. []) s \<and> length (dm_log s) = 2 \<and> 2 \<le> dm_counter s"
proof -
  obtain s where s: "demo_reachable (sample_deps :: (bytes, unit) deps) (replicate 32 7) (\<lambda>_. []) s" "length (dm_log s) = 2"
    using seeded_demo by blast
  from demo_invariant[OF s(1)] s show ?thesis by auto
qed

abbreviation sample_result :: gee_result where
  "sample_result \<equiv> seed_result ''carbon/rwanda/2024'' 4815162342 ''POINT''"

lemma sample_confirmed:
  "\<exists>tx v s'. demo_submit (sample_deps :: (bytes, unit) deps) (replicate 32 7) sample_result (lit ''carbon/rwanda/2024'')
     (g_output sample_result) (demo_start ()) = (Inr (Submitted tx v), s')"
proof -
  obtain att tx r s1 where p: "process (demo_deps sample_deps) (demo_bridge (replicate 32 7)) sample_result (demo_start ()) =
      (Inr (att, tx, r), s1)"
    using sample_demo_total[OF seeds_submittable(1)] by blast
  show ?thesis
    using append_total[OF p, of "lit ''carbon/rwanda/2024''" "g_output sample_result"] p by (auto simp: demo_submit_def bindW_def)
qed

lemma sample_conditions:
  "ed25519_laws (d_crypto (sample_deps :: (bytes, unit) deps))" "d_schema (sample_deps :: (bytes, unit) deps) = None"
  "g_feed sample_result = FStr (lit ''carbon/rwanda/2024'')" "json_ok (JDict (g_params sample_result))"
  "valid_text (g_asset sample_result)" "valid_text (g_tag sample_result)"
  by (simp_all add: sample_deps_def echo_laws seed_result_def js_def valid_literal)

lemma demo_confirms_verifiable_witness:
  "\<exists>tx v s' cid checked. demo_submit (sample_deps :: (bytes, unit) deps) (replicate 32 7) sample_result
       (lit ''carbon/rwanda/2024'') (g_output sample_result) (demo_start ()) = (Inr (Submitted tx v), s') \<and> v = JStr cid \<and>
     handle_verify (sample_deps :: (bytes, unit) deps) (\<lambda>_. []) cid s' = (Inr (VerifyPage cid checked), s') \<and> tx = tx_name 1"
proof -
  obtain tx v s' where d: "demo_submit (sample_deps :: (bytes, unit) deps) (replicate 32 7) sample_result
      (lit ''carbon/rwanda/2024'') (g_output sample_result) (demo_start ()) = (Inr (Submitted tx v), s')"
    using sample_confirmed by blast
  have "dm_counter (demo_start ()) = 0" by (simp add: demo_start_def)
  with demo_confirms_verifiable[OF sample_conditions d, of "\<lambda>_. []"] d show ?thesis by auto
qed

end
