(* ===== verification/Demo_Refinement.thy ===== *)
theory Demo_Refinement
  imports Demo_Server_Properties
begin

text \<open>
  The demo server as an implementation of its log. Abstractly the server only appends entries: what is
  on the chain, how many transactions there were and what they are called are functions of the log,
  and a request appends an entry exactly when its answer is the page that confirms it.
\<close>

section \<open>The abstract state\<close>

text \<open>The key of an entry on the chain, and the chain that a log gives.\<close>

definition chain_key :: "log_entry \<Rightarrow> pystr" where
  "chain_key l = (case pad_feed_id (FStr (lg_feed l)) of Inr padded \<Rightarrow> hex padded | Inl _ \<Rightarrow> [])"

definition chain_of :: "log_entry list \<Rightarrow> (int \<times> json \<times> pystr) dict" where
  "chain_of ls = fold (\<lambda>l. dict_set (chain_key l) (lg_value l, lg_cid l, lg_tx l)) ls []"

definition chain_shown :: "'w demo \<Rightarrow> (int \<times> json \<times> pystr) dict" where
  "chain_shown s = map (\<lambda>(k, e). (k, oc_value e, JStr (oc_cid e), oc_tx e)) (dm_chain s)"

definition implements :: "'w demo \<Rightarrow> log_entry list \<Rightarrow> bool" where
  "implements s ls \<longleftrightarrow> dm_log s = ls \<and> chain_shown s = chain_of ls \<and> dm_counter s = int (length ls) \<and>
     map lg_tx ls = map (\<lambda>i. tx_name (int i + 1)) [0..<length ls]"

lemma dict_set_map: "map (\<lambda>(k, e). (k, f e)) (dict_set k v d) = dict_set k (f v) (map (\<lambda>(k, e). (k, f e)) d)"
  by (induction d) auto

section \<open>One submission\<close>

abbreviation board :: "'w demo \<Rightarrow> chain_entry dict \<times> int \<times> log_entry list" where
  "board s \<equiv> (dm_chain s, dm_counter s, dm_log s)"

definition appended :: "'w demo \<Rightarrow> log_entry \<Rightarrow> 'w demo \<Rightarrow> bool" where
  "appended s l s' \<longleftrightarrow> dm_log s' = dm_log s @ [l] \<and> dm_counter s' = dm_counter s + 1 \<and> lg_tx l = tx_name (dm_counter s + 1) \<and>
     chain_shown s' = dict_set (chain_key l) (lg_value l, lg_cid l, lg_tx l) (chain_shown s)"

lemma appended_implements:
  assumes "implements s ls" "appended s l s'"
  shows "implements s' (ls @ [l])"
  using assms by (simp add: implements_def appended_def chain_of_def)

lemma demo_signer: "b_signer (demo_bridge signer) = signer"
  by (simp add: demo_bridge_def mk_bridge_def)

lemma own_cid_valid: "validate_cid (simulated_cid b) = Inr ()"
  using length_simulated_cid[of b] by (auto simp: validate_cid_ok simp del: length_simulated_cid)

lemma publish_fails:
  assumes "publish (demo_deps E) (demo_bridge signer) att r s = (Inl e, s')" "length (feed_id (att_payload att)) \<le> 32"
  shows "s' = s"
proof (cases "prov_to_dict r")
  case (Inl e')
  then show ?thesis using assms(1) by (simp add: publish_def)
next
  case d: (Inr d)
  show ?thesis
  proof (cases "validate_provenance_record (d_schema (demo_deps E)) d")
    case (Inl e')
    then show ?thesis using assms(1) d by (simp add: publish_def)
  next
    case (Inr u)
    then show ?thesis
      using assms d by (simp add: publish_def demo_ipfs_used bindW_step[OF pin_demo] bindW_def submit_demo[OF own_cid_valid]
          fake_submit_cases)
  qed
qed

lemma process_fails:
  assumes "process (demo_deps E) (demo_bridge signer) g s = (Inl e, s')"
  shows "board s' = board s"
proof (cases "script_hash_of g")
  case (Inl e')
  then show ?thesis using assms by (simp add: process_def)
next
  case sh: (Inr sh)
  show ?thesis
  proof (cases "attest (d_crypto (demo_deps E)) signer sh (ParamsDict (g_params g)) (g_output g)
      (g_time g) (g_feed g)")
    case (Inl e')
    then show ?thesis using assms sh Inl by (simp add: process_def demo_signer)
  next
    case (Inr att)
    from attest_ok[OF this] have n: "length (feed_id (att_payload att)) \<le> 32" by (auto simp: pad_feed_id_ok)
    obtain x s1 where t: "int_now (d_sys (demo_deps E)) s = (x, s1)" by fastforce
    then have s1: "board s1 = board s" using demo_now by fastforce
    have "record_and_publish (demo_deps E) (demo_bridge signer) att (single_record g sh att) s = (Inl e, s')"
      using assms sh Inr by (auto simp: process_def res_simps demo_signer)
    then have "s' = s1 \<or> (\<exists>r. publish (demo_deps E) (demo_bridge signer) att r s1 = (Inl e, s'))"
      using t by (auto simp: record_and_publish_def res_simps)
    then have "s' = s1" using publish_fails[OF _ n] by metis
    then show ?thesis using s1 by simp
  qed
qed

lemma process_succeeds:
  assumes "process (demo_deps E) (demo_bridge signer) g s = (Inr (att, tx, r), s1)" "g_feed g = FStr fid"
  shows "\<exists>l s'. append_log fid (g_output g) tx r s1 = (Inr (), s') \<and> appended s l s' \<and> lg_tx l = tx \<and> lg_cid l = ipfs_cid r"
proof -
  from process_success[OF assms(1)] obtain d w where d: "ipfs_cid r = JStr (simulated_cid (dumps_bytes d))"
    "tx = tx_name (dm_counter s + 1)" "s1 = s\<lparr>dm_store := dict_set (simulated_cid (dumps_bytes d)) (dumps_bytes d) (dm_store s),
      dm_counter := dm_counter s + 1, dm_env := w, dm_chain := dict_set (hex (feed_id (att_payload att) @
        replicate (32 - length (feed_id (att_payload att))) 0)) (listed att (simulated_cid (dumps_bytes d)) tx) (dm_chain s)\<rparr>"
    by (elim exE conjE) (rule that)
  from process_ok[OF assms(1), unfolded demo_signer] obtain sh where "attest (d_crypto (demo_deps E)) signer sh
      (ParamsDict (g_params g)) (g_output g) (g_time g) (g_feed g) = Inr att" by (elim exE conjE) (rule that)
  from attest_ok[OF this] obtain padded where p: "pad_feed_id (FStr fid) = Inr padded" "feed_id (att_payload att) = padded"
    "output_value (att_payload att) = g_output g" using assms(2) by auto
  have "length padded = 32" using p(1) by (auto simp: pad_feed_id_ok)
  with d(3) p have s1: "chain_shown s1 = dict_set (hex padded) (g_output g, ipfs_cid r, tx) (chain_shown s)"
    "dm_counter s1 = dm_counter s + 1" "dm_log s1 = dm_log s"
    by (simp_all add: chain_shown_def dict_set_map listed_def d(1))
  obtain t where a: "append_log fid (g_output g) tx r s1 = (Inr (), s1\<lparr>dm_log := dm_log s1 @
      [\<lparr>lg_feed = fid, lg_value = g_output g, lg_cid = ipfs_cid r, lg_tx = tx, lg_at = t\<rparr>]\<rparr>)"
    using append_total[OF assms(1), of fid "g_output g"] by (elim exE) (rule that)
  define l where l: "l = \<lparr>lg_feed = fid, lg_value = g_output g, lg_cid = ipfs_cid r, lg_tx = tx, lg_at = t\<rparr>"
  have "appended s l (s1\<lparr>dm_log := dm_log s1 @ [l]\<rparr>)"
    using s1 d(2) p(1) by (simp add: appended_def l chain_key_def chain_shown_def)
  then show ?thesis using a by (auto simp: l)
qed

section \<open>One request\<close>

text \<open>An action that either leaves the board as it is, or appends an entry and answers with the page that
  confirms it.\<close>

abbreviation confirming :: "log_entry \<Rightarrow> page option" where
  "confirming l \<equiv> Some (SubmitPage (Submitted (lg_tx l) (lg_cid l)))"

definition posting :: "(page option, 'w demo) act \<Rightarrow> bool" where
  "posting m \<longleftrightarrow> (\<forall>s r s'. m s = (r, s') \<longrightarrow>
     (board s' = board s \<and> (\<forall>l. r \<noteq> Inr (confirming l))) \<or> (\<exists>l. appended s l s' \<and> r = Inr (confirming l)))"

lemma posting_lift: "(\<And>l. x \<noteq> Inr (confirming l)) \<Longrightarrow> posting (liftW x)"
  by (simp add: posting_def)

lemma posting_Pair: "(\<And>l. x \<noteq> Inr (confirming l)) \<Longrightarrow> posting (Pair x)"
  by (simp add: posting_def)

lemma posting_bind:
  assumes "keeps board m" "\<And>x s s1. m s = (Inr x, s1) \<Longrightarrow> posting (f x)"
  shows "posting (bindW m f)"
  unfolding posting_def
proof (intro allI impI)
  fix s r s' assume b: "bindW m f s = (r, s')"
  obtain x s1 where m: "m s = (x, s1)" by fastforce
  have k: "board s1 = board s" using keepsD[OF assms(1) m] .
  show "(board s' = board s \<and> (\<forall>l. r \<noteq> Inr (confirming l))) \<or> (\<exists>l. appended s l s' \<and> r = Inr (confirming l))"
  proof (cases x)
    case (Inl e)
    then show ?thesis using b m k by (auto simp: bindW_def)
  next
    case (Inr y)
    then have "f y s1 = (r, s')" "posting (f y)" using b m assms(2)[of s y s1] by (auto simp: bindW_def)
    then have "(board s' = board s1 \<and> (\<forall>l. r \<noteq> Inr (confirming l))) \<or> (\<exists>l. appended s1 l s' \<and> r = Inr (confirming l))"
      unfolding posting_def by blast
    moreover have "appended s1 l s' = appended s l s'" for l using k by (simp add: appended_def chain_shown_def)
    ultimately show ?thesis using k by simp
  qed
qed

lemma posting_submit:
  assumes "g_feed g = FStr fid" "g_output g = out"
  shows "posting (bindW (demo_submit E signer g fid out) (\<lambda>n. liftW (Inr (Some (SubmitPage n)))))"
  unfolding posting_def
proof (intro allI impI)
  fix s r s' assume b: "bindW (demo_submit E signer g fid out) (\<lambda>n. liftW (Inr (Some (SubmitPage n)))) s = (r, s')"
  obtain x s1 where p: "process (demo_deps E) (demo_bridge signer) g s = (x, s1)" by fastforce
  show "(board s' = board s \<and> (\<forall>l. r \<noteq> Inr (confirming l))) \<or> (\<exists>l. appended s l s' \<and> r = Inr (confirming l))"
  proof (cases x)
    case (Inl e)
    then have "board s1 = board s" using process_fails[OF p[unfolded Inl]] by simp
    then show ?thesis using b p Inl by (auto simp: demo_submit_def bindW_def split: if_splits)
  next
    case (Inr y)
    obtain att tx r0 where y: "y = (att, tx, r0)" by (cases y)
    from process_succeeds[OF p[unfolded Inr y] assms(1)] obtain l s2 where l: "append_log fid out tx r0 s1 = (Inr (), s2)"
      "appended s l s2" "lg_tx l = tx" "lg_cid l = ipfs_cid r0" unfolding assms(2) by (elim exE conjE) (rule that)
    then show ?thesis using b p Inr y by (auto simp: demo_submit_def bindW_def)
  qed
qed

text \<open>The result of a form has its feed and its value, and making it moves only the clock.\<close>

lemma keeps_now:
  fixes E :: "('k, 'w) deps"
  shows "keeps board (int_now (d_sys (demo_deps E)))"
  unfolding keeps_def
proof
  fix s :: "'w demo"
  obtain w where "snd (int_now (d_sys (demo_deps E)) s) = s\<lparr>dm_env := w\<rparr>" using demo_now by (metis prod.collapse)
  then show "board (snd (int_now (d_sys (demo_deps E)) s)) = board s" by simp
qed

lemma keeps_Pair: "keeps view (Pair x)"
  by (simp add: keeps_def)

lemma posting_post: "posting (handle_submit_post E signer body)"
  unfolding handle_submit_post_def Let_def mk_gee_result_def option.case
  by (auto split: option.split sum.split json.split simp: res_simps keeps_Pair
      intro!: posting_bind posting_lift posting_Pair keeps_now posting_submit)

abbreviation confirmation :: "log_entry \<Rightarrow> (int \<times> page) option" where
  "confirmation l \<equiv> Some (200, SubmitPage (Submitted (lg_tx l) (lg_cid l)))"

lemma answer_posts:
  fixes E :: "('k, 'w) deps"
  assumes "answer E signer rep req s = (r, s')"
  shows "(board s' = board s \<and> (\<forall>l. r \<noteq> Inr (confirmation l))) \<or> (\<exists>l. appended s l s' \<and> r = Inr (confirmation l))"
proof (cases req)
  case (Get path cid)
  have "s' = s" "\<forall>l. r \<noteq> Inr (confirmation l)" using assms Get
    by (auto simp: answer_def do_GET_def handle_verify_def handle_home_def handle_schema_def handle_submissions_def
        fetch_provenance_record_def demo_ipfs_def bindW_def res_simps split: sum.splits if_splits)
  then show ?thesis by simp
next
  case (Post path body)
  show ?thesis
  proof (cases "path = lit ''/submit''")
    case True
    obtain x s1 where h: "handle_submit_post E signer body s = (x, s1)" by fastforce
    with posting_post[of E signer body] have c: "(board s1 = board s \<and> (\<forall>l. x \<noteq> Inr (confirming l))) \<or>
        (\<exists>l. appended s l s1 \<and> x = Inr (confirming l))" unfolding posting_def by blast
    have "s' = s1" "r = bindE x (\<lambda>p. Inr (map_option (Pair 200) p))"
      using assms Post True h by (cases x; simp add: answer_def do_POST_def bindW_def)+
    then show ?thesis using c by (auto simp: res_simps)
  next
    case False
    then show ?thesis using assms Post by (auto simp: answer_def do_POST_def)
  qed
qed

section \<open>The refinement\<close>

lemma seed_implements:
  assumes "implements s ls" "seed_one E signer fid out aoi s = (Inr (), s')"
  shows "\<exists>l. implements s' (ls @ [l])"
proof -
  from assms(2) obtain att tx r s1 where p: "process (demo_deps E) (demo_bridge signer) (seed_result fid out aoi) s =
      (Inr (att, tx, r), s1)" "append_log (lit fid) out tx r s1 = (Inr (), s')" by (auto simp: seed_one_def res_simps)
  have "g_feed (seed_result fid out aoi) = FStr (lit fid)" "g_output (seed_result fid out aoi) = out"
    by (simp_all add: seed_result_def)
  from process_succeeds[OF p(1) this(1), unfolded this(2)] p(2) have "\<exists>l. appended s l s'"
    by (elim exE conjE) auto
  then show ?thesis using appended_implements[OF assms(1)] by blast
qed

lemma reachable_implements:
  assumes "demo_reachable E signer rep s"
  shows "implements s (dm_log s)"
  using assms
proof induction
  case (seeded w s)
  have "implements (demo_start w) []" by (simp add: implements_def demo_start_def chain_shown_def chain_of_def)
  moreover obtain s1 where "seed_one E signer ''carbon/rwanda/2024'' 4815162342 ''POLYGON((30.1 -1.2,30.3 -1.0))''
      (demo_start w) = (Inr (), s1)" "seed_one E signer ''carbon/kenya/2024'' 3221456789
      ''POLYGON((36.8 -1.3,37.0 -1.1))'' s1 = (Inr (), s)" using seeded by (auto simp: seed_def res_simps)
  ultimately obtain ls where "implements s ls"
    using seed_implements[of "demo_start w" "[]"] seed_implements[of s1 _ E signer] by (metis append_Nil)
  then show ?case by (simp add: implements_def)
next
  case (answered s req r s')
  from answer_posts[OF answered.hyps(2)] show ?case
  proof
    assume "board s' = board s \<and> (\<forall>l. r \<noteq> Inr (confirmation l))"
    then show ?thesis using answered.IH by (simp add: implements_def chain_shown_def)
  next
    assume "\<exists>l. appended s l s' \<and> r = Inr (confirmation l)"
    then show ?thesis using appended_implements[OF answered.IH] unfolding appended_def implements_def by metis
  qed
qed

text \<open>C12: the demo server implements its log. In every reachable state the chain shows, under each padded
  feed, the value, identifier and transaction of the last log entry of that feed, and the n-th entry
  carries the n-th transaction; and a request appends one entry if its answer is the page that confirms
  the transaction and identifier of that entry, and changes neither log, chain nor counter otherwise.\<close>

theorem demo_implements_log:
  assumes "demo_reachable E signer rep s" "answer E signer rep req s = (r, s')"
  shows "map (\<lambda>(k, e). (k, oc_value e, JStr (oc_cid e), oc_tx e)) (dm_chain s) = chain_of (dm_log s) \<and>
    dm_counter s = int (length (dm_log s)) \<and> map lg_tx (dm_log s) = map (\<lambda>i. tx_name (int i + 1)) [0..<length (dm_log s)] \<and>
    ((\<exists>l. dm_log s' = dm_log s @ [l] \<and> r = Inr (Some (200, SubmitPage (Submitted (lg_tx l) (lg_cid l))))) \<or>
     (dm_log s' = dm_log s \<and> dm_chain s' = dm_chain s \<and> dm_counter s' = dm_counter s \<and>
      (\<forall>tx v. r \<noteq> Inr (Some (200, SubmitPage (Submitted tx v))))))"
proof -
  have "r \<noteq> Inr (Some (200, SubmitPage (Submitted tx v)))" if "\<forall>l. r \<noteq> Inr (confirmation l)" for tx v
    using that[THEN spec, of "\<lparr>lg_feed = [], lg_value = 0, lg_cid = v, lg_tx = tx, lg_at = JNull\<rparr>"] by simp
  then show ?thesis
    using reachable_implements[OF assms(1)] answer_posts[OF assms(2)]
    unfolding implements_def chain_shown_def appended_def by blast
qed

lemma demo_implements_log_witness:
  "\<exists>s. length (dm_log s) = 2 \<and> dm_counter s = 2 \<and> length (chain_of (dm_log s)) = length (dm_chain (s :: unit demo))"
proof -
  obtain s where s: "demo_reachable (sample_deps :: (bytes, unit) deps) (replicate 32 7) (\<lambda>_. []) s" "length (dm_log s) = 2"
    using seeded_demo by blast
  obtain r s' where "answer sample_deps (replicate 32 7) (\<lambda>_. []) (Get (lit ''/'') []) s = (r, s')" by fastforce
  note d = demo_implements_log[OF s(1) this]
  have "length (chain_of (dm_log s)) = length (dm_chain s)" using d[THEN conjunct1, THEN arg_cong, of length] by simp
  moreover have "dm_counter s = 2" using d[THEN conjunct2, THEN conjunct1] s(2) by simp
  ultimately show ?thesis using s(2) by blast
qed

end
