(* ===== verification/Demo_Pages.thy ===== *)
theory Demo_Pages
  imports Demo_Server
begin

text \<open>
  The HTML of the demo server: each page as the text the handlers of \<open>tools/demo_server.py\<close>
  put together from the values it shows. Characters outside ASCII are written as their code points.
  \<open>rep\<close> shows the containers inside a message, \<open>show\<close> the containers of a record.
\<close>

section \<open>The frame of a page\<close>

definition page_html :: "pystr \<Rightarrow> pystr \<Rightarrow> pystr" where
  "page_html title body = join [10] (
     map lit [
       ''<!DOCTYPE html>'',
       ''<html lang=\"en\">'',
       ''<head>'',
       ''<meta charset=\"utf-8\">'',
       ''<meta name=\"viewport\" content=\"width=device-width,initial-scale=1\">''] @
     [lit ''<title>'' @ title @ lit '' '' @ [8212] @ lit '' GEE Provenance Demo</title>''] @
     map lit [
       ''<style>'',
       ''  body{font-family:system-ui,sans-serif;margin:0;background:#f5f7fa;color:#1a1a2e}'',
       ''  header{background:#16213e;color:#fff;padding:1rem 2rem;display:flex;align-items:center;gap:1rem}'',
       ''  header h1{margin:0;font-size:1.25rem}'',
       ''  nav a{color:#a8d8ea;text-decoration:none;margin-right:1.2rem;font-size:.9rem}'',
       ''  nav a:hover{text-decoration:underline}'',
       ''  main{max-width:960px;margin:2rem auto;padding:0 1rem}'',
       ''  h2{color:#16213e;border-bottom:2px solid #a8d8ea;padding-bottom:.4rem}'',
       ''  .card{background:#fff;border-radius:8px;box-shadow:0 2px 8px rgba(0,0,0,.08);padding:1.5rem;margin-bottom:1.5rem}'',
       ''  .badge{display:inline-block;padding:.15rem .5rem;border-radius:4px;font-size:.75rem;font-weight:600}'',
       ''  .badge-green{background:#d4edda;color:#155724}'',
       ''  .badge-blue{background:#cce5ff;color:#004085}'',
       ''  .badge-yellow{background:#fff3cd;color:#856404}'',
       ''  table{width:100%;border-collapse:collapse;font-size:.875rem}'',
       ''  th{background:#16213e;color:#fff;padding:.5rem .75rem;text-align:left}'',
       ''  td{padding:.5rem .75rem;border-bottom:1px solid #e9ecef;word-break:break-all}'',
       ''  tr:hover td{background:#f0f4ff}'',
       ''  form label{display:block;margin:.6rem 0 .2rem;font-weight:600;font-size:.875rem}'',
       ''  form input,form textarea,form select{width:100%;box-sizing:border-box;padding:.45rem .6rem;border:1px solid #ced4da;border-radius:4px;font-size:.875rem}'',
       ''  form textarea{font-family:monospace;height:6rem}'',
       ''  .btn{background:#16213e;color:#fff;border:none;padding:.55rem 1.2rem;border-radius:4px;cursor:pointer;font-size:.875rem}'',
       ''  .btn:hover{background:#0f3460}'',
       ''  .btn-green{background:#28a745}.btn-green:hover{background:#218838}'',
       ''  pre{background:#1a1a2e;color:#a8d8ea;padding:1rem;border-radius:6px;overflow-x:auto;font-size:.8rem}'',
       ''  .cid{font-family:monospace;font-size:.8rem;color:#0f3460;word-break:break-all}'',
       ''  .alert{padding:.75rem 1rem;border-radius:4px;margin-bottom:1rem}'',
       ''  .alert-success{background:#d4edda;color:#155724;border:1px solid #c3e6cb}'',
       ''  .alert-danger{background:#f8d7da;color:#721c24;border:1px solid #f5c6cb}'',
       ''</style>'',
       ''</head>'',
       ''<body>'',
       ''<header>''] @
     [lit ''  <span style=\"font-size:2rem\">'' @ [127807] @ lit ''</span>''] @
     map lit [
       ''  <div>'',
       ''    <h1>GEE Script Version Pinning &amp; Provenance Audit Trail</h1>'',
       ''    <nav>'',
       ''      <a href=\"/\">Home</a>'',
       ''      <a href=\"/submit\">Submit</a>'',
       ''      <a href=\"/submissions\">Submissions</a>'',
       ''      <a href=\"/verify\">Verify</a>'',
       ''      <a href=\"/schema\">Schema</a>'',
       ''    </nav>'',
       ''  </div>'',
       ''</header>'',
       ''<main>''] @
     [lit ''<h2>'' @ title @ lit ''</h2>'',
      body] @
     map lit [
       ''</main>'',
       ''</body>'',
       ''</html>''])"

text \<open>A template that starts and ends with a line break.\<close>

definition block :: "pystr list \<Rightarrow> pystr" where
  "block ls = [10] @ concat (map (\<lambda>l. l @ [10]) ls)"

section \<open>The pages\<close>

definition home_html :: "pystr \<Rightarrow> int \<Rightarrow> int \<Rightarrow> int \<Rightarrow> pystr" where
  "home_html pubkey subs feeds cids = page_html (lit ''Home'') (block (
     map lit [
       ''<div class=\"card\">'',
       ''  <h3 style=\"margin-top:0\">What this demo shows</h3>'',
       ''  <p>Every GEE oracle submission now records a <strong>provenance record</strong> that pins:</p>'',
       ''  <ul>'',
       ''    <li>The exact GEE script source hash (SHA-256) and version tag</li>'',
       ''    <li>The canonical input parameter set and its hash</li>'',
       ''    <li>The signed attestation payload (113-byte Ed25519 signed message)</li>'',
       ''    <li>Computation output value, feed ID, and UTC timestamp</li>'',
       ''  </ul>'',
       ''  <p>The record is stored off-chain in <strong>IPFS</strong> (content-addressed) and the CID is'',
       ''     recorded <strong>on-chain</strong> alongside every price update in <code>carbon_oracle</code>.</p>'',
       ''</div>'',
       '''',
       ''<div class=\"card\">'',
       ''  <table>''] @
     [lit ''    <tr><th>Oracle Public Key</th><td class=\"cid\">'' @ pubkey @ lit ''</td></tr>'',
      lit ''    <tr><th>Total Submissions</th><td>'' @ dec_int subs @ lit ''</td></tr>'',
      lit ''    <tr><th>Active Feeds (on-chain)</th><td>'' @ dec_int feeds @ lit ''</td></tr>'',
      lit ''    <tr><th>IPFS Records Pinned</th><td>'' @ dec_int cids @ lit ''</td></tr>''] @
     map lit [
       ''    <tr><th>IPFS Backend</th><td><span class=\"badge badge-yellow\">SimulatedIPFSClient (in-process)</span></td></tr>'',
       ''  </table>'',
       ''</div>'',
       '''',
       ''<div class=\"card\">'',
       ''  <h3 style=\"margin-top:0\">Quick Links</h3>'',
       ''  <a href=\"/submit\" class=\"btn\" style=\"margin-right:.5rem\">Submit New Oracle Result</a>'',
       ''  <a href=\"/submissions\" class=\"btn\" style=\"margin-right:.5rem\">Browse Submissions</a>'',
       ''  <a href=\"/verify\" class=\"btn\" style=\"margin-right:.5rem\">Verify Provenance</a>'',
       ''  <a href=\"/schema\" class=\"btn\">View JSON Schema</a>'',
       ''</div>'']))"

definition alert_html :: "(json \<Rightarrow> pystr) \<Rightarrow> notice \<Rightarrow> pystr" where
  "alert_html show n = (case n of
     NoNotice \<Rightarrow> []
   | Failed err \<Rightarrow> lit ''<div class=\"alert alert-danger\">'' @ err @ lit ''</div>''
   | Submitted tx cid \<Rightarrow> lit ''<div class=\"alert alert-success\">'' @
       lit ''Submitted! Tx: <code>'' @ tx @ lit ''</code> &nbsp;|&nbsp; IPFS CID: <span class=\"cid\">'' @ str_of show cid @
       lit ''</span> &nbsp;<a href=\"/verify?cid='' @ str_of show cid @ lit ''\">Verify '' @ [8594] @ lit ''</a>'' @
       lit ''</div>'')"

definition submit_html :: "(json \<Rightarrow> pystr) \<Rightarrow> notice \<Rightarrow> pystr" where
  "submit_html show n = page_html (lit ''Submit Oracle Result'') (block (
     [alert_html show n] @
     map lit [
       ''<div class=\"card\">'',
       ''<form method=\"POST\" action=\"/submit\">''] @
     [lit ''  <label>Feed ID <small>('' @ [8804] @ lit ''32 chars)</small></label>''] @
     map lit [
       ''  <input name=\"feed_id\" value=\"carbon/rwanda/2024\" required maxlength=\"32\">'',
       ''''] @
     [lit ''  <label>Output Value <small>(integer, carbon sequestration '' @ [181] @ lit ''g CO'' @ [8322] @ lit ''-eq/m'' @ [178] @ lit '')</small></label>''] @
     map lit [
       ''  <input name=\"output_value\" value=\"4815162342\" type=\"number\" required>'',
       '''',
       ''  <label>Timestamp UTC <small>(Unix seconds; leave 0 for now)</small></label>'',
       ''  <input name=\"timestamp_utc\" value=\"0\" type=\"number\">'',
       '''',
       ''  <label>GEE Script Asset Path</label>'',
       ''  <input name=\"asset_path\" value=\"users/stellarkraal/scripts/carbon_seq_v1\">'',
       '''',
       ''  <label>Version Tag</label>'',
       ''  <input name=\"version_tag\" value=\"v1.2.3\">'',
       '''',
       ''  <label>Input Parameters <small>(JSON object)</small></label>'',
       ''  <textarea name=\"input_params\">{\"aoi\":\"POLYGON((30.1 -1.2,30.1 -1.0,30.3 -1.0,30.3 -1.2,30.1 -1.2))\",\"startDate\":\"2024-01-01\",\"endDate\":\"2024-12-31\"}</textarea>'',
       '''',
       ''  <br><br>'',
       ''  <button type=\"submit\" class=\"btn btn-green\">Sign, Pin to IPFS &amp; Submit On-Chain</button>'',
       ''</form>'',
       ''</div>'']))"

definition row_html :: "pystr list \<Rightarrow> pystr" where
  "row_html r = join [10] [
     lit ''<tr>'',
     lit ''<td>'' @ r ! 0 @ lit ''</td>'',
     lit ''<td><code>'' @ r ! 1 @ lit ''</code></td>'',
     lit ''<td>'' @ r ! 2 @ lit ''</td>'',
     lit ''<td><code>'' @ r ! 3 @ lit ''</code></td>'',
     lit ''<td class=\"cid\"><a href=\"/verify?cid='' @ r ! 4 @ lit ''\">'' @ r ! 5 @ [8230] @ lit ''</a></td>'',
     lit ''</tr>'']"

definition submissions_html :: "pystr list list \<Rightarrow> pystr" where
  "submissions_html rs = page_html (lit ''All Submissions'')
     (if rs = []
      then lit ''<div class=\"card\"><p>No submissions yet. <a href=\"/submit\">Submit one '' @ [8594] @ lit ''</a></p></div>''
      else block (
     map lit [
       ''<div class=\"card\">'',
       ''<table>'',
       ''<thead><tr>'',
       ''  <th>Submitted At</th><th>Feed ID</th><th>Output Value</th><th>Tx Ref</th><th>IPFS CID</th>'',
       ''</tr></thead>''] @
     [lit ''<tbody>'' @ concat (map row_html rs) @ lit ''</tbody>''] @
     map lit [
       ''</table>'',
       ''</div>'']))"

definition verify_form_html :: "pystr \<Rightarrow> pystr \<Rightarrow> pystr" where
  "verify_form_html cid result = page_html (lit ''Verify Provenance'') (block (
     map lit [
       ''<div class=\"card\">'',
       ''<form method=\"GET\" action=\"/verify\">'',
       ''  <label>IPFS CID</label>''] @
     [lit ''  <input name=\"cid\" value=\"'' @ cid @ lit ''\" placeholder=\"bafkrei...\" required>''] @
     map lit [
       ''  <br><br>'',
       ''  <button type=\"submit\" class=\"btn\">Verify Provenance Record</button>'',
       ''</form>'',
       ''</div>''] @
     [result]))"

definition chk :: "bool \<Rightarrow> pystr" where
  "chk passed = (if passed then lit ''<span class=\"badge badge-green\">PASS '' @ [10003] @ lit ''</span>''
     else lit ''<span class=\"badge\" style=\"background:#f8d7da;color:#721c24\">FAIL '' @ [10007] @ lit ''</span>'')"

definition int_opt_text :: "int option \<Rightarrow> pystr" where
  "int_opt_text x = (case x of Some n \<Rightarrow> dec_int n | None \<Rightarrow> lit ''None'')"

definition checks_html ::
    "(pystr list \<Rightarrow> pystr) \<Rightarrow> pystr list \<Rightarrow> bool \<Rightarrow> bool \<Rightarrow> int option \<Rightarrow> int option \<Rightarrow> unit res \<Rightarrow> pystr" where
  "checks_html rep errors params_ok fields_ok ov ts sig = block (
     map lit [
       ''<table>'',
       ''<thead><tr><th>Check</th><th>Result</th><th>Detail</th></tr></thead>'',
       ''<tbody>''] @
     [lit ''<tr><td>JSON Schema v1</td><td>'' @ chk (errors = []) @ lit ''</td><td>'' @
        (if errors = [] then lit ''OK'' else join (lit ''; '') errors) @ lit ''</td></tr>'',
      lit ''<tr><td>Params hash integrity</td><td>'' @ chk params_ok @
        lit ''</td><td>SHA-256(canonical params) matches stored hash</td></tr>'',
      lit ''<tr><td>Payload field consistency</td><td>'' @ chk fields_ok @ lit ''</td><td>output_value='' @ int_opt_text ov @
        lit '', timestamp='' @ int_opt_text ts @ lit ''</td></tr>'',
      lit ''<tr><td>Ed25519 signature</td><td>'' @ chk (sig = Inr ()) @ lit ''</td><td>'' @
        (case sig of Inr _ \<Rightarrow> lit ''Valid '' @ [10003] | Inl e \<Rightarrow> lit ''Invalid '' @ [10007] @ lit '' ('' @ exn_str rep e @ lit '')'') @
        lit ''</td></tr>''] @
     map lit [''</tbody>'', ''</table>''])"

text \<open>The rows of the details and of the aggregation: what stands before and after each cell.\<close>

definition detail_rows :: "(string \<times> string) list" where
  "detail_rows = [
     (''    <tr><th>Schema Version</th><td>'', ''</td></tr>''),
     (''    <tr><th>Record Type</th><td><span class=\"badge badge-blue\">'', ''</span></td></tr>''),
     (''    <tr><th>GEE Asset Path</th><td><code>'', ''</code></td></tr>''),
     (''    <tr><th>Version Tag</th><td><code>'', ''</code></td></tr>''),
     (''    <tr><th>Version Hash (SHA-256)</th><td class=\"cid\">'', ''</td></tr>''),
     (''    <tr><th>Feed ID</th><td><code>'', ''</code></td></tr>''),
     (''    <tr><th>Output Value</th><td>'', ''</td></tr>''),
     (''    <tr><th>Timestamp</th><td>'', ''</td></tr>''),
     (''    <tr><th>Oracle Public Key</th><td class=\"cid\">'', ''</td></tr>''),
     (''    <tr><th>Submitted At</th><td>'', ''</td></tr>''),
     (''    <tr><th>Tx Ref</th><td><code>'', ''</code></td></tr>''),
     (''    <tr><th>Self-Referential CID</th><td class=\"cid\">'', ''</td></tr>'')]"

definition aggregation_rows :: "(string \<times> string) list" where
  "aggregation_rows = [
     (''<tr><th>Method</th><td>'', ''</td></tr>''),
     (''<tr><th>Outlier Method</th><td>'', ''</td></tr>''),
     (''<tr><th>Rejected Sources</th><td>'', ''</td></tr>'')]"

definition cells_html :: "(string \<times> string) list \<Rightarrow> pystr list \<Rightarrow> pystr list" where
  "cells_html rs cells = map (\<lambda>((before, after), c). lit before @ c @ lit after) (zip rs cells)"

definition aggregation_html :: "pystr list \<Rightarrow> pystr" where
  "aggregation_html cells = (if cells = [] then [] else join [10] (
     map lit [''<h3>Aggregation</h3>'', ''<table>''] @ cells_html aggregation_rows cells @ [lit ''</table>'']))"

definition result_html :: "pystr \<Rightarrow> pystr list \<Rightarrow> pystr \<Rightarrow> pystr" where
  "result_html checks cells raw_json = block (
     map lit [
       ''<div class=\"card\">'',
       ''  <h3 style=\"margin-top:0\">Verification Results</h3>''] @
     [lit ''  '' @ checks] @
     map lit [
       ''</div>'',
       ''<div class=\"card\">'',
       ''  <h3 style=\"margin-top:0\">Record Details</h3>'',
       ''  <table>''] @
     cells_html detail_rows (take 12 cells) @
     map lit [
       ''  </table>''] @
     [lit ''  '' @ aggregation_html (drop 12 cells)] @
     map lit [
       ''</div>'',
       ''<div class=\"card\">'',
       ''  <h3 style=\"margin-top:0\">Raw JSON</h3>''] @
     [lit ''  <pre>'' @ raw_json @ lit ''</pre>''] @
     map lit [
       ''</div>''])"

definition verified_html :: "(pystr list \<Rightarrow> pystr) \<Rightarrow> verified \<Rightarrow> pystr" where
  "verified_html rep v = (case v of
     NoRecord \<Rightarrow> []
   | UnknownCid \<Rightarrow> lit ''<div class=\"alert alert-danger\">CID not found in IPFS store.</div>''
   | Checked errors params_ok fields_ok ov ts sig cells raw_json \<Rightarrow>
       result_html (checks_html rep errors params_ok fields_ok ov ts sig) cells raw_json)"

definition schema_html :: "pystr \<Rightarrow> pystr" where
  "schema_html schema_json = page_html (lit ''Provenance Record JSON Schema'') (block (
     map lit [
       ''<div class=\"card\">'',
       ''  <p>JSON Schema for the GEE Oracle Provenance Record (v1). '',
       ''     See <a href=\"/docs/provenance-schema\">provenance-schema.md</a> for full documentation.</p>''] @
     [lit ''  <pre>'' @ schema_json @ lit ''</pre>''] @
     map lit [
       ''</div>'']))"

definition render :: "(pystr list \<Rightarrow> pystr) \<Rightarrow> (json \<Rightarrow> pystr) \<Rightarrow> page \<Rightarrow> pystr" where
  "render rep show p = (case p of
     HomePage pubkey subs feeds cids \<Rightarrow> home_html pubkey subs feeds cids
   | SubmitPage n \<Rightarrow> submit_html show n
   | SubmissionsPage rs \<Rightarrow> submissions_html rs
   | VerifyPage cid v \<Rightarrow> verify_form_html cid (verified_html rep v)
   | SchemaPage schema_json \<Rightarrow> schema_html schema_json
   | NotFound body \<Rightarrow> page_html (lit ''404'') body)"

end
