(* ===== verification/Demo_Http.thy ===== *)
theory Demo_Http
  imports Demo_Pages
begin

text \<open>
  The HTTP side of \<open>tools/demo_server.py\<close>: what the handler class reads from a request target
  (\<open>urlparse\<close>, \<open>parse_qs\<close>) and a header, and the responses it sends. The request line, the other
  headers (\<open>Server\<close>, \<open>Date\<close>) and the sockets are \<open>http.server\<close>'s; a request body is the bytes that
  can be read from the connection. \<open>None\<close> marks requests the model says nothing about: targets that
  are not a path, and queries or numbers for which Python's replacement characters or digits outside
  ASCII matter.
\<close>

section \<open>Request targets\<close>

definition before :: "nat \<Rightarrow> pystr \<Rightarrow> pystr" where
  "before c s = takeWhile (\<lambda>x. x \<noteq> c) s"

definition after :: "nat \<Rightarrow> pystr \<Rightarrow> pystr" where
  "after c s = tl (dropWhile (\<lambda>x. x \<noteq> c) s)"

text \<open>\<open>urlparse\<close> of a target that starts with one slash: tabs and line breaks are removed, the
  fragment and then the query are cut off, and the parameters of the last segment after them.\<close>

definition cut_params :: "pystr \<Rightarrow> pystr" where
  "cut_params p = (let seg = rev (before 47 (rev p)) in take (length p - length seg) p @ before 59 seg)"

definition url_parts :: "pystr \<Rightarrow> (pystr \<times> pystr) option" where
  "url_parts target =
     (let u = filter (\<lambda>c. c \<notin> {9, 10, 13}) target; v = before 35 u in
      if is_prefix [47] u \<and> \<not> is_prefix [47, 47] u then Some (cut_params (before 63 v), after 63 v) else None)"

text \<open>\<open>parse_qs\<close>: fields without a value are skipped, and \<open>qs.get("cid", [""])[0]\<close> is the first one.\<close>

fun parse_qsl :: "pystr list \<Rightarrow> (pystr \<times> pystr) list option" where
  "parse_qsl [] = Some []"
| "parse_qsl (part # rest) =
     (if 61 \<in> set part \<and> after 61 part \<noteq> []
      then (case (unquote_plus (before 61 part), unquote_plus (after 61 part), parse_qsl rest) of
          (Some k, Some v, Some kvs) \<Rightarrow> Some ((k, v) # kvs)
        | _ \<Rightarrow> None)
      else parse_qsl rest)"

definition query_cid :: "pystr \<Rightarrow> pystr option" where
  "query_cid query = map_option (\<lambda>kvs. case map_of kvs (lit ''cid'') of Some v \<Rightarrow> v | None \<Rightarrow> [])
     (parse_qsl (if query = [] then [] else split_on 38 query))"

definition get_request :: "pystr \<Rightarrow> request option" where
  "get_request target = (case url_parts target of
     None \<Rightarrow> None
   | Some (path, query) \<Rightarrow> map_option (Get path) (query_cid query))"

text \<open>\<open>int(self.headers.get("Content-Length", 0))\<close> and \<open>rfile.read\<close>, which reads everything when the
  length is negative.\<close>

definition content_length :: "pystr option \<Rightarrow> int res option" where
  "content_length header = (case header of None \<Rightarrow> Some (Inr 0) | Some t \<Rightarrow> form_int t)"

definition read_body :: "int \<Rightarrow> bytes \<Rightarrow> bytes" where
  "read_body n rfile = (if n < 0 then rfile else take (nat n) rfile)"

section \<open>Responses\<close>

record response =
  rs_status :: int
  rs_headers :: "(string \<times> pystr) list"
  rs_body :: bytes

definition send_html :: "pystr \<Rightarrow> int \<Rightarrow> response res" where
  "send_html html status = bindE (utf8_encode html) (\<lambda>enc. Inr \<lparr>rs_status = status,
     rs_headers = [(''Content-Type'', lit ''text/html; charset=utf-8''), (''Content-Length'', dec_int (int (length enc)))],
     rs_body = enc\<rparr>)"

definition send_redirect :: "pystr \<Rightarrow> response" where
  "send_redirect location = \<lparr>rs_status = 302, rs_headers = [(''Location'', location)], rs_body = []\<rparr>"

text \<open>The answer to a request, sent as HTML; an exception leaves the client without a response.\<close>

definition respond ::
    "('k, 'w) deps \<Rightarrow> 'k \<Rightarrow> (json \<Rightarrow> pystr) \<Rightarrow> request \<Rightarrow> (response option, 'w demo) act" where
  "respond E signer show req = bindW (answer E signer show req) (\<lambda>a. case a of
     None \<Rightarrow> liftW (Inr None)
   | Some (status, p) \<Rightarrow> liftW (bindE (send_html (render (d_rep E) show p) status) (\<lambda>r. Inr (Some r))))"

definition http_GET ::
    "('k, 'w) deps \<Rightarrow> 'k \<Rightarrow> (json \<Rightarrow> pystr) \<Rightarrow> pystr \<Rightarrow> (response option, 'w demo) act" where
  "http_GET E signer show target = (case get_request target of
     None \<Rightarrow> liftW (Inr None)
   | Some req \<Rightarrow> respond E signer show req)"

definition http_POST ::
    "('k, 'w) deps \<Rightarrow> 'k \<Rightarrow> (json \<Rightarrow> pystr) \<Rightarrow> pystr \<Rightarrow> pystr option \<Rightarrow> bytes \<Rightarrow> (response option, 'w demo) act" where
  "http_POST E signer show target header rfile = (case url_parts target of
     None \<Rightarrow> liftW (Inr None)
   | Some (path, _) \<Rightarrow> (case content_length header of
       None \<Rightarrow> liftW (Inr None)
     | Some (Inl e) \<Rightarrow> liftW (Inl e)
     | Some (Inr n) \<Rightarrow> respond E signer show (Post path (read_body n rfile))))"

section \<open>The program\<close>

text \<open>\<open>PORT\<close>, and the lines printed before the server starts.\<close>

definition demo_port :: "pystr option \<Rightarrow> int res option" where
  "demo_port var = form_int (case var of Some t \<Rightarrow> t | None \<Rightarrow> lit ''8888'')"

definition banner :: "('k, 'w) deps \<Rightarrow> 'k \<Rightarrow> int \<Rightarrow> 'w demo \<Rightarrow> pystr list" where
  "banner E signer port s = [
     [10, 127807] @ lit '' GEE Provenance Demo running at http://localhost:'' @ dec_int port @ lit ''/'' @ [10],
     lit ''   Oracle pubkey : '' @ take 32 (hex (public_key_bytes (d_crypto E) signer)) @ lit ''...'',
     lit ''   Pre-seeded    : '' @ dec_int (int (length (dm_log s))) @ lit '' example submissions'',
     lit ''   Press Ctrl+C to stop'' @ [10]]"

definition demo_main ::
    "('k, 'w) deps \<Rightarrow> 'k \<Rightarrow> pystr option \<Rightarrow> (pystr list option, 'w demo) act" where
  "demo_main E signer var = (case demo_port var of
     None \<Rightarrow> liftW (Inr None)
   | Some (Inl e) \<Rightarrow> liftW (Inl e)
   | Some (Inr port) \<Rightarrow> bindW (seed E signer) (\<lambda>_ s. (Inr (Some (banner E signer port s)), s)))"

end
