(* ===== verification/Demo_Http_Properties.thy ===== *)
theory Demo_Http_Properties
  imports Demo_Http Demo_Server_Properties Py_Form_Properties
begin

text \<open>
  What a browser sees of the demo server: a form it posts is answered by a confirmation page, whose link
  leads to a page on which all checks of that submission pass; and the verification page repeats the
  identifier of the request unescaped.
\<close>

section \<open>Pages are texts\<close>

lemma valid_append [simp]: "valid_text (s @ t) \<longleftrightarrow> valid_text s \<and> valid_text t"
  by (auto simp: valid_text_def)

lemma valid_Cons [simp]: "valid_text (c # s) \<longleftrightarrow> scalar c \<and> valid_text s"
  by (auto simp: valid_text_def)

declare valid_literal [simp]

lemma valid_join: "valid_text sep \<Longrightarrow> list_all valid_text xs \<Longrightarrow> valid_text (join sep xs)"
  by (induction sep xs rule: join.induct) auto

lemma valid_concat: "list_all valid_text xs \<Longrightarrow> valid_text (concat xs)"
  by (induction xs) auto

lemma valid_lits [simp]: "list_all valid_text (map lit xs)"
  by (simp add: list_all_iff)

lemma valid_block: "list_all valid_text ls \<Longrightarrow> valid_text (block ls)"
  unfolding block_def by (auto simp: list_all_iff scalar_def is_surrogate_def intro!: valid_concat)

lemma valid_page: "valid_text title \<Longrightarrow> valid_text body \<Longrightarrow> valid_text (page_html title body)"
  unfolding page_html_def by (intro valid_join) (simp_all add: scalar_def is_surrogate_def)

lemma valid_cells: "list_all valid_text cells \<Longrightarrow> list_all valid_text (cells_html rs cells)"
  by (auto simp: cells_html_def list_all_iff dest: set_zip_rightD)

lemma valid_int [simp]: "valid_text (dec_int n)"
  by (intro ascii_valid ascii_dec_int)

lemma valid_checks:
  "list_all valid_text errors \<Longrightarrow> (\<And>e. sig = Inl e \<Longrightarrow> valid_text (exn_str rep e)) \<Longrightarrow>
    valid_text (checks_html rep errors params_ok fields_ok ov ts sig)"
  unfolding checks_html_def
  by (intro valid_block)
    (auto simp: chk_def int_opt_text_def scalar_def is_surrogate_def intro!: valid_join split: option.split sum.split)

lemma valid_take: "list_all P xs \<Longrightarrow> list_all P (take n xs) \<and> list_all P (drop n xs)"
  by (auto simp: list_all_iff dest: in_set_takeD in_set_dropD)

lemma valid_result:
  assumes "valid_text checks" "list_all valid_text cells" "valid_text raw_json"
  shows "valid_text (result_html checks cells raw_json)"
proof -
  have "valid_text (aggregation_html (drop 12 cells))"
    using valid_take[OF assms(2)] unfolding aggregation_html_def
    by (auto simp: scalar_def is_surrogate_def intro!: valid_join valid_cells)
  then show ?thesis unfolding result_html_def using assms(1,3) valid_take[OF assms(2)]
    by (intro valid_block) (simp add: valid_cells)
qed

lemma valid_verify_page:
  "valid_text cid \<Longrightarrow> valid_text (verified_html rep v) \<Longrightarrow> valid_text (render rep show (VerifyPage cid v))"
  by (auto simp: render_def verify_form_html_def intro!: valid_page valid_block)

text \<open>What a record shows is text.\<close>

lemma valid_member: "get_or k dflt v = Inr x \<Longrightarrow> json_ok v \<Longrightarrow> json_ok dflt \<Longrightarrow> json_ok x"
  by (auto simp: get_or_def raise_def list_all_iff split: json.splits option.splits dest!: map_of_SomeD)

lemma valid_shown: "json_ok v \<Longrightarrow> (\<And>x. valid_text (show x)) \<Longrightarrow> valid_text (str_of show v)"
  by (cases v) (auto simp: str_of_def intro: ascii_valid ascii_float_str)

lemma valid_cell:
  "cell show k dflt v = Inr c \<Longrightarrow> json_ok v \<Longrightarrow> json_ok dflt \<Longrightarrow> (\<And>x. valid_text (show x)) \<Longrightarrow> valid_text c"
  unfolding cell_def bindE_ok by (auto intro: valid_shown valid_member)

lemma group3_digits: "set (group3 s) \<subseteq> insert 44 (set s)"
  by (induction s rule: group3.induct) auto

lemma valid_commas: "valid_text (with_commas n)"
proof -
  have "c < 128" if "c \<in> set (group3 (rev (dec_nat \<bar>n\<bar>)))" for c
    using that group3_digits[of "rev (dec_nat \<bar>n\<bar>)"] dec_nat_digits[of c "\<bar>n\<bar>"] by auto
  then show ?thesis by (auto simp: with_commas_def valid_text_def scalar_def is_surrogate_def) fastforce+
qed

lemma ascii_pretty: "ascii_text (pretty n v)"
proof (induction v arbitrary: n)
  case (JDict kvs)
  have "ascii_text (newline m)" for m by (simp add: newline_def ascii_text_def)
  moreover have "ascii_text (json_string k @ lit '': '' @ pretty m v)" if "(k, v) \<in> set kvs" for k v m
    using JDict[of "(k, v)" v] that by (simp add: ascii_json_string ascii_lit snds.simps)
  ultimately show ?case by (auto simp: ascii_lit intro!: ascii_join)
next
  case (JList xs)
  moreover have "ascii_text (newline m)" for m by (simp add: newline_def ascii_text_def)
  ultimately show ?case by (auto simp: ascii_lit intro!: ascii_join)
qed (simp_all add: ascii_dumps del: dumps.simps)

lemma valid_index: "index k v = Inr x \<Longrightarrow> json_ok v \<Longrightarrow> json_ok x"
  by (auto simp: index_def raise_def dict_at_def list_all_iff split: json.splits option.splits dest!: map_of_SomeD)

lemma valid_joined: "join_texts v = Inr s \<Longrightarrow> json_ok v \<Longrightarrow> valid_text s"
proof (cases v)
  case (JList xs)
  moreover assume a: "join_texts v = Inr s" "json_ok v"
  ultimately obtain ss where ss: "list_all2 (\<lambda>x y. (case x of JStr s \<Rightarrow> Inr s
      | _ \<Rightarrow> raise TypeError [T ''sequence item: expected str instance'']) = Inr y) xs ss" "s = join (lit '', '') ss"
    by (auto simp: join_texts_def res_simps mapE_Inr_iff)
  have "list_all json_ok xs" using a JList by simp
  with ss(1) have "list_all valid_text ss"
    by (induction rule: list_all2_induct) (auto simp: raise_def split: json.splits)
  then show ?thesis using ss(2) by (simp add: valid_join)
next
  case (JStr t)
  moreover have "list_all valid_text (map (\<lambda>c. [c]) t)" if "valid_text t" using that by (auto simp: list_all_iff valid_text_def)
  moreover assume "join_texts v = Inr s" "json_ok v"
  ultimately show ?thesis by (auto simp: join_texts_def intro!: valid_join)
next
  case (JDict kvs)
  moreover assume "join_texts v = Inr s" "json_ok v"
  ultimately show ?thesis by (fastforce simp: join_texts_def list_all_iff intro!: valid_join)
qed (simp_all add: join_texts_def raise_def)

lemma valid_aggregation_cells:
  assumes "aggregation_cells show doc = Inr cells" "json_ok doc" "\<And>x. valid_text (show x)"
  shows "list_all valid_text cells"
proof -
  note v = valid_cell[OF _ _ _ assms(3)]
  from assms(1) consider "cells = []" | agg c1 c2 rs t where "index (lit ''aggregation'') doc = Inr agg"
    "cell show ''method'' JNull agg = Inr c1" "cell show ''outlier_method'' JNull agg = Inr c2"
    "get_or (lit ''rejected_sources'') (JList []) agg = Inr rs" "join_texts rs = Inr t"
    "cells = [c1, c2, if t = [] then lit ''none'' else t]"
    by (auto simp: aggregation_cells_def res_simps split: if_splits)
  then show ?thesis
  proof cases
    case 2
    have "json_ok agg" using valid_index[OF 2(1) assms(2)] .
    then show ?thesis
      using v[OF 2(2)] v[OF 2(3)] valid_joined[OF 2(5)] valid_member[OF 2(4)] 2(6) by simp
  qed simp
qed

lemma valid_detail_cells:
  assumes "detail_cells show doc gs cmp att sub = Inr cells" "json_ok doc" "json_ok gs" "json_ok cmp" "json_ok att" "json_ok sub"
    "\<And>x. valid_text (show x)"
  shows "list_all valid_text cells"
proof -
  note v = valid_cell[OF _ _ _ assms(7)]
  have c: "valid_text c" if "bindE (get_or (lit ''output_value'') JNull cmp) (comma_text show) = Inr c" for c
  proof -
    from that obtain x where "comma_text show x = Inr c" by (auto simp: res_simps)
    then show ?thesis using assms(7) by (cases x) (auto simp: comma_text_def raise_def valid_commas)
  qed
  from assms(1) obtain agg c1 c2 c3 c4 c5 c6 c7 c8 c9 c10 c11 c12 where
    a: "aggregation_cells show doc = Inr agg" and
    d: "cell show ''schema_version'' JNull doc = Inr c1" "cell show ''record_type'' JNull doc = Inr c2"
      "cell show ''asset_path'' JNull gs = Inr c3" "cell show ''version_tag'' JNull gs = Inr c4"
      "cell show ''version_hash'' (JStr []) gs = Inr c5" "cell show ''feed_id'' JNull cmp = Inr c6"
      "bindE (get_or (lit ''output_value'') JNull cmp) (comma_text show) = Inr c7"
      "cell show ''timestamp_iso'' JNull cmp = Inr c8" "cell show ''public_key'' (JStr []) att = Inr c9"
      "cell show ''submitted_at_iso'' JNull sub = Inr c10" "cell show ''tx_ref'' (js ''N/A'') sub = Inr c11"
      "cell show ''ipfs_cid'' (js ''N/A'') sub = Inr c12" and
    e: "cells = [c1, c2, c3, c4, c5, c6, c7, c8, c9, c10, c11, c12] @ agg"
    unfolding detail_cells_def bindE_ok mapE_Inr_iff list_all2_Cons1 list_all2_Nil by blast
  show ?thesis
    unfolding e using valid_aggregation_cells[OF a assms(2,7)] c[OF d(7)] assms(2-6)
      d(1-6)[THEN v] d(8-12)[THEN v] by (simp add: js_def)
qed

lemma verify_page_shows:
  assumes "verify_page C V show doc = Inr (Checked errs a b ov ts sig cells raw_json)" "json_ok doc" "\<And>x. valid_text (show x)"
  shows "list_all valid_text cells \<and> valid_text raw_json"
proof -
  from assms(1) obtain gs cmp att sub where "index (lit ''gee_script'') doc = Inr gs" "index (lit ''computation'') doc = Inr cmp"
    "index (lit ''attestation'') doc = Inr att" "index (lit ''submission'') doc = Inr sub" and
    d: "detail_cells show doc gs cmp att sub = Inr cells" "raw_json = pretty 0 doc"
    unfolding verify_page_def Let_def bindE_ok by blast
  from this(1-4)[THEN valid_index, OF assms(2)] d assms(2,3) show ?thesis
    by (auto intro: valid_detail_cells ascii_valid ascii_pretty)
qed

section \<open>Links\<close>

text \<open>ASCII characters that mean nothing in a query and are not removed from it.\<close>

definition plain_char :: "nat \<Rightarrow> bool" where
  "plain_char c \<longleftrightarrow> c < 128 \<and> c \<notin> {9, 10, 13, 35, 37, 38, 43}"

lemma unquote_bytes_plain: "37 \<notin> set s \<Longrightarrow> unquote_bytes s = map of_nat s"
  by (induction s rule: unquote_bytes.induct) (auto split: list.split option.split)

lemma unquote_plain:
  assumes "list_all plain_char s"
  shows "unquote_plus s = Some s"
proof (cases "s = []")
  case True
  then show ?thesis by (simp add: unquote_plus_def)
next
  case False
  have p: "\<forall>c \<in> set s. c \<noteq> 43 \<and> c < 128 \<and> c \<noteq> 37" using assms by (auto simp: list_all_iff plain_char_def)
  then have m: "map (\<lambda>c. if c = 43 then 32 else c) s = s" by (simp add: map_idI)
  have t: "takeWhile (\<lambda>c. c < 128) s = s" "dropWhile (\<lambda>c. c < 128) s = []" using p by (auto simp: takeWhile_eq_all_conv)
  have "utf8_decode (map of_nat s) = Inr s" using utf8_roundtrip[OF utf8_encode_ascii] p by (auto simp: ascii_text_def)
  moreover have "hd s < 128" "37 \<notin> set s" using p False by auto
  ultimately have "unquote_runs s = Some s" using False
    by (subst unquote_runs.simps) (simp add: t unquote_bytes_plain unquote_runs.simps[of "[]"])
  then show ?thesis by (simp add: unquote_plus_def m)
qed

lemma query_of_plain:
  assumes "list_all plain_char cid" "cid \<noteq> []"
  shows "get_request (lit ''/verify?cid='' @ cid) = Some (Get (lit ''/verify'') cid)"
proof -
  have p: "\<forall>c \<in> set cid. c \<noteq> 9 \<and> c \<noteq> 10 \<and> c \<noteq> 13 \<and> c \<noteq> 35 \<and> c \<noteq> 38"
    using assms(1) by (auto simp: list_all_iff plain_char_def)
  have t: "takeWhile (\<lambda>x. x \<noteq> 35) cid = cid" using p by (auto simp: takeWhile_eq_all_conv)
  have "filter (\<lambda>c. c \<notin> {9, 10, 13}) (lit ''/verify?cid='' @ cid) = lit ''/verify?cid='' @ cid"
    using p by (simp add: lit_def)
  then have u: "url_parts (lit ''/verify?cid='' @ cid) = Some (lit ''/verify'', lit ''cid='' @ cid)"
    by (simp add: url_parts_def Let_def before_def after_def cut_params_def lit_def t)
  have "split_on 38 cid = [cid]" using p
  proof (induction cid)
    case (Cons c cid)
    then show ?case by simp
  qed simp
  then have "split_on 38 (lit ''cid='' @ cid) = [lit ''cid='' @ cid]" by (simp add: lit_def)
  moreover have "unquote_plus (lit ''cid'') = Some (lit ''cid'')" by (rule unquote_plain) (simp add: lit_def plain_char_def)
  ultimately have "query_cid (lit ''cid='' @ cid) = Some cid"
    using assms(2) unquote_plain[OF assms(1)] by (simp add: query_cid_def before_def after_def lit_def)
  then show ?thesis by (simp add: get_request_def u)
qed

lemma plain_cid: "list_all plain_char (simulated_cid b)"
proof -
  have d: "plain_char (hex_digit d)" if "d < 16" for d using that by (auto simp: hex_digit_def plain_char_def)
  have u: "unat (x :: byte) div 16 < 16" for x using unat_byte_less[of x] by auto
  have "list_all plain_char (hex c)" for c
  proof (induction c)
    case Nil
    then show ?case by (simp add: hex_def)
  next
    case (Cons x c)
    then show ?case by (simp add: hex_Cons d u)
  qed
  then have "list_all plain_char (take n (hex c))" for n c by (auto simp: list_all_iff dest: in_set_takeD)
  then show ?thesis by (simp add: simulated_cid_def lit_def plain_char_def)
qed

text \<open>Finding a line in a page.\<close>

lemma in_append: "py_in n s \<Longrightarrow> py_in n (s @ t)" "py_in n t \<Longrightarrow> py_in n (s @ t)"
  unfolding py_in_iff by (metis append.assoc)+

lemma in_join: "x \<in> set xs \<Longrightarrow> py_in n x \<Longrightarrow> py_in n (join sep xs)"
  by (induction sep xs rule: join.induct) (auto intro: in_append)

lemma in_block: "x \<in> set ls \<Longrightarrow> py_in n x \<Longrightarrow> py_in n (block ls)"
  unfolding block_def by (rule in_append(2), induction ls) (auto intro: in_append)

lemma in_page: "py_in n body \<Longrightarrow> py_in n (page_html title body)"
  unfolding page_html_def by (rule in_join[where x = body]) simp_all

lemma in_self: "py_in n n"
  unfolding py_in_iff by (metis append_Nil append_Nil2)

section \<open>Answers\<close>

lemma respond_valid:
  assumes "answer E signer show req s = (Inr (Some (status, p)), s')" "valid_text (render (d_rep E) show p)"
  shows "\<exists>resp. respond E signer show req s = (Inr (Some resp), s') \<and> rs_status resp = status \<and>
    map_of (rs_headers resp) ''Content-Length'' = Some (dec_int (int (length (rs_body resp)))) \<and>
    utf8_decode (rs_body resp) = Inr (render (d_rep E) show p)"
proof -
  obtain enc where e: "utf8_encode (render (d_rep E) show p) = Inr enc" using assms(2) utf8_encode_ok by blast
  then show ?thesis using utf8_roundtrip[OF e] assms(1) by (simp add: respond_def bindW_step send_html_def)
qed

lemma answer_verify:
  "answer E signer show (Get (lit ''/verify'') cid) s = bindW (handle_verify E show cid) (\<lambda>p. liftW (Inr (Some (200, p)))) s"
  by (simp add: answer_def bindW_def do_GET_def split: prod.split sum.split)

lemma in_confirmation:
  "py_in (lit ''<a href=\"/verify?cid='' @ cid @ lit ''\">'') (render rep show (SubmitPage (Submitted tx (JStr cid))))"
proof -
  let ?n = "lit ''<a href=\"/verify?cid='' @ cid @ lit ''\">''"
  have "lit ''</span> &nbsp;<a href=\"/verify?cid='' = lit ''</span> &nbsp;'' @ lit ''<a href=\"/verify?cid=''"
    "lit ''\">Verify '' = lit ''\">'' @ lit ''Verify ''" by (simp_all add: lit_def)
  then have "alert_html show (Submitted tx (JStr cid)) = (lit ''<div class=\"alert alert-success\">'' @
      lit ''Submitted! Tx: <code>'' @ tx @ lit ''</code> &nbsp;|&nbsp; IPFS CID: <span class=\"cid\">'' @ cid @
      lit ''</span> &nbsp;'') @ ?n @ (lit ''Verify '' @ [8594] @ lit ''</a>'' @ lit ''</div>'')"
    by (simp add: alert_html_def str_of_def)
  then have "py_in ?n (alert_html show (Submitted tx (JStr cid)))" unfolding py_in_iff by blast
  then show ?thesis unfolding render_def submit_html_def page.case
    by (intro in_page) (rule in_block[where x = "alert_html show (Submitted tx (JStr cid))"], simp)
qed

lemma in_result: "py_in checks (result_html checks cells raw_json)"
  unfolding result_html_def by (rule in_block[where x = "lit ''  '' @ checks"]) (auto intro: in_append in_self)

lemma in_verify_page: "py_in n (verified_html rep v) \<Longrightarrow> py_in n (render rep show (VerifyPage cid v))"
  unfolding render_def verify_form_html_def page.case
  by (intro in_page) (rule in_block[where x = "verified_html rep v"], simp_all)

text \<open>The page that confirms a submission links to its identifier; the target of that link is read as
  a request for exactly this identifier, and the response is a page, sent whole, on which the four
  checks pass with the submitted value and time.\<close>

lemma link_verifies:
  assumes "ed25519_laws (d_crypto E)" "d_schema E = None" "g_feed g = FStr fid"
    "json_ok (JDict (g_params g))" "valid_text (g_asset g)" "valid_text (g_tag g)"
    "demo_submit E signer g fid (g_output g) s = (Inr (Submitted tx v), s')" "\<And>x. valid_text (show x)"
  shows "\<exists>cid cells raw_json resp page. v = JStr cid \<and>
    py_in (lit ''<a href=\"/verify?cid='' @ cid @ lit ''\">'') (render (d_rep E) show (SubmitPage (Submitted tx v))) \<and>
    http_GET E signer show (lit ''/verify?cid='' @ cid) s' = (Inr (Some resp), s') \<and> rs_status resp = 200 \<and>
    map_of (rs_headers resp) ''Content-Length'' = Some (dec_int (int (length (rs_body resp)))) \<and>
    utf8_decode (rs_body resp) = Inr page \<and> page = render (d_rep E) show (VerifyPage cid
      (Checked [] True True (Some (g_output g)) (Some (g_time g)) (Inr ()) cells raw_json)) \<and>
    py_in (checks_html (d_rep E) [] True True (Some (g_output g)) (Some (g_time g)) (Inr ())) page"
proof -
  from confirmed_details[OF assms(1-7), of "show"] obtain cid cells raw_json d where c: "v = JStr cid"
    "handle_verify E show cid s' = (Inr (VerifyPage cid
      (Checked [] True True (Some (g_output g)) (Some (g_time g)) (Inr ()) cells raw_json)), s')"
    "json_ok d" "fetch_provenance_record demo_ipfs cid s' = (Inr (canon d), s')" "cid = simulated_cid (dumps_bytes d)"
    by (elim exE conjE) (rule that)
  let ?c = "Checked [] True True (Some (g_output g)) (Some (g_time g)) (Inr ()) cells raw_json"
  have n: "cid \<noteq> []" using c(2) by (auto simp: handle_verify_def)
  have v: "verify_page (d_crypto E) (d_schema E) show (canon d) = Inr ?c"
    using c(2,4) n by (auto simp: handle_verify_def res_simps)
  have shown: "list_all valid_text cells" "valid_text raw_json" using verify_page_shows[OF v json_ok_canon[OF c(3)] assms(8)] by simp_all
  have p: "list_all plain_char cid" using c(5) plain_cid by simp
  then have "valid_text cid" by (intro ascii_valid) (auto simp: list_all_iff plain_char_def ascii_text_def)
  moreover have "valid_text (verified_html (d_rep E) ?c)"
    by (auto simp: verified_html_def intro!: valid_result valid_checks shown)
  ultimately have "valid_text (render (d_rep E) show (VerifyPage cid ?c))" by (rule valid_verify_page)
  from respond_valid[OF _ this, of signer "Get (lit ''/verify'') cid" s' 200 s'] obtain resp where
    r: "respond E signer show (Get (lit ''/verify'') cid) s' = (Inr (Some resp), s')" "rs_status resp = 200"
    "map_of (rs_headers resp) ''Content-Length'' = Some (dec_int (int (length (rs_body resp))))"
    "utf8_decode (rs_body resp) = Inr (render (d_rep E) show (VerifyPage cid ?c))"
    using c(2) by (auto simp: answer_verify bindW_step)
  have "http_GET E signer show (lit ''/verify?cid='' @ cid) s' = (Inr (Some resp), s')"
    using r(1) by (simp add: http_GET_def query_of_plain[OF p n])
  moreover have "py_in (checks_html (d_rep E) [] True True (Some (g_output g)) (Some (g_time g)) (Inr ()))
      (render (d_rep E) show (VerifyPage cid ?c))"
    by (intro in_verify_page) (simp add: verified_html_def in_result)
  ultimately show ?thesis using c(1) in_confirmation[of cid "d_rep E" "show" tx] r(2-4) by blast
qed

section \<open>Posting the form\<close>

lemma valid_strip: "valid_text s \<Longrightarrow> valid_text (py_strip s)"
proof -
  have "set (strip_by P s) \<subseteq> set s" for P
    using set_dropWhileD[of _ P "rev (dropWhile P s)"] set_dropWhileD[of _ P s] by (auto simp: strip_by_def)
  then show "valid_text s \<Longrightarrow> valid_text (py_strip s)" by (auto simp: py_strip_def valid_text_def)
qed

lemma valid_submit_page:
  "valid_text tx \<Longrightarrow> valid_text cid \<Longrightarrow> valid_text (render rep show (SubmitPage (Submitted tx (JStr cid))))"
  by (auto simp: render_def submit_html_def alert_html_def str_of_def scalar_def is_surrogate_def intro!: valid_page valid_block)

text \<open>The body a browser sends for the form of the demo, with a time that is given.\<close>

definition posted :: "pystr \<Rightarrow> int \<Rightarrow> int \<Rightarrow> pystr \<Rightarrow> pystr \<Rightarrow> pystr \<Rightarrow> bytes" where
  "posted fd out t asset tag ptext = ascii_bytes (form_text [(lit ''feed_id'', fd), (lit ''output_value'', dec_int out),
     (lit ''timestamp_utc'', dec_int t), (lit ''asset_path'', asset), (lit ''version_tag'', tag), (lit ''input_params'', ptext)])"

text \<open>The result the handler makes of the fields.\<close>

definition posted_result :: "pystr \<Rightarrow> int \<Rightarrow> int \<Rightarrow> pystr \<Rightarrow> pystr \<Rightarrow> params \<Rightarrow> gee_result" where
  "posted_result fd out t asset tag ps = \<lparr>g_source = GEE_SCRIPT, g_params = ps, g_output = out,
     g_feed = FStr (py_strip fd), g_time = t, g_asset = py_strip asset, g_tag = py_strip tag\<rparr>"

lemma post_submits:
  assumes "list_all valid_text [fd, asset, tag, ptext]" "\<bar>out\<bar> \<le> 2 ^ 64" "\<bar>t\<bar> \<le> 2 ^ 64" "t \<noteq> 0"
    "loads (py_strip ptext) = Inr (JDict ps)"
  shows "handle_submit_post E signer (posted fd out t asset tag ptext) s =
    bindW (demo_submit E signer (posted_result fd out t asset tag ps) (py_strip fd) out)
      (\<lambda>n. liftW (Inr (Some (SubmitPage n)))) s"
proof -
  let ?fields = "[(lit ''feed_id'', fd), (lit ''output_value'', dec_int out),
     (lit ''timestamp_utc'', dec_int t), (lit ''asset_path'', asset), (lit ''version_tag'', tag), (lit ''input_params'', ptext)]"
  have v: "\<forall>(k, v) \<in> set ?fields. valid_text k \<and> valid_text v" using assms(1) by simp
  have d: "utf8_decode (posted fd out t asset tag ptext) = Inr (form_text ?fields)"
    using utf8_roundtrip[OF utf8_encode_ascii[OF ascii_form_text[OF v]]] by (simp add: posted_def ascii_bytes_def)
  have "fold (\<lambda>(k, v). dict_set k v) ?fields [] = ?fields" by simp
  then have f: "read_form (split_on 38 (form_text ?fields)) [] = Some ?fields"
    using form_reads_back[OF _ v] by simp
  have g: "form_field ?fields ''feed_id'' d = fd" "form_field ?fields ''output_value'' d = dec_int out"
    "form_field ?fields ''timestamp_utc'' d = dec_int t" "form_field ?fields ''asset_path'' d = asset"
    "form_field ?fields ''version_tag'' d = tag" "form_field ?fields ''input_params'' d = ptext" for d
    by (simp_all add: form_field_def)
  have ne: "dec_int t \<noteq> []" by (simp add: dec_int_def)
  show ?thesis
    unfolding handle_submit_post_def Let_def d bindW_lift f option.case g int64_text_back[OF assms(2)] sum.case
      if_not_P[OF ne] int64_text_back[OF assms(3)] if_not_P[OF assms(4)] assms(5) json.case mk_gee_result_def
    by (simp add: posted_result_def)
qed

text \<open>The submission of the demo is confirmed whenever its result is submittable and the clock in range.\<close>

lemma demo_confirms:
  assumes "ed25519_laws (d_crypto E)" "d_schema E = None" "submittable g"
    "sys_time (d_sys E) (dm_env s) = (Fin now, w)" "MIN_TS \<le> rat_trunc now" "rat_trunc now \<le> MAX_TS"
  shows "\<exists>tx v s'. demo_submit E signer g fid out s = (Inr (Submitted tx v), s')"
proof -
  have n: "int_now (d_sys (demo_deps E)) s = (Inr (rat_trunc now), s\<lparr>dm_env := w\<rparr>)"
    using assms(4) by (simp add: int_now_def demo_deps_def on_env_def bindW_def readW_def)
  obtain att tx r s1 where p: "process (demo_deps E) (demo_bridge signer) g s = (Inr (att, tx, r), s1)"
    using process_demo_total[OF assms(1-3) n assms(5,6)] by blast
  show ?thesis using append_total[OF p, of fid out] p by (auto simp: demo_submit_def bindW_def)
qed

lemma valid_tx: "valid_text (tx_name n)"
  by (intro ascii_valid) (auto simp: tx_name_def ascii_text_def lit_def dest: dec_nat_digits)

text \<open>C13: the form of the demo, filled in with any texts and posted as a browser encodes it, is answered
  by a page with the link of the confirmation, and the log grows by the entry of the submission, which
  has the feed and the value of the form; and the target of that link, requested then, is answered by a
  page on which the four checks of the record pass with the form's value and time. The fields are
  stripped of white space, the parameters are any text that reads as a JSON object, and the body may be
  followed by other bytes of the connection, which the length in the header cuts off.\<close>

theorem confirmed_link_verifies:
  assumes "ed25519_laws (d_crypto E)" "d_schema E = None" "\<And>x. valid_text (show x)"
    "sys_time (d_sys E) (dm_env s) = (Fin now, w)" "MIN_TS \<le> rat_trunc now" "rat_trunc now \<le> MAX_TS"
    "list_all valid_text [fd, asset, tag, ptext]" "utf8_encode (py_strip fd) = Inr fb" "length fb \<le> 32"
    "in_signed 64 out" "MIN_TS \<le> t" "t \<le> MAX_TS" "t \<noteq> 0"
    "loads (py_strip ptext) = Inr (JDict ps)" "json_ok (JDict ps)"
    "body = ascii_bytes (form_text [(lit ''feed_id'', fd), (lit ''output_value'', dec_int out),
      (lit ''timestamp_utc'', dec_int t), (lit ''asset_path'', asset), (lit ''version_tag'', tag), (lit ''input_params'', ptext)])"
    "length body \<le> 2 ^ 64"
  shows "\<exists>cid entry cells raw_json posted_page s' resp1 resp2 page.
    http_POST E signer show (lit ''/submit'') (Some (dec_int (int (length body)))) (body @ rest) s = (Inr (Some resp1), s') \<and>
    rs_status resp1 = 200 \<and> utf8_decode (rs_body resp1) = Inr posted_page \<and>
    map_of (rs_headers resp1) ''Content-Length'' = Some (dec_int (int (length (rs_body resp1)))) \<and>
    py_in (lit ''<a href=\"/verify?cid='' @ cid @ lit ''\">'') posted_page \<and>
    dm_log s' = dm_log s @ [entry] \<and> lg_feed entry = py_strip fd \<and> lg_value entry = out \<and> lg_cid entry = JStr cid \<and>
    http_GET E signer show (lit ''/verify?cid='' @ cid) s' = (Inr (Some resp2), s') \<and> rs_status resp2 = 200 \<and>
    map_of (rs_headers resp2) ''Content-Length'' = Some (dec_int (int (length (rs_body resp2)))) \<and>
    utf8_decode (rs_body resp2) = Inr page \<and> page = render (d_rep E) show (VerifyPage cid
      (Checked [] True True (Some out) (Some t) (Inr ()) cells raw_json)) \<and>
    py_in (checks_html (d_rep E) [] True True (Some out) (Some t) (Inr ())) page"
proof -
  let ?g = "posted_result fd out t asset tag ps"
  note sizes = assms(10-12)[unfolded in_signed_def MIN_TS_def MAX_TS_def]
  have b: "body = posted fd out t asset tag ptext" using assms(16) by (simp add: posted_def)
  have sub: "submittable ?g"
    using assms(8-12) script_valid by (auto simp: submittable_def posted_result_def feed_text_def)
  have tv: "valid_text (py_strip asset)" "valid_text (py_strip tag)" using assms(7) by (simp_all add: valid_strip)
  obtain tx v s' where d: "demo_submit E signer ?g (py_strip fd) out s = (Inr (Submitted tx v), s')"
    using demo_confirms[OF assms(1,2) sub assms(4-6)] by blast
  note g = posted_result_def[of fd out t asset tag ps]
  have d': "demo_submit E signer ?g (py_strip fd) (g_output ?g) s = (Inr (Submitted tx v), s')" using d by (simp add: g)
  have c: "g_feed ?g = FStr (py_strip fd)" "json_ok (JDict (g_params ?g))" "valid_text (g_asset ?g)" "valid_text (g_tag ?g)"
    using assms(15) tv by (simp_all add: g)
  from link_verifies[of E ?g "py_strip fd" signer s tx v s' "show", OF assms(1,2) c d' assms(3)] obtain cid cells raw_json resp2 page where
    l: "v = JStr cid" "py_in (lit ''<a href=\"/verify?cid='' @ cid @ lit ''\">'') (render (d_rep E) show (SubmitPage (Submitted tx v)))"
    "http_GET E signer show (lit ''/verify?cid='' @ cid) s' = (Inr (Some resp2), s')" "rs_status resp2 = 200"
    "map_of (rs_headers resp2) ''Content-Length'' = Some (dec_int (int (length (rs_body resp2))))"
    "utf8_decode (rs_body resp2) = Inr page" "page = render (d_rep E) show (VerifyPage cid
      (Checked [] True True (Some (g_output ?g)) (Some (g_time ?g)) (Inr ()) cells raw_json))"
    "py_in (checks_html (d_rep E) [] True True (Some (g_output ?g)) (Some (g_time ?g)) (Inr ())) page"
    by (elim exE conjE) (rule that)
  from confirmed_details[OF assms(1,2) c d', of "show"] obtain entry cid' doc where
    e: "tx = tx_name (dm_counter s + 1)" "dm_log s' = dm_log s @ [entry]" "lg_feed entry = py_strip fd"
    "lg_value entry = g_output ?g" "lg_cid entry = v" "v = JStr cid'" "cid' = simulated_cid (dumps_bytes doc)"
    by (elim exE conjE) (rule that)
  have "valid_text cid"
    using e(6,7) l(1) plain_cid[of "dumps_bytes doc"]
    by (intro ascii_valid) (auto simp: list_all_iff plain_char_def ascii_text_def)
  then have pv: "valid_text (render (d_rep E) show (SubmitPage (Submitted tx v)))"
    unfolding l(1) e(1) by (intro valid_submit_page valid_tx)
  have z: "\<bar>out\<bar> \<le> 2 ^ 64" "\<bar>t\<bar> \<le> 2 ^ 64" using sizes by (auto simp: abs_le_iff)
  have "handle_submit_post E signer body s = (Inr (Some (SubmitPage (Submitted tx v))), s')"
    unfolding b post_submits[OF assms(7) z assms(13,14)] using d by (simp add: bindW_def)
  then have "answer E signer show (Post (lit ''/submit'') body) s = (Inr (Some (200, SubmitPage (Submitted tx v))), s')"
    by (simp add: answer_def do_POST_def bindW_step)
  from respond_valid[OF this pv] obtain resp1 where r: "respond E signer show (Post (lit ''/submit'') body) s = (Inr (Some resp1), s')"
    "rs_status resp1 = 200" "map_of (rs_headers resp1) ''Content-Length'' = Some (dec_int (int (length (rs_body resp1))))"
    "utf8_decode (rs_body resp1) = Inr (render (d_rep E) show (SubmitPage (Submitted tx v)))" by blast
  have u: "url_parts (lit ''/submit'') = Some (lit ''/submit'', [])"
    by (simp add: url_parts_def Let_def before_def after_def cut_params_def lit_def)
  have h: "content_length (Some (dec_int (int (length body)))) = Some (Inr (int (length body)))"
    using int64_text_back[of "int (length body)"] assms(17) by (simp add: content_length_def)
  have "http_POST E signer show (lit ''/submit'') (Some (dec_int (int (length body)))) (body @ rest) s = (Inr (Some resp1), s')"
    using r(1) by (simp add: http_POST_def u h read_body_def)
  with l r e show ?thesis by (simp add: g) blast
qed

section \<open>Unescaped text\<close>

lemma query_of_quoted:
  assumes "valid_text cid" "cid \<noteq> []"
  shows "get_request (lit ''/verify?cid='' @ form_quote cid) = Some (Get (lit ''/verify'') cid)"
proof -
  let ?q = "form_quote cid"
  have p: "36 < c \<and> c \<noteq> 38" if "c \<in> set ?q" for c using form_quote_chars[OF assms(1) that] by simp
  then have "\<forall>c \<in> set ?q. c \<noteq> 35" by fastforce
  then have t: "takeWhile (\<lambda>x. x \<noteq> 35) ?q = ?q" by (auto simp: takeWhile_eq_all_conv)
  have "\<forall>c \<in> set ?q. c \<noteq> 9 \<and> c \<noteq> 10 \<and> c \<noteq> 13" using p by fastforce
  then have "filter (\<lambda>c. c \<notin> {9, 10, 13}) (lit ''/verify?cid='' @ ?q) = lit ''/verify?cid='' @ ?q"
    using p by (auto simp: lit_def intro!: filter_True)
  then have u: "url_parts (lit ''/verify?cid='' @ ?q) = Some (lit ''/verify'', lit ''cid='' @ ?q)"
    by (simp add: url_parts_def Let_def before_def after_def cut_params_def lit_def t)
  have "38 \<notin> set (lit ''cid='' @ ?q)" using p by (fastforce simp: lit_def)
  then have "split_on 38 (lit ''cid='' @ ?q) = [lit ''cid='' @ ?q]" by (rule split_on_none)
  moreover have "unquote_plus (lit ''cid'') = Some (lit ''cid'')" by (rule unquote_plain) (simp add: lit_def plain_char_def)
  ultimately have "query_cid (lit ''cid='' @ ?q) = Some cid"
    using form_quote_nonempty[OF assms] unquote_form[OF assms(1)] by (simp add: query_cid_def before_def after_def lit_def)
  then show ?thesis by (simp add: get_request_def u)
qed

lemma in_reflected: "py_in (lit ''<input name=\"cid\" value=\"'' @ cid @ lit ''\"'') (render rep show (VerifyPage cid v))"
proof -
  let ?l = "lit ''  <input name=\"cid\" value=\"'' @ cid @ lit ''\" placeholder=\"bafkrei...\" required>''"
  have "?l = lit ''  '' @ (lit ''<input name=\"cid\" value=\"'' @ cid @ lit ''\"'') @ lit '' placeholder=\"bafkrei...\" required>''"
    by (simp add: lit_def)
  then have "py_in (lit ''<input name=\"cid\" value=\"'' @ cid @ lit ''\"'') ?l" unfolding py_in_iff by blast
  then show ?thesis
    unfolding render_def verify_form_html_def page.case by (intro in_page) (rule in_block[where x = ?l], simp_all)
qed

lemma verify_answers:
  assumes "handle_verify E show cid s = (Inr p, s')"
  shows "s' = s \<and> (\<exists>v. p = VerifyPage cid v)"
  using assms by (auto simp: handle_verify_def fetch_provenance_record_def demo_ipfs_def res_simps
      split: if_splits prod.splits sum.splits)

lemma verify_response:
  assumes "respond E signer show (Get (lit ''/verify'') cid) s = (Inr (Some resp), s')"
  shows "s' = s \<and> rs_status resp = 200 \<and> (\<exists>v. utf8_decode (rs_body resp) = Inr (render (d_rep E) show (VerifyPage cid v)))"
proof -
  from assms obtain p s1 where p: "handle_verify E show cid s = (Inr p, s1)"
    "(Inr (Some resp), s') = (bindE (send_html (render (d_rep E) show p) 200) (\<lambda>r. Inr (Some r)), s1)"
    by (auto simp: respond_def answer_verify bindW_ok)
  from verify_answers[OF p(1)] obtain v where v: "s1 = s" "p = VerifyPage cid v" by blast
  from p(2) obtain enc where "utf8_encode (render (d_rep E) show p) = Inr enc" "rs_body resp = enc" "rs_status resp = 200"
    by (auto simp: send_html_def res_simps dest!: sym[where s = "Inr (Some resp)"])
  with utf8_roundtrip p(2) v show ?thesis by auto
qed

text \<open>C40: whatever the server holds, every response to a request for the verification page of an
  identifier contains that identifier, as it is, inside an attribute of the page, and leaves the server
  as it was; any text can be requested in this way, and for an identifier that is not in the store there
  is such a response.\<close>

theorem verify_reflects:
  assumes "target = lit ''/verify?cid='' @ form_quote cid \<or> get_request target = Some (Get (lit ''/verify'') cid)"
    "valid_text cid" "cid \<noteq> []"
  shows "(\<forall>resp s'. http_GET E signer show target s = (Inr (Some resp), s') \<longrightarrow> s' = s \<and> rs_status resp = 200 \<and>
      (\<exists>page. utf8_decode (rs_body resp) = Inr page \<and> py_in (lit ''<input name=\"cid\" value=\"'' @ cid @ lit ''\"'') page)) \<and>
    (cid \<notin> set (dict_keys (dm_store s)) \<longrightarrow> (\<exists>resp. http_GET E signer show target s = (Inr (Some resp), s)))"
proof -
  have g: "get_request target = Some (Get (lit ''/verify'') cid)" using assms query_of_quoted by blast
  then have h: "http_GET E signer show target = respond E signer show (Get (lit ''/verify'') cid)" by (simp add: http_GET_def)
  have "\<exists>resp. http_GET E signer show target s = (Inr (Some resp), s)" if "cid \<notin> set (dict_keys (dm_store s))"
  proof -
    have "map_of (dm_store s) cid = None" using that by (simp add: map_of_eq_None_iff)
    then have "handle_verify E show cid s = (Inr (VerifyPage cid UnknownCid), s)"
      using assms(3) by (simp add: handle_verify_def fetch_provenance_record_def demo_ipfs_def sim_get_def raise_def)
    then have a: "answer E signer show (Get (lit ''/verify'') cid) s = (Inr (Some (200, VerifyPage cid UnknownCid)), s)"
      by (simp add: answer_verify bindW_step)
    have "valid_text (render (d_rep E) show (VerifyPage cid UnknownCid))"
      using assms(2) by (intro valid_verify_page) (simp_all add: verified_html_def)
    from respond_valid[OF a this] show ?thesis unfolding h by blast
  qed
  moreover have "s' = s \<and> rs_status resp = 200 \<and>
      (\<exists>page. utf8_decode (rs_body resp) = Inr page \<and> py_in (lit ''<input name=\"cid\" value=\"'' @ cid @ lit ''\"'') page)"
    if "http_GET E signer show target s = (Inr (Some resp), s')" for resp s'
    using verify_response[OF that[unfolded h]] in_reflected by blast
  ultimately show ?thesis by blast
qed

section \<open>Concrete requests\<close>

text \<open>A form with spaces around the feed, an asset path outside ASCII with an ampersand, and parameters.\<close>

lemma sample_params_text: "loads (py_strip (lit '' {\"aoi\":4} '')) = Inr (JDict [(lit ''aoi'', JInt 4)])"
proof -
  have t: "dumps (JDict [(lit ''aoi'', JInt 4)]) = lit ''{\"aoi\":4}''"
    by (simp add: lit_def json_string_def member_text_def dec_int_def esc_char_def dec_nat.simps)
  have "json_ok (JDict [(lit ''aoi'', JInt 4)])" by simp
  from loads_dumps[OF this] have "loads (lit ''{\"aoi\":4}'') = Inr (JDict [(lit ''aoi'', JInt 4)])"
    unfolding t by simp
  moreover have "py_strip (lit '' {\"aoi\":4} '') = lit ''{\"aoi\":4}''"
    by (simp add: py_strip_def strip_by_def is_space_def lit_def)
  ultimately show ?thesis by simp
qed

lemma confirmed_link_verifies_witness:
  "\<exists>cid entry s' resp1 resp2 posted_page.
     http_POST (sample_deps :: (bytes, unit) deps) (replicate 32 7) (\<lambda>_. []) (lit ''/submit'') (Some (dec_int
         (int (length (posted (lit '' BCT '') 5 1720051200 [97, 38, 233] (lit ''v 1'') (lit '' {\"aoi\":4} ''))))))
       (posted (lit '' BCT '') 5 1720051200 [97, 38, 233] (lit ''v 1'') (lit '' {\"aoi\":4} '') @ [13, 10]) (demo_start ()) =
       (Inr (Some resp1), s') \<and> utf8_decode (rs_body resp1) = Inr posted_page \<and>
     py_in (lit ''<a href=\"/verify?cid='' @ cid @ lit ''\">'') posted_page \<and>
     dm_log s' = [entry] \<and> lg_feed entry = lit ''BCT'' \<and> lg_value entry = 5 \<and>
     http_GET (sample_deps :: (bytes, unit) deps) (replicate 32 7) (\<lambda>_. []) (lit ''/verify?cid='' @ cid) s' = (Inr (Some resp2), s')"
proof -
  let ?E = "sample_deps :: (bytes, unit) deps" and ?s = "demo_start ()"
  let ?body = "posted (lit '' BCT '') 5 1720051200 [97, 38, 233] (lit ''v 1'') (lit '' {\"aoi\":4} '')"
  have tr: "rat_trunc 1720051200 = 1720051200" using rat_trunc_of_int[of 1720051200] by simp
  have v: "valid_text ((\<lambda>_. []) (x :: json))" for x by simp
  have clock: "sys_time (d_sys ?E) (dm_env ?s) = (Fin 1720051200, ())" by (simp add: sample_deps_def)
  have range: "MIN_TS \<le> rat_trunc 1720051200" "rat_trunc 1720051200 \<le> MAX_TS" "in_signed 64 5" "MIN_TS \<le> 1720051200"
    "(1720051200 :: int) \<le> MAX_TS" "(1720051200 :: int) \<noteq> 0"
    by (simp_all add: tr MIN_TS_def MAX_TS_def in_signed_def)
  have strip: "py_strip (lit '' BCT '') = lit ''BCT''"
    by (simp add: py_strip_def strip_by_def is_space_def lit_def)
  have enc: "utf8_encode (py_strip (lit '' BCT '')) = Inr (map of_nat (lit ''BCT''))"
    unfolding strip by (rule utf8_encode_ascii) (simp add: ascii_lit)
  have fb: "length (map of_nat (lit ''BCT'') :: bytes) \<le> 32" by simp
  have texts: "list_all valid_text [lit '' BCT '', [97, 38, 233], lit ''v 1'', lit '' {\"aoi\":4} '']"
    by (simp add: scalar_def is_surrogate_def)
  have len: "length ?body \<le> 2 ^ 64"
    by (simp add: posted_def ascii_bytes_def form_text_def form_quote_def quote_byte_def unreserved_def utf8_char_def lit_def
        dec_int_def dec_nat.simps)
  have ps: "json_ok (JDict [(lit ''aoi'', JInt 4)])" by simp
  have log: "dm_log ?s @ [entry] = [entry]" for entry by (simp add: demo_start_def)
  from confirmed_link_verifies[OF sample_conditions(1,2) v clock range(1,2) texts enc fb range(3-6) sample_params_text ps
      posted_def len, of "replicate 32 7" "[13, 10]"]
  show ?thesis unfolding strip log by (elim exE conjE, intro exI conjI) assumption+
qed

lemma verify_reflects_witness:
  "\<exists>resp page. http_GET (sample_deps :: (bytes, unit) deps) (replicate 32 7) (\<lambda>_. [])
       (lit ''/verify?cid='' @ form_quote (lit ''\"><script>'')) (demo_start ()) = (Inr (Some resp), demo_start ()) \<and>
     utf8_decode (rs_body resp) = Inr page \<and> py_in (lit ''<input name=\"cid\" value=\"\"><script>\"'') page"
proof -
  have n: "lit ''\"><script>'' \<notin> set (dict_keys (dm_store (demo_start ())))" "lit ''\"><script>'' \<noteq> []"
    by (simp_all add: demo_start_def)
  have l: "lit ''<input name=\"cid\" value=\"'' @ lit ''\"><script>'' @ lit ''\"'' = lit ''<input name=\"cid\" value=\"\"><script>\"''"
    by (simp add: lit_def)
  note r = verify_reflects[OF disjI1[OF refl] valid_literal n(2), of "sample_deps :: (bytes, unit) deps" "replicate 32 7" "\<lambda>_. []"
      "demo_start ()", unfolded l]
  from r n(1) obtain resp where g: "http_GET (sample_deps :: (bytes, unit) deps) (replicate 32 7) (\<lambda>_. [])
      (lit ''/verify?cid='' @ form_quote (lit ''\"><script>'')) (demo_start ()) = (Inr (Some resp), demo_start ())" by blast
  with r obtain page where "utf8_decode (rs_body resp) = Inr page"
    "py_in (lit ''<input name=\"cid\" value=\"\"><script>\"'') page" by blast
  with g show ?thesis by blast
qed

end
