(* ===== verification/Logging.thy ===== *)
theory Logging
  imports Bridge
begin

text \<open>
  \<open>StructuredFormatter\<close> of \<open>oracle_bridge/logging_config.py\<close>, and what it makes of
  the circuit-breaker alert. A log record has its standard fields, the formatted exception when there
  is one, and the attributes given as \<open>extra\<close>, all JSON values.
\<close>

section \<open>Formatting\<close>

record log_record =
  lr_level :: pystr
  lr_name :: pystr
  lr_message :: pystr
  lr_module :: pystr
  lr_func :: pystr
  lr_line :: int
  lr_exception :: "pystr option"
  lr_extra :: "json dict"

text \<open>\<open>json.dumps\<close> with its default separators.\<close>

fun plain :: "json \<Rightarrow> pystr" where
  "plain (JList xs) = 91 # join (lit '', '') (map plain xs) @ [93]"
| "plain (JDict kvs) = 123 # join (lit '', '') (map (\<lambda>(k, t). json_string k @ lit '': '' @ t)
     (map (\<lambda>(k, v). (k, plain v)) kvs)) @ [125]"
| "plain v = dumps v"

definition copied :: "string \<Rightarrow> json dict \<Rightarrow> json dict \<Rightarrow> json dict" where
  "copied k extra entry = (case map_of extra (lit k) of Some v \<Rightarrow> dict_set (lit k) v entry | None \<Rightarrow> entry)"

text \<open>\<open>entry.update(record.extra_fields)\<close> for a dictionary; what \<open>update\<close> makes of lists of
  pairs is left out, and every other value is the TypeError.\<close>

definition updated :: "json dict \<Rightarrow> json dict \<Rightarrow> json dict res" where
  "updated extra entry = (case map_of extra (lit ''extra_fields'') of
     None \<Rightarrow> Inr entry
   | Some (JDict kvs) \<Rightarrow> Inr (fold (\<lambda>(k, v). dict_set k v) kvs entry)
   | Some v \<Rightarrow> raise TypeError [T ''object is not iterable''])"

definition log_entry_of :: "pystr \<Rightarrow> log_record \<Rightarrow> json dict res" where
  "log_entry_of now r = updated (lr_extra r) (copied ''adapter'' (lr_extra r) (copied ''feed_id'' (lr_extra r) (
     [(lit ''timestamp'', JStr now), (lit ''level'', JStr (lr_level r)), (lit ''logger'', JStr (lr_name r)),
      (lit ''message'', JStr (lr_message r)), (lit ''module'', JStr (lr_module r)),
      (lit ''function'', JStr (lr_func r)), (lit ''line'', JInt (lr_line r))] @
     (case lr_exception r of None \<Rightarrow> [] | Some t \<Rightarrow> [(lit ''exception'', JStr t)]))))"

definition format_record :: "pystr \<Rightarrow> log_record \<Rightarrow> pystr res" where
  "format_record now r = bindE (log_entry_of now r) (\<lambda>entry. Inr (plain (JDict entry)))"

section \<open>The circuit-breaker alert\<close>

definition alert_record :: "int \<Rightarrow> alert \<Rightarrow> log_record" where
  "alert_record line a = \<lparr>lr_level = lit ''ERROR'', lr_name = lit ''oracle_bridge.bridge'',
     lr_message = lit ''oracle_circuit_breaker_tripped'', lr_module = lit ''bridge'',
     lr_func = lit ''_submit_with_circuit_breaker_alert'', lr_line = line, lr_exception = None,
     lr_extra = [(lit ''event'', js ''oracle_circuit_breaker_tripped''), (lit ''feed_id'', JStr (al_feed a)),
       (lit ''timestamp_utc'', JInt (al_time a)), (lit ''output_value'', JInt (al_output a)),
       (lit ''reason'', JStr (al_reason a))]\<rparr>"

text \<open>Of the alert's own data only the feed reaches the structured line: two alerts of one feed are
  logged alike, whatever their time, value and reason.\<close>

lemma alert_logs_feed_only:
  "\<exists>entry. log_entry_of now (alert_record line a) = Inr entry \<and> map_of entry (lit ''feed_id'') = Some (JStr (al_feed a)) \<and>
     lit ''reason'' \<notin> set (dict_keys entry) \<and> lit ''output_value'' \<notin> set (dict_keys entry)"
  by (simp add: log_entry_of_def alert_record_def updated_def copied_def)

lemma alerts_alike:
  "al_feed a = al_feed b \<Longrightarrow> format_record now (alert_record line a) = format_record now (alert_record line b)"
  by (simp add: format_record_def log_entry_of_def alert_record_def updated_def copied_def)

section \<open>The root logger\<close>

text \<open>A handler is the one \<open>configure_logging\<close> makes, on the standard output with one of its two
  formatters, or one somebody else has added.\<close>

datatype formatter = Structured | Readable

datatype handler = Stdout formatter | Foreign pystr

record root_logger =
  rl_level :: int
  rl_handlers :: "handler list"

text \<open>The attributes of the module \<open>logging\<close> whose names have no small letters.\<close>

definition logging_levels :: "(string \<times> int) list" where
  "logging_levels = [(''CRITICAL'', 50), (''FATAL'', 50), (''ERROR'', 40), (''WARNING'', 30), (''WARN'', 30), (''INFO'', 20),
     (''DEBUG'', 10), (''NOTSET'', 0)]"

definition upper :: "pystr \<Rightarrow> pystr" where
  "upper s = map (\<lambda>c. if 97 \<le> c \<and> c \<le> 122 then c - 32 else c) s"

text \<open>\<open>root.setLevel(getattr(logging, level.upper(), logging.INFO))\<close> for ASCII text: two attributes are
  not levels, and a name that is no attribute is \<open>INFO\<close>.\<close>

definition level_of :: "pystr \<Rightarrow> int res" where
  "level_of level =
     (if upper level = lit ''BASIC_FORMAT'' then raise ValueError [T ''Unknown level: '', Q [lit ''%(levelname)s:%(name)s:%(message)s'']]
      else if upper level = lit ''_STYLES'' then raise TypeError [T ''Level not an integer or a valid string'']
      else Inr (case map_of (map (\<lambda>(n, v). (lit n, v)) logging_levels) (upper level) of Some v \<Rightarrow> v | None \<Rightarrow> 20))"

text \<open>The level is set before the old handlers go, so an invalid one leaves the logger as it is.\<close>

definition configure_logging :: "pystr \<Rightarrow> bool \<Rightarrow> (unit, root_logger) act" where
  "configure_logging level structured =
     bindW (liftW (level_of level)) (\<lambda>v. updateW (\<lambda>lg.
       lg\<lparr>rl_level := v, rl_handlers := [Stdout (if structured then Structured else Readable)]\<rparr>))"

text \<open>\<open>%(asctime)s [%(levelname)s] %(name)s: %(message)s\<close>, and the exception on lines of its own.\<close>

definition readable :: "pystr \<Rightarrow> log_record \<Rightarrow> pystr" where
  "readable asctime r =
     (let line = asctime @ lit '' ['' @ lr_level r @ lit ''] '' @ lr_name r @ lit '': '' @ lr_message r in
      case lr_exception r of
        None \<Rightarrow> line
      | Some t \<Rightarrow> line @ (if last line = 10 then [] else [10]) @ t)"

text \<open>What a record of level \<open>v\<close> writes to the standard output; a formatter that raises writes nothing there.\<close>

definition written_lines :: "root_logger \<Rightarrow> pystr \<Rightarrow> pystr \<Rightarrow> int \<Rightarrow> log_record \<Rightarrow> pystr list" where
  "written_lines lg now asctime v r = (if v < rl_level lg then [] else
     concat (map (\<lambda>h. case h of
        Stdout Readable \<Rightarrow> [readable asctime r]
      | Stdout Structured \<Rightarrow> (case format_record now r of Inr line \<Rightarrow> [line] | Inl e \<Rightarrow> [])
      | Foreign _ \<Rightarrow> []) (rl_handlers lg)))"

text \<open>Configured again, the logger is as if only the last configuration had happened; and then a record
  that passes the level is written once, whatever handlers there were before.\<close>

lemma reconfigured:
  "configure_logging l1 b1 lg = (Inr (), lg1) \<Longrightarrow> configure_logging l2 b2 lg1 = (Inr (), lg2) \<Longrightarrow>
    configure_logging l2 b2 lg = (Inr (), lg2)"
  by (cases "level_of l1"; cases "level_of l2") (auto simp: configure_logging_def)

lemma written_once:
  "configure_logging l False lg = (Inr (), lg1) \<Longrightarrow> level_of l = Inr n \<Longrightarrow>
    written_lines lg1 now asctime v r = (if v < n then [] else [readable asctime r])"
  by (auto simp: configure_logging_def written_lines_def)

lemma level_error_keeps: "configure_logging l b lg = (Inl e, lg1) \<Longrightarrow> lg1 = lg"
  by (cases "level_of l") (auto simp: configure_logging_def)

section \<open>The structured line\<close>

text \<open>It is a layout of the entry, and all its characters are printable ASCII: one record is one line.\<close>

lemma laid_out_plain: "laid_out v (plain v)"
proof (induction v)
  case (JList xs)
  then have "xs \<noteq> [] \<Longrightarrow> elems_laid_out xs (join ([] @ 44 # [32]) (map plain xs) @ [])"
    by (intro elems_joined) (auto simp: is_ws_def)
  then show ?case using elems[of "[]" xs] no_elems[of "[]"] by (cases "xs = []") (simp_all add: lit_def)
next
  case (JDict kvs)
  have "laid_out v (plain v)" if "(k, v) \<in> set kvs" for k v using JDict[of "(k, v)" v] that by (simp add: snds.simps)
  then have "kvs \<noteq> [] \<Longrightarrow>
      members_laid_out kvs (join ([] @ 44 # [32]) (map (\<lambda>(k, v). json_string k @ 58 # [32] @ plain v) kvs) @ [])"
    by (intro members_joined) (auto simp: is_ws_def)
  then show ?case using members[of "[]" kvs] no_members[of "[]"]
    by (cases "kvs = []") (simp_all add: lit_def comp_def case_prod_beta')
qed (simp_all add: atoms)

definition printable :: "pystr \<Rightarrow> bool" where
  "printable s \<longleftrightarrow> (\<forall>c \<in> set s. 32 \<le> c \<and> c \<le> 126)"

lemma printable_parts [simp]:
  "printable []" "printable (c # s) \<longleftrightarrow> 32 \<le> c \<and> c \<le> 126 \<and> printable s" "printable (s @ t) \<longleftrightarrow> printable s \<and> printable t"
  by (auto simp: printable_def)

lemma printable_part:
  "printable d \<Longrightarrow> printable (take n d)" "printable d \<Longrightarrow> printable (drop n d)" "printable d \<Longrightarrow> printable (strip_zeros d)"
  "32 \<le> c \<Longrightarrow> c \<le> 126 \<Longrightarrow> printable (replicate n c)"
  by (auto simp: printable_def strip_zeros_def dest: in_set_takeD in_set_dropD set_dropWhileD)

lemma printable_dec_nat: "printable (dec_nat n)"
  using dec_nat_digits by (fastforce simp: printable_def)

lemma printable_atoms: "printable (json_string s)" "printable (dec_int i)" "printable (float_repr f)"
proof -
  have "32 \<le> hex_digit k \<and> hex_digit k \<le> 126" if "k < 16" for k using that by (simp add: hex_digit_def)
  then have h: "printable (hex4 n)" for n by (simp add: hex4_def)
  have e: "printable (esc_char c)" for c unfolding esc_char_def u_escape_def Let_def by (simp add: h)
  have "printable (concat (map esc_char s))" by (induction s) (simp_all add: e)
  then show "printable (json_string s)" by (simp add: json_string_def)
  show "printable (dec_int i)" by (simp add: dec_int_def printable_dec_nat)
  have "printable (pos_repr x)" for x
    unfolding pos_repr_def Let_def by (simp add: printable_dec_nat printable_part lit_def split: prod.split)
  then show "printable (float_repr f)" by (cases f) (simp_all add: lit_def)
qed

lemma printable_join: "printable sep \<Longrightarrow> (\<And>x. x \<in> set xs \<Longrightarrow> printable x) \<Longrightarrow> printable (join sep xs)"
  by (induction sep xs rule: join.induct) auto

lemma printable_plain: "printable (plain v)"
proof (induction v)
  case (JDict kvs)
  have "printable (json_string k @ lit '': '' @ plain x)" if "(k, x) \<in> set kvs" for k x
    using JDict[of "(k, x)" x] that printable_atoms(1) by (simp add: lit_def snds.simps)
  then have "printable (join (lit '', '') (map (\<lambda>(k, t). json_string k @ lit '': '' @ t) (map (\<lambda>(k, v). (k, plain v)) kvs)))"
    by (intro printable_join) (auto simp: lit_def)
  then show ?case by simp
next
  case (JList xs)
  then have "printable (join (lit '', '') (map plain xs))" by (intro printable_join) (auto simp: lit_def)
  then show ?case by simp
qed (simp_all add: printable_atoms lit_def)

text \<open>The standard fields keep their values unless \<open>extra_fields\<close> replaces them.\<close>

lemma entry_message:
  "log_entry_of now r = Inr entry \<Longrightarrow> map_of (lr_extra r) (lit ''extra_fields'') = None \<Longrightarrow>
    map_of entry (lit ''message'') = Some (JStr (lr_message r)) \<and> map_of entry (lit ''level'') = Some (JStr (lr_level r))"
  by (auto simp: log_entry_of_def updated_def copied_def split: option.splits)

text \<open>C23: after a structured configuration, whatever handlers there were before, a record that passes the
  level writes exactly one line, unless its extra fields cannot be merged, and a record below it
  writes nothing. The line is printable ASCII, so that no message can forge a second record, and it
  is JSON that reads back as the entry, which has the message and the level of the record.\<close>

theorem structured_log_lines:
  assumes "configure_logging level True lg = (Inr (), lg1)"
  shows "level_of level = Inr (rl_level lg1) \<and>
    (case log_entry_of now r of
       Inl e \<Rightarrow> written_lines lg1 now asctime v r = []
     | Inr entry \<Rightarrow>
         written_lines lg1 now asctime v r = (if v < rl_level lg1 then [] else [plain (JDict entry)]) \<and>
         (\<forall>c \<in> set (plain (JDict entry)). 32 \<le> c \<and> c \<le> 126) \<and>
         (json_ok (JDict entry) \<longrightarrow> loads (plain (JDict entry)) = Inr (JDict entry)) \<and>
         (map_of (lr_extra r) (lit ''extra_fields'') = None \<longrightarrow>
            map_of entry (lit ''message'') = Some (JStr (lr_message r)) \<and>
            map_of entry (lit ''level'') = Some (JStr (lr_level r))))"
proof -
  from assms obtain n where n: "level_of level = Inr n" "rl_level lg1 = n" "rl_handlers lg1 = [Stdout Structured]"
    by (cases "level_of level") (auto simp: configure_logging_def updateW_def)
  show ?thesis
  proof (cases "log_entry_of now r")
    case (Inl e)
    then show ?thesis using n by (simp add: written_lines_def format_record_def)
  next
    case (Inr entry)
    have "written_lines lg1 now asctime v r = (if v < rl_level lg1 then [] else [plain (JDict entry)])"
      using n Inr by (simp add: written_lines_def format_record_def del: plain.simps)
    then show ?thesis
      using n Inr entry_message[OF Inr] loads_laid_out[OF laid_out_plain, of _ "[]" "[]"] printable_plain[of "JDict entry"]
      by (simp add: printable_def del: plain.simps json_ok.simps)
  qed
qed

definition forged :: log_record where
  "forged = \<lparr>lr_level = lit ''ERROR'', lr_name = lit ''a'', lr_message = [10, 123, 125, 10], lr_module = lit ''b'',
     lr_func = lit ''c'', lr_line = 7, lr_exception = None, lr_extra = []\<rparr>"

lemma structured_log_lines_witness:
  "\<exists>lg1 entry. configure_logging (lit ''info'') True \<lparr>rl_level = 30, rl_handlers = [Foreign []]\<rparr> = (Inr (), lg1) \<and>
     written_lines lg1 [] [] 40 forged = [plain (JDict entry)] \<and> loads (plain (JDict entry)) = Inr (JDict entry) \<and>
     map_of entry (lit ''message'') = Some (JStr [10, 123, 125, 10])"
proof -
  have c: "configure_logging (lit ''info'') True \<lparr>rl_level = 30, rl_handlers = [Foreign []]\<rparr> =
      (Inr (), \<lparr>rl_level = 20, rl_handlers = [Stdout Structured]\<rparr>)"
    by (simp add: configure_logging_def level_of_def upper_def lit_def logging_levels_def updateW_def)
  obtain entry where e: "log_entry_of [] forged = Inr entry" "json_ok (JDict entry)"
    by (simp add: forged_def log_entry_of_def updated_def copied_def) (simp add: valid_text_def scalar_def is_surrogate_def lit_def)
  from structured_log_lines[OF c, of "[]" "[]" 40 forged, unfolded e(1)] e(2) c show ?thesis
    by (simp add: forged_def del: plain.simps json_ok.simps) blast
qed

end
