(* ===== verification/Spec2Isabelle.thy ===== *)
theory Spec2Isabelle
  imports Attestation_Properties Aggregation_Properties Ipfs_Properties Resilience_Properties Adapters_Properties
    Bridge_Properties Verify_Tool_Properties Verify_Text Cli_Properties Command_Lines_Properties Submit_Properties
    Demo_Server_Properties Demo_Refinement Demo_Http_Properties Logging
begin

text \<open>
  A verification library for the oracle bridge (\<open>oracle-bridge/\<close>): the Python service that signs
  carbon values computed in Google Earth Engine, records their provenance, pins the record to IPFS
  and submits the signed value to the \<open>carbon_oracle\<close> contract; with its market feeds, its
  command line, its verification tool and its demo server.

  The parts and how they meet. A result is signed (\<open>attestation.py\<close>); a provenance record of it is
  written and validated (\<open>provenance.py\<close>), pinned (\<open>ipfs.py\<close>) and its identifier submitted
  with the attestation (\<open>bridge.py\<close>). Several results are first aggregated
  (\<open>aggregation.py\<close>). Market feeds (\<open>adapters/\<close>) fetch prices under retry, degraded mode and a
  dead-letter queue (\<open>resilience.py\<close>) and count what happens (\<open>metrics.py\<close>). The command line
  (\<open>cli.py\<close>) submits a results file and replays the queue; \<open>tools/verify_provenance.py\<close>
  checks a stored record; \<open>tools/demo_server.py\<close> runs all of it behind a few pages.

  Foundations. \<open>Py_Prelude\<close>: errors as the left side of a sum, with their class and message
  (\<open>bindE\<close>, \<open>guardE\<close>, \<open>mapE\<close>), dictionaries as association lists in insertion order,
  the collections \<open>res_simps\<close> and \<open>dict_simps\<close>. \<open>Py_World\<close>: actions on a world that
  may fail. \<open>Py_Float\<close>, \<open>Py_Num\<close>: binary64 as rounded rationals with infinities and NaN.
  \<open>Py_Bytes\<close>, \<open>Py_Text\<close>: byte words, big-endian integers, hexadecimal, UTF-8; the locale of
  encodings with its interpretations. \<open>Json\<close>, \<open>Json_Parse\<close>: \<open>json.dumps\<close> with sorted keys
  and \<open>json.loads\<close>; a layout is a text of a value with any white space between its tokens, the
  compact, the indented and the log form are layouts, and the parser reads every layout. \<open>Sha256\<close>: the hash, executable. \<open>Py_Time\<close>: the
  calendar of \<open>datetime.fromtimestamp\<close> and \<open>isoformat\<close>. \<open>Py_Dyn\<close>: operations on values
  whose type is known only at run time. \<open>Py_Form\<close>: numbers and forms as text, and
  (\<open>Py_Form_Properties\<close>) that a form as a browser encodes it is read back.

  Components, each with its definitions in one theory and what is shown of it in another.
  \<open>Attestation\<close>: the 113-byte payload, the signer and the verifier; round trips, injectivity, when
  signing succeeds and that it verifies. \<open>Aggregation\<close>: IQR and MAD rejection and the weighted
  median; order independence, accounting, exactness against rational arithmetic
  (\<open>Aggregation_Median\<close>, \<open>Aggregation_Quartiles\<close>), and where binary64 makes a difference.
  \<open>Provenance\<close>: writing, reading, validating and hash checking of a record. \<open>Ipfs\<close>: the
  content store (locale \<open>content_store\<close>, interpreted on the simulated client) and the Kubo client.
  \<open>Resilience\<close>: retry, the degraded-mode machine with its reachable states and its refinement of
  the history of events, and the queue (locale \<open>dead_letters\<close>, interpreted on the table).
  \<open>Adapters\<close>, \<open>Metrics\<close>: a fetch in each of its cases, with the conditions that decide between a
  served fallback and a failure, and the replay of an entry.
  \<open>Bridge\<close>: submissions (locale \<open>bridge_world\<close>: what the bridge does to a view of the world
  that neither the clock nor pinning changes; interpreted on the demo server's bridge); what a
  successful submission signed, recorded and pinned, that nothing else reaches the chain, how often
  the client is called and which of its failures are alerted, commit and reveal. \<open>Verify_Tool\<close>: the checks and exit codes; the tool
  accepts what the bridge pinned, exactly which documents it accepts, and that a dumped record stands
  for the record. \<open>Verify_Text\<close>: the texts the tool prints, which agree with its exit status. \<open>Cli\<close>: the
  commands; what the exit code of a replay says (\<open>Cli_Properties\<close>), what a successful submit command
  has read from its file, aggregated, signed under which key, pinned and printed, and when the metrics
  server ends (\<open>Submit_Properties\<close>).
  \<open>Arg_Parse\<close>, \<open>Command_Lines\<close>: the option tables of both programs and what they use of
  \<open>argparse\<close>; every command has an argument vector that reads back as it. \<open>Logging\<close>: the root logger,
  the two formatters and the structured line, which is one line of JSON whatever is logged; of the
  circuit-breaker alert only the feed reaches it. \<open>Demo_Server\<close>: the state of the server and its
  requests; an invariant of its reachable states, and that chain and counter are functions of the log
  (\<open>Demo_Refinement\<close>, an abstract server that only keeps the log). \<open>Demo_Pages\<close>, \<open>Demo_Http\<close>: the HTML
  of every page, the reading of targets, queries and bodies, and the responses; a posted form is
  answered by a confirmation whose link leads to a page on which every check passes, and the CID of a
  request is repeated without escaping. This theory closes the circle: the file of a published record makes the
  verification program exit with 0, from its argument vector on.

  Conventions. A Python object with methods is a record and one definition per method; the state an
  operation changes is an argument and a part of its result. What the code only calls is a parameter:
  Ed25519 (\<open>ed25519_laws\<close> names the laws used, and \<open>echo_scheme\<close> satisfies them), HTTP, files
  and the environment, the clock, randomness and sleeping, local time (\<open>strptime\<close> and
  \<open>mktime\<close>), the Prometheus client, the jsonschema validator (the project does not depend on it,
  so \<open>None\<close> is the usual case) and the representation of containers inside messages. Every
  exception is a value; only \<open>KeyboardInterrupt\<close> is outside \<open>Exception\<close>.

  Bounds and fuel. The JSON parser takes twice the length of its text plus two as fuel, which
  \<open>loads_dumps\<close> shows to be enough for every text the printer writes; every other recursion is
  structural or has a termination proof, but the loop of the metrics server, which is a partial
  function and need not return. Integers of the payload are 64 bits wide with their overflow errors;
  Python's integers are unbounded.

  Limits. Binary64 has no negative zero here, and the sum of a list is taken from left to right
  without compensation (as up to Python 3.11). \<open>attestation_from_dict\<close> and the results file of the
  submit command are modelled for fields of their declared types, a form of the demo server for
  parameters that are an object and bytes that are UTF-8, a request to it for targets that are a path.
  \<open>argparse\<close> is that of Python 3.11.10, without the separator \<open>--\<close>; where digits are looked for,
  characters outside ASCII are outside the model (the parser then answers \<open>None\<close>). A float as a timestamp is a TypeError of
  \<open>utc_iso\<close>. Where Python shows sets, their elements are shown sorted. Failures of SQLite and of
  logging do not occur, and Python's recursion limit is not modelled. A program that an exception ends
  has the exit status 1; the status of one interrupted from the keyboard (130) is not modelled.

  Tests that disagree with the code. The project deselects nine tests of the aggregation in
  \<open>pyproject.toml\<close>, as the code rejects fewer sources than their fixtures expect, and two of them
  expect the mean of the two middle values as the median. The theorems are about the code; those on
  aggregates, the weighted median and IQR rejection name these tests, and \<open>disputed_fixtures\<close> gives
  what the code returns for two of the fixtures.

  Not modelled: sockets and \<open>http.server\<close>; the texts of help, usage and error messages of the command
  lines, and what the verification tool has printed before an exception ends it; the exports of the
  packages; the tests; the Soroban contracts and the TypeScript backend, which are other programs.
\<close>

section \<open>From the submission to the command line of the tool\<close>

text \<open>C3: the record of a successful submission, single or aggregate, in a file, as it was pinned or as
  \<open>to_json\<close> writes it, is accepted by the verification tool: the command line
  \<open>verify --file=<path> --check-sig\<close> is parsed, and the program exits with 0.\<close>

theorem published_file_verifies:
  assumes "ed25519_laws (d_crypto D)"
    "process D B g w = (Inr (att, tx, r), w') \<or> aggregate_and_submit D B results w = (Inr (ag, att, tx, r), w')"
    "prov_to_dict (unsubmitted r) = Inr d" "json_ok d"
    "fs path = Some (Inr content)" "content = dumps d \<or> prov_to_json (unsubmitted r) = Inr content"
  shows "\<exists>p. tool_parse [lit ''verify'', given_as ''--file'' path, lit ''--check-sig''] = Some p \<and>
    tool_program (Some (d_crypto D)) None env rep http fs p v = 0"
proof -
  let ?cmd = "Verify (FromFile path) True"
  have p: "tool_parse [lit ''verify'', given_as ''--file'' path, lit ''--check-sig''] = Some (Parsed ?cmd)"
    using tool_back[of ?cmd] by (simp add: tool_argv_def source_arg_def flag_if_def)
  have "content = dumps d \<or> content = pretty 0 d" using assms(3,6) by (auto simp: prov_to_json_def)
  then obtain doc where doc: "loads content = Inr doc" "doc = d \<or> doc = canon d"
    using loads_dumps[OF assms(4)] loads_pretty[OF assms(4), of "[]"] by auto
  have "verdict (verify_record (Some (d_crypto D)) None True doc) = Inr True"
    using submitted_verdict[OF assms(1-3)] doc(2) verdict_canon[OF assms(4)] by metis
  then obtain outs where "verify_record (Some (d_crypto D)) None True doc = Inr (outs, True)" unfolding verdict_accepts ..
  then have "tool_main (Some (d_crypto D)) None env rep http fs ?cmd v = 0"
    using assms(5) doc(1) by (simp add: tool_main_def load_source_def load_from_file_def cmd_verify_def with_record_def
        verify_status_def exit_status_def)
  with p show ?thesis by (simp add: tool_program_def)
qed

lemma published_file_verifies_witness:
  "\<exists>att tx r w' content. process sample_deps sample_bridge Bridge_Properties.sample_result ([], []) = (Inr (att, tx, r), w') \<and>
     prov_to_json (unsubmitted r) = Inr content \<and>
     (\<exists>p. tool_parse [lit ''verify'', given_as ''--file'' (lit ''r.json''), lit ''--check-sig''] = Some p \<and>
        tool_program (Some echo_scheme) None (\<lambda>_. None) (\<lambda>_. []) (\<lambda>_ w. (Inr [], w)) (\<lambda>path. Some (Inr content)) p () = 0)"
proof -
  let ?g = "Bridge_Properties.sample_result"
  obtain att tx r w' where p: "process sample_deps sample_bridge ?g ([], []) = (Inr (att, tx, r), w')"
    using sample_process by blast
  obtain d where d: "prov_to_dict (unsubmitted r) = Inr d" using sample_pinned[OF p] by blast
  from process_ok[OF p] obtain sh w1 t r0 cid where q: "single_record ?g sh att t = Inr r0"
    "publish sample_deps sample_bridge att r0 w1 = (Inr (cid, tx, r), w')" by blast
  from publish_ok[OF q(2)] have "r = r0\<lparr>ipfs_cid := JStr cid, tx_ref := JStr tx\<rparr>" by blast
  moreover have "tx_ref r0 = JNull" "ipfs_cid r0 = JNull" using q(1) by (auto simp: single_record_def res_simps)
  ultimately have u: "unsubmitted r = r0" by (simp add: unsubmitted_def)
  have j: "json_ok d"
    by (rule single_document[OF q(1) d[unfolded u], where fid = "lit ''BCT''"])
      (simp_all add: Bridge_Properties.sample_result_def valid_literal default_asset_def)
  have c: "d_crypto (sample_deps :: (bytes, store \<times> call list) deps) = echo_scheme" by (simp add: sample_deps_def)
  have l: "ed25519_laws (d_crypto (sample_deps :: (bytes, store \<times> call list) deps))" using c echo_laws by simp
  have t: "prov_to_json (unsubmitted r) = Inr (pretty 0 d)" by (simp add: prov_to_json_def d)
  from published_file_verifies[OF l disjI1[OF p] d j, where fs = "\<lambda>path. Some (Inr (pretty 0 d))" and content = "pretty 0 d"
      and path = "lit ''r.json''" and env = "\<lambda>_. None" and rep = "\<lambda>_. []" and http = "\<lambda>_ w. (Inr [], w)" and v = "()", OF refl disjI2[OF t]]
  show ?thesis unfolding c using p t by blast
qed

end
